(* ===== verification/Prelude.thy ===== *)
theory Prelude
  imports Complex_Main "HOL-Library.Multiset"
begin

text \<open>
  Shared vocabulary of the TrendNest storefront model.  The client is JavaScript, so
  this theory fixes how the model reads JavaScript values:
  \<^item> identifiers (product ids, bearer tokens, messages, URLs) are strings;
  \<^item> money is a JavaScript number holding dollars and cents; it is modelled as \<open>rat\<close>
    (the decimal arithmetic of the pages is exact in the model, floating-point rounding
    is not modelled);
  \<^item> quantities and page numbers are JavaScript integers, modelled as \<open>int\<close>;
  \<^item> a field that may be missing from a server payload (\<open>undefined\<close>) is an \<open>option\<close>;
  \<^item> the operator \<open>a || b\<close> is written out by \<open>js_or_str\<close> and \<open>js_or_num\<close>, since
    JavaScript treats the empty string and \<open>0\<close> as false.
  The named collection \<open>js_simps\<close> gathers the equations of these helpers so that
  component proofs unfold them with \<open>simp add: js_simps\<close>.
\<close>

named_theorems js_simps "equations of the JavaScript value helpers"

type_synonym product_id = string
type_synonym token = string
type_synonym money = rat

subsection \<open>JavaScript truthiness\<close>

definition truthy_str :: "string option \<Rightarrow> bool" where
  "truthy_str v = (case v of None \<Rightarrow> False | Some s \<Rightarrow> s \<noteq> [])"

definition js_or_str :: "string option \<Rightarrow> string \<Rightarrow> string" where
  "js_or_str v d = (case v of Some s \<Rightarrow> if s \<noteq> [] then s else d | None \<Rightarrow> d)"

definition js_or_num :: "'a::zero option \<Rightarrow> 'a \<Rightarrow> 'a" where
  "js_or_num v d = (case v of Some x \<Rightarrow> if x \<noteq> 0 then x else d | None \<Rightarrow> d)"

lemma truthy_str_simps [simp, js_simps]:
  "truthy_str None = False"
  "truthy_str (Some s) = (s \<noteq> [])"
  by (simp_all add: truthy_str_def)

lemma js_or_str_simps [simp, js_simps]:
  "js_or_str None d = d"
  "js_or_str (Some s) d = (if s \<noteq> [] then s else d)"
  by (simp_all add: js_or_str_def)

lemma js_or_num_simps [simp, js_simps]:
  "js_or_num None d = d"
  "js_or_num (Some x) d = (if x \<noteq> 0 then x else d)"
  by (simp_all add: js_or_num_def)

lemma js_or_num_zero [simp]: "js_or_num v 0 = (case v of None \<Rightarrow> 0 | Some x \<Rightarrow> x)"
  by (cases v) simp_all

lemma js_or_str_nonempty: "d \<noteq> [] \<Longrightarrow> js_or_str v d \<noteq> []"
  by (cases v) simp_all

subsection \<open>Folds as sums\<close>

text \<open>
  \<open>Array.prototype.reduce\<close> with an initial value is a left fold.  A fold that adds a
  projection of each element is the sum of the projections; the cart badge and the
  page totals are folds of this shape.
\<close>

lemma foldl_add_sum_list:
  "foldl (\<lambda>t x. t + f x) a xs = a + sum_list (map f xs)"
  by (induction xs arbitrary: a) (simp_all add: add.assoc)

lemma sum_list_map_nonneg:
  "(\<And>x. x \<in> set xs \<Longrightarrow> (0::'a::ordered_comm_monoid_add) \<le> f x) \<Longrightarrow> 0 \<le> sum_list (map f xs)"
  by (induction xs) simp_all

subsection \<open>Lists used as logs and queues\<close>

lemma filter_fst_neq_length:
  "(i, t) \<in> set xs \<Longrightarrow> length (filter (\<lambda>p. fst p \<noteq> i) xs) < length xs"
  by (induction xs) (auto intro: le_less_trans[OF length_filter_le])

text \<open>
  A queue of requests in flight is an association list from fresh request numbers;
  appending a fresh entry and removing it again are inverse.
\<close>

lemma map_of_append_fresh:
  "k \<notin> fst ` set xs \<Longrightarrow> map_of (xs @ [(k, v)]) k = Some v"
  by (simp add: map_add_Some_iff map_of_eq_None_iff)

lemma filter_fst_append_fresh:
  "k \<notin> fst ` set xs \<Longrightarrow> filter (\<lambda>p. fst p \<noteq> k) (xs @ [(k, v)]) = xs"
  by (auto simp: filter_id_conv)

lemma filter_fst_fresh:
  "k \<notin> fst ` set xs \<Longrightarrow> filter (\<lambda>p. fst p \<noteq> k) xs = xs"
  by (auto simp: filter_id_conv)

text \<open>Keeping only the entries with a value, as \<open>if (value) params.set(key, value)\<close> does.\<close>

lemma map_of_somes:
  "distinct (map fst xs) \<Longrightarrow> map_of [(k, v). (k, Some v) \<leftarrow> xs] k = Option.bind (map_of xs k) id"
proof (induction xs)
  case (Cons x xs)
  obtain a b where x: "x = (a, b)" by (cases x)
  have "a \<notin> fst ` set xs" and d: "distinct (map fst xs)" using Cons.prems x by auto
  then have n: "map_of xs a = None" by (simp add: map_of_eq_None_iff)
  show ?case using Cons.IH d x n by (cases b) auto
qed simp

lemma fresh_bound: "\<forall>p \<in> set xs. fst p < (n::nat) \<Longrightarrow> n \<notin> fst ` set xs"
  by auto

subsection \<open>Numbers printed as strings\<close>

text \<open>\<open>String(n)\<close> for an integral JavaScript number: its decimal digits.\<close>

fun nat_str :: "nat \<Rightarrow> string" where
  "nat_str n = (if n < 10 then [char_of (48 + n)] else nat_str (n div 10) @ [char_of (48 + n mod 10)])"

definition int_str :: "int \<Rightarrow> string" where
  "int_str i = (if i < 0 then CHR ''-'' # nat_str (nat (- i)) else nat_str (nat i))"

text \<open>The recursion of \<open>nat_str\<close> is unfolded one digit at a time, only where the
  number is known to be below or above 10, so that \<open>simp\<close> evaluates a numeral and leaves
  a variable alone.\<close>

declare nat_str.simps [simp del]

lemma nat_str_small [simp]: "n < 10 \<Longrightarrow> nat_str n = [char_of (48 + n)]"
  by (subst nat_str.simps) simp

lemma nat_str_snoc [simp]: "\<not> n < 10 \<Longrightarrow> nat_str n = nat_str (n div 10) @ [char_of (48 + n mod 10)]"
  by (subst nat_str.simps) simp

lemma nat_str_not_Nil [simp]: "nat_str n \<noteq> []"
  by (induction n rule: nat_str.induct) (subst nat_str.simps, simp)

lemma int_str_not_Nil [simp]: "int_str i \<noteq> []"
  by (simp add: int_str_def)

text \<open>
  The value of a string of decimal digits, most significant digit first, as a reader of
  the page takes it; printing a number and reading it back gives the number.
\<close>

definition digits_value :: "string \<Rightarrow> nat" where
  "digits_value ds = foldl (\<lambda>a c. 10 * a + (of_char c - 48)) 0 ds"

lemma digits_value_snoc [simp]: "digits_value (ds @ [c]) = 10 * digits_value ds + (of_char c - 48)"
  by (simp add: digits_value_def)

lemma digits_value_single [simp]: "digits_value [c] = of_char c - 48"
  by (simp add: digits_value_def)

lemma digit_char_value [simp]: "d < 10 \<Longrightarrow> of_char (char_of (48 + d) :: char) - 48 = (d::nat)"
  by simp

lemma digits_value_nat_str [simp]: "digits_value (nat_str n) = n"
  by (induction n rule: nat_str.induct) (subst nat_str.simps, simp)

lemma nat_str_digit_range: "c \<in> set (nat_str n) \<Longrightarrow> 48 \<le> (of_char c :: nat) \<and> (of_char c :: nat) \<le> 57"
proof (induction n rule: nat_str.induct)
  case (1 n)
  have d: "of_char (char_of (48 + m) :: char) = (48 + m :: nat)" if "m < 10" for m :: nat
    using that by simp
  show ?case
  proof (cases "n < 10")
    case True
    then show ?thesis using "1.prems" d [of n] by (subst (asm) nat_str.simps) simp
  next
    case False
    then have "c \<in> set (nat_str (n div 10)) \<or> c = char_of (48 + n mod 10)"
      using "1.prems" by (subst (asm) nat_str.simps) auto
    then show ?thesis
    proof
      assume "c \<in> set (nat_str (n div 10))"
      then show ?thesis using "1.IH" False by blast
    next
      assume "c = char_of (48 + n mod 10)"
      then show ?thesis using d [of "n mod 10"] by simp
    qed
  qed
qed

subsection \<open>\<open>String.prototype.split\<close> on one character\<close>

text \<open>
  \<open>s.split(c)\<close> for a one-character separator: the pieces between the separators,
  empty pieces included, and never the empty array (\<open>''.split('-')\<close> is \<open>['']\<close>).
  \<open>js_join\<close> is \<open>Array.prototype.join\<close> and template-literal concatenation with the
  separator.
\<close>

fun js_split :: "char \<Rightarrow> string \<Rightarrow> string list" where
  "js_split c [] = [[]]"
| "js_split c (x # xs) =
     (if x = c then [] # js_split c xs
      else (case js_split c xs of [] \<Rightarrow> [[x]] | w # ws \<Rightarrow> (x # w) # ws))"

fun js_join :: "char \<Rightarrow> string list \<Rightarrow> string" where
  "js_join c [] = []"
| "js_join c [w] = w"
| "js_join c (w # ws) = w @ c # js_join c ws"

lemma js_split_not_Nil [simp]: "js_split c s \<noteq> []"
  by (induction s) (auto split: list.split)

lemma js_split_no_sep: "c \<notin> set s \<Longrightarrow> js_split c s = [s]"
  by (induction s) auto

lemma js_split_append_sep:
  "c \<notin> set xs \<Longrightarrow> js_split c (xs @ c # ys) = xs # js_split c ys"
  by (induction xs) auto

lemma js_split_join:
  assumes "ws \<noteq> []" and "\<forall>w \<in> set ws. c \<notin> set w"
  shows "js_split c (js_join c ws) = ws"
  using assms
proof (induction ws)
  case Nil
  then show ?case by simp
next
  case (Cons w ws)
  show ?case
  proof (cases ws)
    case Nil
    with Cons.prems show ?thesis by (simp add: js_split_no_sep)
  next
    case (Cons v vs)
    with Cons.IH Cons.prems have "js_split c (js_join c ws) = ws" by simp
    moreover have "js_join c (w # ws) = w @ c # js_join c ws"
      using Cons by simp
    ultimately show ?thesis using Cons.prems by (simp add: js_split_append_sep)
  qed
qed

end
