(* ===== verification/Api.thy ===== *)
theory Api
  imports Prelude
begin

text \<open>
  The HTTP layer of the client, \<open>src/frontend/src/services/api.js\<close>: the endpoint table
  of every API object (\<open>authAPI\<close>, \<open>productsAPI\<close>, \<open>cartAPI\<close>, \<open>ordersAPI\<close>,
  \<open>reviewsAPI\<close>, \<open>wishlistAPI\<close>, \<open>analyticsAPI\<close>, \<open>paymentAPI\<close>) as a datatype of calls with
  their method and path, the request interceptor that writes the \<open>Authorization\<close> header
  from \<open>localStorage\<close>, and the response interceptor that reacts to a 401.
  The browser's \<open>localStorage\<close> entry \<open>token\<close> and \<open>window.location\<close> are a record
  \<open>browser\<close>.  Request bodies other than the cart's are opaque.
\<close>

datatype http_method = GET | POST | PUT | DELETE

text \<open>The calls of \<open>cartAPI\<close>, with the arguments the call sites pass.\<close>

datatype cart_call =
    GetCart
  | AddToCartCall product_id int
  | UpdateCartItemCall product_id int
  | RemoveFromCartCall product_id
  | ClearCartCall

text \<open>Every other endpoint; query parameters are an association list.\<close>

datatype api_call =
    AuthLogin string string
  | AuthRegister
  | GetProfile
  | GetProducts "(string \<times> string) list"
  | GetProduct string
  | CreateProduct
  | UpdateProduct string
  | DeleteProduct string
  | GetCategories
  | CartApi cart_call
  | GetOrders
  | GetOrder string
  | CreateOrder
  | UpdateOrderStatus string string
  | GetProductReviews string
  | CreateReview
  | UpdateReview string
  | DeleteReview string
  | GetWishlist
  | AddToWishlist string
  | RemoveFromWishlist string
  | IsInWishlist string
  | GetDashboardStats
  | GetSalesData "(string \<times> string) list"
  | GetTopProducts "(string \<times> string) list"
  | GetUserActivity "(string \<times> string) list"
  | CreatePaymentIntent money
  | ConfirmPayment string
  | GetPaymentHistory

text \<open>The JSON body of a cart call: \<open>{ product_id: productId, quantity }\<close> or none.\<close>

datatype cart_body = NoBody | ItemBody product_id int

fun cart_endpoint :: "cart_call \<Rightarrow> http_method \<times> string \<times> cart_body" where
  "cart_endpoint GetCart = (GET, ''/api/cart'', NoBody)"
| "cart_endpoint (AddToCartCall p q) = (POST, ''/api/cart/add'', ItemBody p q)"
| "cart_endpoint (UpdateCartItemCall p q) = (PUT, ''/api/cart/update'', ItemBody p q)"
| "cart_endpoint (RemoveFromCartCall p) = (DELETE, ''/api/cart/remove/'' @ p, NoBody)"
| "cart_endpoint ClearCartCall = (DELETE, ''/api/cart/clear'', NoBody)"

text \<open>Method and path of every endpoint (the base URL is a constant prefix, left out).\<close>

fun api_route :: "api_call \<Rightarrow> http_method \<times> string" where
  "api_route (AuthLogin e p) = (POST, ''/api/auth/login'')"
| "api_route AuthRegister = (POST, ''/api/auth/register'')"
| "api_route GetProfile = (GET, ''/api/user/profile'')"
| "api_route (GetProducts ps) = (GET, ''/api/products'')"
| "api_route (GetProduct i) = (GET, ''/api/products/'' @ i)"
| "api_route CreateProduct = (POST, ''/api/products'')"
| "api_route (UpdateProduct i) = (PUT, ''/api/products/'' @ i)"
| "api_route (DeleteProduct i) = (DELETE, ''/api/products/'' @ i)"
| "api_route GetCategories = (GET, ''/api/categories'')"
| "api_route (CartApi c) = (case cart_endpoint c of (m, u, b) \<Rightarrow> (m, u))"
| "api_route GetOrders = (GET, ''/api/orders'')"
| "api_route (GetOrder i) = (GET, ''/api/orders/'' @ i)"
| "api_route CreateOrder = (POST, ''/api/orders'')"
| "api_route (UpdateOrderStatus i st) = (PUT, ''/api/orders/'' @ i @ ''/status'')"
| "api_route (GetProductReviews i) = (GET, ''/api/products/'' @ i @ ''/reviews'')"
| "api_route CreateReview = (POST, ''/api/reviews'')"
| "api_route (UpdateReview i) = (PUT, ''/api/reviews/'' @ i)"
| "api_route (DeleteReview i) = (DELETE, ''/api/reviews/'' @ i)"
| "api_route GetWishlist = (GET, ''/api/wishlist'')"
| "api_route (AddToWishlist i) = (POST, ''/api/wishlist/add'')"
| "api_route (RemoveFromWishlist i) = (DELETE, ''/api/wishlist/remove/'' @ i)"
| "api_route (IsInWishlist i) = (GET, ''/api/wishlist/check/'' @ i)"
| "api_route GetDashboardStats = (GET, ''/api/analytics/dashboard'')"
| "api_route (GetSalesData ps) = (GET, ''/api/analytics/sales'')"
| "api_route (GetTopProducts ps) = (GET, ''/api/analytics/top-products'')"
| "api_route (GetUserActivity ps) = (GET, ''/api/analytics/user-activity'')"
| "api_route (CreatePaymentIntent a) = (POST, ''/api/payment/create-intent'')"
| "api_route (ConfirmPayment i) = (POST, ''/api/payment/confirm'')"
| "api_route GetPaymentHistory = (GET, ''/api/payment/history'')"

text \<open>
  Whether the call site passes \<open>headers: { Authorization: `Bearer ${token}` }\<close>
  itself.  Login, register, the product catalogue and the reviews of a product do not.
\<close>

fun takes_token :: "api_call \<Rightarrow> bool" where
  "takes_token (AuthLogin e p) = False"
| "takes_token AuthRegister = False"
| "takes_token (GetProducts ps) = False"
| "takes_token (GetProduct i) = False"
| "takes_token GetCategories = False"
| "takes_token (GetProductReviews i) = False"
| "takes_token c = True"

text \<open>
  The template literal \<open>`Bearer ${token}`\<close>: a missing token is printed as \<open>null\<close>.
\<close>

definition bearer :: "token option \<Rightarrow> string" where
  "bearer t = ''Bearer '' @ (case t of Some s \<Rightarrow> s | None \<Rightarrow> ''null'')"

record http_request =
  req_method :: http_method
  req_path :: string
  authorization :: "string option"

record browser =
  stored_token :: "token option"
  location :: string

text \<open>
  The request interceptor (lines 12--24): when \<open>localStorage.getItem('token')\<close> is
  truthy it overwrites the \<open>Authorization\<close> header, whatever the call site passed.
\<close>

definition request_interceptor :: "browser \<Rightarrow> http_request \<Rightarrow> http_request" where
  "request_interceptor b r =
     (if truthy_str (stored_token b)
      then r\<lparr>authorization := Some (bearer (stored_token b))\<rparr> else r)"

text \<open>The request as it leaves the client: the call site's config, then the interceptor.\<close>

definition api_request :: "browser \<Rightarrow> token option \<Rightarrow> api_call \<Rightarrow> http_request" where
  "api_request b t c =
     request_interceptor b
       \<lparr>req_method = fst (api_route c), req_path = snd (api_route c),
        authorization = (if takes_token c then Some (bearer t) else None)\<rparr>"

record http_error =
  status :: "nat option"
  detail :: "string option"

text \<open>
  The response interceptor (lines 26--36): on status 401 it removes the stored token and
  navigates to \<open>/login\<close>; every error is then rejected to the caller unchanged.
\<close>

definition response_interceptor :: "browser \<Rightarrow> http_error \<Rightarrow> browser" where
  "response_interceptor b e =
     (if status e = Some 401 then b\<lparr>stored_token := None, location := ''/login''\<rparr> else b)"

text \<open>A product id that fills one path segment of a URL template such as
  \<open>/api/cart/remove/${productId}\<close> or \<open>/products/${id}\<close>.\<close>

definition path_segment_ok :: "string \<Rightarrow> bool" where
  "path_segment_ok p \<longleftrightarrow> p \<noteq> [] \<and> CHR ''/'' \<notin> set p"

subsection \<open>Properties of the HTTP layer\<close>

lemma api_request_route [simp]:
  "req_method (api_request b t c) = fst (api_route c)"
  "req_path (api_request b t c) = snd (api_route c)"
  by (simp_all add: api_request_def request_interceptor_def)

lemma api_request_authorization:
  "authorization (api_request b t c) =
     (if truthy_str (stored_token b) then Some (bearer (stored_token b))
      else if takes_token c then Some (bearer t) else None)"
  by (simp add: api_request_def request_interceptor_def)

text \<open>
  [C34] When \<open>localStorage\<close> holds a token, every request carries that token, whatever
  token the call site passed: the explicit \<open>token\<close> argument of every API function is
  overridden by the ambient stored one.
\<close>

theorem stored_token_overrides_explicit:
  assumes "truthy_str (stored_token b)"
  shows "authorization (api_request b t c) = Some (bearer (stored_token b))"
  using assms by (simp add: api_request_authorization)

theorem stored_token_overrides_explicit_witness:
  "truthy_str (stored_token \<lparr>stored_token = Some ''abc'', location = ''/''\<rparr>) \<and>
   authorization (api_request \<lparr>stored_token = Some ''abc'', location = ''/''\<rparr> (Some ''old'') (CartApi GetCart))
     = Some ''Bearer abc''"
  using stored_token_overrides_explicit [of "\<lparr>stored_token = Some ''abc'', location = ''/''\<rparr>"
      "Some ''old''" "CartApi GetCart"]
  by (simp add: bearer_def)

text \<open>
  Every cart request carries an \<open>Authorization\<close> header; with neither a stored nor a
  passed token the header is the literal \<open>Bearer null\<close>.
\<close>

lemma cart_request_header_null:
  "authorization (api_request \<lparr>stored_token = None, location = l\<rparr> None (CartApi c)) = Some ''Bearer null''"
  by (simp add: api_request_authorization bearer_def)

end
