(* ===== verification/CartSync.thy ===== *)
theory CartSync
  imports Api
begin

text \<open>
  The cart synchronizer, \<open>src/frontend/src/contexts/CartContext.js\<close> (\<open>CartProvider\<close>).
  Its React state (\<open>cart\<close>, \<open>loading\<close>, \<open>cartCount\<close>), the values it reads from
  \<open>useAuth()\<close> (\<open>token\<close>, \<open>isAuthenticated\<close>), the requests it has in flight and what
  it has shown or returned form the record \<open>cart_state\<close>.
  Every \<open>async\<close> handler runs synchronously up to its first \<open>await\<close>; what follows the
  \<open>await\<close> runs when the response arrives.  A request in flight is a \<open>task\<close> that records
  where execution resumes: \<open>FetchTask t owner\<close> is \<open>fetchCart\<close> waiting for
  \<open>cartAPI.getCart\<close> (with \<open>owner\<close> the mutation that awaits it, if any) and
  \<open>MutateTask t op\<close> is a mutation waiting for its own API call.  The environment chooses
  the order in which responses arrive, so the component is a step function
  \<open>cart_step\<close> over events: a re-render with new auth values, a call of one of the exposed
  functions, or the arrival of the response to one in-flight request.
\<close>

subsection \<open>Server payloads\<close>

record product_summary =
  product_name :: string
  price :: money
  image_base64 :: "string option"

record cart_line =
  product_id :: product_id
  quantity :: int
  product :: product_summary
  line_total :: money

text \<open>
  \<open>response.data\<close> of \<open>GET /api/cart\<close>.  Both fields may be missing from a payload;
  \<open>None\<close> is \<open>undefined\<close>.
\<close>

record cart =
  items :: "cart_line list option"
  total_amount :: "money option"

definition empty_cart :: cart where
  "empty_cart = \<lparr>items = Some [], total_amount = Some 0\<rparr>"

text \<open>\<open>cart.items || []\<close>, the lines every page displays.\<close>

definition cart_items :: "cart \<Rightarrow> cart_line list" where
  "cart_items c = (case items c of Some xs \<Rightarrow> xs | None \<Rightarrow> [])"

text \<open>\<open>items.reduce((total, item) => total + item.quantity, 0)\<close>\<close>

definition cart_count :: "cart_line list \<Rightarrow> int" where
  "cart_count xs = foldl (\<lambda>total item. total + quantity item) 0 xs"

subsection \<open>Operations, messages and in-flight requests\<close>

datatype cart_op =
    AddToCart product_id int
  | UpdateCartItem product_id int
  | RemoveFromCart product_id
  | ClearCart

fun op_call :: "cart_op \<Rightarrow> cart_call" where
  "op_call (AddToCart p q) = AddToCartCall p q"
| "op_call (UpdateCartItem p q) = UpdateCartItemCall p q"
| "op_call (RemoveFromCart p) = RemoveFromCartCall p"
| "op_call ClearCart = ClearCartCall"

fun login_message :: "cart_op \<Rightarrow> string" where
  "login_message (AddToCart p q) = ''Please login to add items to cart''"
| "login_message (UpdateCartItem p q) = ''Please login to update cart''"
| "login_message (RemoveFromCart p) = ''Please login to remove items from cart''"
| "login_message ClearCart = ''Please login to clear cart''"

fun success_message :: "cart_op \<Rightarrow> string" where
  "success_message (AddToCart p q) = ''Item added to cart''"
| "success_message (UpdateCartItem p q) = ''Cart updated''"
| "success_message (RemoveFromCart p) = ''Item removed from cart''"
| "success_message ClearCart = ''Cart cleared''"

fun failure_message :: "cart_op \<Rightarrow> string" where
  "failure_message (AddToCart p q) = ''Failed to add item to cart''"
| "failure_message (UpdateCartItem p q) = ''Failed to update cart''"
| "failure_message (RemoveFromCart p) = ''Failed to remove item from cart''"
| "failure_message ClearCart = ''Failed to clear cart''"

datatype toast = ToastSuccess string | ToastError string

datatype task =
    FetchTask "token option" "cart_op option"
  | MutateTask "token option" cart_op

text \<open>The outcome of a request: the response body, or the rejected axios error.\<close>

datatype api_result = Success cart | Failure http_error

record cart_state =
  cs_token :: "token option"
  cs_authenticated :: bool
  cart :: cart
  loading :: bool
  cartCount :: int
  pending :: "(nat \<times> task) list"
  next_req :: nat
  sent :: "(nat \<times> token option \<times> cart_call) list"
  results :: "(cart_op \<times> bool) list"
  toasts :: "toast list"

text \<open>\<open>useState\<close> initial values of the provider, with the auth values of its first render.\<close>

definition cart_init :: "token option \<Rightarrow> bool \<Rightarrow> cart_state" where
  "cart_init t a =
     \<lparr>cs_token = t, cs_authenticated = a, cart = empty_cart, loading = False, cartCount = 0,
      pending = [], next_req = 0, sent = [], results = [], toasts = []\<rparr>"

text \<open>Sending a request: it is logged with the token passed to \<open>cartAPI\<close> and becomes pending.\<close>

definition issue :: "token option \<Rightarrow> task \<Rightarrow> cart_call \<Rightarrow> cart_state \<Rightarrow> cart_state" where
  "issue t k c s =
     s\<lparr>pending := pending s @ [(next_req s, k)],
       sent := sent s @ [(next_req s, t, c)],
       next_req := Suc (next_req s)\<rparr>"

text \<open>\<open>fetchCart\<close> up to its \<open>await\<close>: \<open>setLoading(true)\<close>, then \<open>cartAPI.getCart(token)\<close>.\<close>

definition fetch_cart :: "token option \<Rightarrow> cart_op option \<Rightarrow> cart_state \<Rightarrow> cart_state" where
  "fetch_cart t owner s = issue t (FetchTask t owner) GetCart (s\<lparr>loading := True\<rparr>)"

text \<open>
  \<open>addToCart\<close>, \<open>updateCartItem\<close>, \<open>removeFromCart\<close> and \<open>clearCart\<close> up to their first
  \<open>await\<close>: the guard \<open>if (!isAuthenticated)\<close> returns \<open>false\<close> after a toast, with no
  request; otherwise \<open>setLoading(true)\<close> and the API call.
\<close>

definition cart_mutation :: "cart_op \<Rightarrow> cart_state \<Rightarrow> cart_state" where
  "cart_mutation op s =
     (if \<not> cs_authenticated s
      then s\<lparr>toasts := toasts s @ [ToastError (login_message op)], results := results s @ [(op, False)]\<rparr>
      else issue (cs_token s) (MutateTask (cs_token s) op) (op_call op) (s\<lparr>loading := True\<rparr>))"

text \<open>
  The \<open>finally\<close> of \<open>fetchCart\<close> and, when a mutation awaits it, the rest of that
  mutation: \<open>toast.success\<close>, \<open>return true\<close> and its own \<open>finally\<close>.  \<open>fetchCart\<close>
  catches its own errors, so the awaiting mutation continues in every case.
\<close>

definition fetch_settled :: "cart_op option \<Rightarrow> cart_state \<Rightarrow> cart_state" where
  "fetch_settled owner s =
     (case owner of
        None \<Rightarrow> s\<lparr>loading := False\<rparr>
      | Some op \<Rightarrow> s\<lparr>loading := False, toasts := toasts s @ [ToastSuccess (success_message op)],
                     results := results s @ [(op, True)]\<rparr>)"

text \<open>
  What runs when a response arrives.  For \<open>getCart\<close>, \<open>setCart(response.data)\<close> comes
  first; then \<open>response.data.items.reduce\<close> throws a \<open>TypeError\<close> when \<open>items\<close> is
  missing, which the \<open>catch\<close> turns into the toast \<open>Failed to load cart\<close> with
  \<open>cartCount\<close> left as it was.
\<close>

fun resume :: "task \<Rightarrow> api_result \<Rightarrow> cart_state \<Rightarrow> cart_state" where
  "resume (FetchTask t owner) (Success d) s =
     (case items d of
        Some xs \<Rightarrow> fetch_settled owner (s\<lparr>cart := d, cartCount := cart_count xs\<rparr>)
      | None \<Rightarrow> fetch_settled owner (s\<lparr>cart := d, toasts := toasts s @ [ToastError ''Failed to load cart'']\<rparr>))"
| "resume (FetchTask t owner) (Failure e) s =
     fetch_settled owner (s\<lparr>toasts := toasts s @ [ToastError ''Failed to load cart'']\<rparr>)"
| "resume (MutateTask t op) (Success d) s = fetch_cart t (Some op) s"
| "resume (MutateTask t op) (Failure e) s =
     s\<lparr>toasts := toasts s @ [ToastError (js_or_str (detail e) (failure_message op))],
       results := results s @ [(op, False)], loading := False\<rparr>"

text \<open>The response to request \<open>i\<close> arrives; a request that is not in flight is ignored.\<close>

definition deliver :: "nat \<Rightarrow> api_result \<Rightarrow> cart_state \<Rightarrow> cart_state" where
  "deliver i r s =
     (case map_of (pending s) i of
        None \<Rightarrow> s
      | Some k \<Rightarrow> resume k r (s\<lparr>pending := filter (\<lambda>p. fst p \<noteq> i) (pending s)\<rparr>))"

text \<open>The body of \<open>useEffect(..., [isAuthenticated, token])\<close>.\<close>

definition auth_effect :: "cart_state \<Rightarrow> cart_state" where
  "auth_effect s =
     (if cs_authenticated s \<and> truthy_str (cs_token s) then fetch_cart (cs_token s) None s
      else s\<lparr>cart := empty_cart, cartCount := 0\<rparr>)"

text \<open>A re-render with new \<open>useAuth()\<close> values; the effect runs only when a dependency changed.\<close>

definition auth_change :: "token option \<Rightarrow> bool \<Rightarrow> cart_state \<Rightarrow> cart_state" where
  "auth_change t a s =
     (let s' = s\<lparr>cs_token := t, cs_authenticated := a\<rparr>
      in if t = cs_token s \<and> a = cs_authenticated s then s' else auth_effect s')"

text \<open>Mounting the provider runs the effect once with the first auth values.\<close>

definition cart_mount :: "token option \<Rightarrow> bool \<Rightarrow> cart_state" where
  "cart_mount t a = auth_effect (cart_init t a)"

subsection \<open>Events and runs\<close>

datatype cart_event =
    AuthChange "token option" bool
  | Invoke cart_op
  | Refresh
  | Deliver nat api_result

text \<open>\<open>refreshCart\<close> is \<open>fetchCart\<close> itself: it has no authentication guard.\<close>

fun cart_step :: "cart_state \<Rightarrow> cart_event \<Rightarrow> cart_state" where
  "cart_step s (AuthChange t a) = auth_change t a s"
| "cart_step s (Invoke op) = cart_mutation op s"
| "cart_step s Refresh = fetch_cart (cs_token s) None s"
| "cart_step s (Deliver i r) = deliver i r s"

definition cart_run :: "cart_state \<Rightarrow> cart_event list \<Rightarrow> cart_state" where
  "cart_run s es = foldl cart_step s es"

text \<open>\<open>useCart\<close> (lines 8--14): outside a \<open>CartProvider\<close> the context is \<open>undefined\<close>
  and the hook throws.\<close>

definition use_cart :: "cart_state option \<Rightarrow> string + cart_state" where
  "use_cart ctx = (case ctx of None \<Rightarrow> Inl ''useCart must be used within a CartProvider'' | Some s \<Rightarrow> Inr s)"

inductive cart_reachable :: "cart_state \<Rightarrow> bool" where
  mount: "cart_reachable (cart_mount t a)"
| step: "cart_reachable s \<Longrightarrow> cart_reachable (cart_step s e)"

text \<open>
  The server's side of the contract of spec section 6: every successful \<open>GET /api/cart\<close>
  body carries an \<open>items\<close> array.
\<close>

fun server_wf :: "cart_event \<Rightarrow> bool" where
  "server_wf (Deliver i (Success d)) = (items d \<noteq> None)"
| "server_wf e = True"

subsection \<open>Draining the requests in flight\<close>

text \<open>
  The environment answers the oldest request in flight, with whatever response \<open>srv\<close>
  gives for it, for \<open>n\<close> rounds.  A task weighs what it can still cost: a mutation's answer
  may issue one \<open>getCart\<close>, a fetch issues nothing.  \<open>awaited\<close> is the mutation a task will
  resolve, and \<open>pending_ops\<close> the multiset of mutations the provider still owes an answer.
\<close>

fun drain :: "(nat \<Rightarrow> task \<Rightarrow> api_result) \<Rightarrow> nat \<Rightarrow> cart_state \<Rightarrow> cart_state" where
  "drain srv 0 s = s"
| "drain srv (Suc n) s =
     (case pending s of
        [] \<Rightarrow> s
      | (i, k) # _ \<Rightarrow> drain srv n (cart_step s (Deliver i (srv i k))))"

fun task_weight :: "task \<Rightarrow> nat" where
  "task_weight (FetchTask t owner) = 1"
| "task_weight (MutateTask t op) = 2"

definition in_flight_weight :: "cart_state \<Rightarrow> nat" where
  "in_flight_weight s = sum_list (map (task_weight \<circ> snd) (pending s))"

fun awaited :: "task \<Rightarrow> cart_op list" where
  "awaited (FetchTask t owner) = (case owner of None \<Rightarrow> [] | Some op \<Rightarrow> [op])"
| "awaited (MutateTask t op) = [op]"

definition pending_ops :: "cart_state \<Rightarrow> cart_op multiset" where
  "pending_ops s = mset (concat (map (awaited \<circ> snd) (pending s)))"

subsection \<open>Sample payloads\<close>

abbreviation mug :: product_summary where
  "mug \<equiv> \<lparr>product_name = ''Mug'', price = 10, image_base64 = None\<rparr>"

abbreviation cart_p1 :: cart where
  "cart_p1 \<equiv> \<lparr>items = Some [\<lparr>product_id = ''p1'', quantity = 2, product = mug, line_total = 20\<rparr>],
               total_amount = Some 20\<rparr>"

subsection \<open>Invariants of the provider state\<close>

text \<open>The badge agrees with the lines on display.\<close>

definition count_inv :: "cart_state \<Rightarrow> bool" where
  "count_inv s \<longleftrightarrow> cartCount s = cart_count (cart_items (cart s))"

text \<open>Every request in flight has a number below the next one to be issued.\<close>

definition fresh_inv :: "cart_state \<Rightarrow> bool" where
  "fresh_inv s \<longleftrightarrow> (\<forall>p \<in> set (pending s). fst p < next_req s)"

text \<open>With nothing in flight, no spinner is shown.\<close>

definition loading_inv :: "cart_state \<Rightarrow> bool" where
  "loading_inv s \<longleftrightarrow> (pending s = [] \<longrightarrow> \<not> loading s)"

subsection \<open>Frame lemmas\<close>

text \<open>What each building block writes; every other field is left as it was.\<close>

lemma issue_fields [simp]:
  "cart (issue t k c s) = cart s"
  "cartCount (issue t k c s) = cartCount s"
  "loading (issue t k c s) = loading s"
  "results (issue t k c s) = results s"
  "toasts (issue t k c s) = toasts s"
  "cs_token (issue t k c s) = cs_token s"
  "cs_authenticated (issue t k c s) = cs_authenticated s"
  "pending (issue t k c s) = pending s @ [(next_req s, k)]"
  "sent (issue t k c s) = sent s @ [(next_req s, t, c)]"
  "next_req (issue t k c s) = Suc (next_req s)"
  by (simp_all add: issue_def)

lemma fetch_cart_fields [simp]:
  "cart (fetch_cart t o' s) = cart s"
  "cartCount (fetch_cart t o' s) = cartCount s"
  "loading (fetch_cart t o' s) = True"
  "results (fetch_cart t o' s) = results s"
  "toasts (fetch_cart t o' s) = toasts s"
  "cs_token (fetch_cart t o' s) = cs_token s"
  "cs_authenticated (fetch_cart t o' s) = cs_authenticated s"
  "pending (fetch_cart t o' s) = pending s @ [(next_req s, FetchTask t o')]"
  "sent (fetch_cart t o' s) = sent s @ [(next_req s, t, GetCart)]"
  "next_req (fetch_cart t o' s) = Suc (next_req s)"
  by (simp_all add: fetch_cart_def)

lemma fetch_settled_fields [simp]:
  "cart (fetch_settled o' s) = cart s"
  "cartCount (fetch_settled o' s) = cartCount s"
  "loading (fetch_settled o' s) = False"
  "cs_token (fetch_settled o' s) = cs_token s"
  "cs_authenticated (fetch_settled o' s) = cs_authenticated s"
  "pending (fetch_settled o' s) = pending s"
  "sent (fetch_settled o' s) = sent s"
  "next_req (fetch_settled o' s) = next_req s"
  "results (fetch_settled o' s) = results s @ (case o' of None \<Rightarrow> [] | Some op \<Rightarrow> [(op, True)])"
  by (simp_all add: fetch_settled_def split: option.split)

lemma cart_run_simps [simp]:
  "cart_run s [] = s"
  "cart_run s (e # es) = cart_run (cart_step s e) es"
  by (simp_all add: cart_run_def)

lemma cart_run_append: "cart_run s (es @ fs) = cart_run (cart_run s es) fs"
  by (simp add: cart_run_def)

lemmas cart_step_defs = cart_mutation_def deliver_def auth_change_def auth_effect_def

subsection \<open>The badge count\<close>

lemma count_inv_empty_cart [simp]: "cart_count (cart_items empty_cart) = 0"
  by (simp add: empty_cart_def cart_items_def cart_count_def)

lemma count_inv_resume:
  assumes "count_inv s" and "\<forall>d. r = Success d \<longrightarrow> items d \<noteq> None"
  shows "count_inv (resume k r s)"
proof (cases k)
  case (FetchTask t o')
  then show ?thesis
    using assms by (cases r) (auto simp: count_inv_def cart_items_def)
next
  case (MutateTask t op)
  then show ?thesis
    using assms by (cases r) (simp_all add: count_inv_def)
qed

lemma count_inv_step:
  assumes "count_inv s" and "server_wf e"
  shows "count_inv (cart_step s e)"
proof (cases e)
  case (AuthChange t a)
  then show ?thesis
    using assms(1) by (simp add: auth_change_def auth_effect_def Let_def count_inv_def)
next
  case (Invoke op)
  then show ?thesis
    using assms(1) by (simp add: cart_mutation_def count_inv_def)
next
  case Refresh
  then show ?thesis
    using assms(1) by (simp add: count_inv_def)
next
  case (Deliver i r)
  have "\<forall>d. r = Success d \<longrightarrow> items d \<noteq> None"
    using assms(2) Deliver by auto
  moreover have "count_inv (s\<lparr>pending := ps\<rparr>)" for ps
    using assms(1) by (simp add: count_inv_def)
  ultimately show ?thesis
    using assms(1) Deliver
    by (auto simp: deliver_def count_inv_resume split: option.split)
qed

lemma count_inv_run:
  "count_inv s \<Longrightarrow> list_all server_wf es \<Longrightarrow> count_inv (cart_run s es)"
  by (induction es arbitrary: s) (simp_all add: count_inv_step)

lemma count_inv_mount: "count_inv (cart_mount t a)"
  by (simp add: cart_mount_def auth_effect_def cart_init_def count_inv_def)

subsection \<open>Requests in flight and the spinner\<close>

lemma resume_fresh:
  "\<forall>p \<in> set (pending s). fst p < next_req s \<Longrightarrow> fresh_inv (resume k r s)"
  by (cases k; cases r) (auto simp: fresh_inv_def fetch_cart_def split: option.split)

lemma fresh_inv_step: "fresh_inv s \<Longrightarrow> fresh_inv (cart_step s e)"
proof (cases e)
  case (Deliver i r)
  assume inv: "fresh_inv s"
  have "\<forall>p \<in> set (filter (\<lambda>p. fst p \<noteq> i) (pending s)). fst p < next_req s"
    using inv by (auto simp: fresh_inv_def)
  then have "fresh_inv (resume k r (s\<lparr>pending := filter (\<lambda>p. fst p \<noteq> i) (pending s)\<rparr>))" for k
    by (intro resume_fresh) simp
  then show ?thesis
    using inv Deliver by (simp add: deliver_def split: option.split)
qed (auto simp: fresh_inv_def cart_step_defs Let_def less_SucI)

lemma resume_loading:
  "pending (resume k r s) = [] \<Longrightarrow> \<not> loading (resume k r s)"
  by (cases k; cases r) (auto split: option.split)

lemma loading_inv_step: "loading_inv s \<Longrightarrow> loading_inv (cart_step s e)"
proof (cases e)
  case (Deliver i r)
  assume "loading_inv s"
  then show ?thesis
    using Deliver by (auto simp: deliver_def loading_inv_def resume_loading split: option.split)
qed (auto simp: loading_inv_def cart_step_defs Let_def)

lemma cart_reachable_invs: "cart_reachable s \<Longrightarrow> fresh_inv s \<and> loading_inv s"
proof (induction rule: cart_reachable.induct)
  case (mount t a)
  then show ?case
    by (simp add: cart_mount_def auth_effect_def cart_init_def fresh_inv_def loading_inv_def)
next
  case (step s e)
  then show ?case by (simp add: fresh_inv_step loading_inv_step)
qed

lemma cart_reachable_fresh: "cart_reachable s \<Longrightarrow> n \<in> fst ` set (pending s) \<Longrightarrow> n < next_req s"
  using cart_reachable_invs by (auto simp: fresh_inv_def)

text \<open>Request numbers in flight are pairwise distinct.\<close>

lemma resume_ids:
  "distinct (map fst (pending s)) \<Longrightarrow> \<forall>p \<in> set (pending s). fst p < next_req s \<Longrightarrow>
   distinct (map fst (pending (resume k r s)))"
  by (cases k; cases r) (auto split: option.split)

lemma ids_step:
  assumes "fresh_inv s" and "distinct (map fst (pending s))"
  shows "distinct (map fst (pending (cart_step s e)))"
proof (cases e)
  case (Deliver i r)
  have "distinct (map fst (filter (\<lambda>p. fst p \<noteq> i) (pending s)))"
    using assms(2) by (simp add: distinct_map_filter)
  moreover have "\<forall>p \<in> set (filter (\<lambda>p. fst p \<noteq> i) (pending s)). fst p < next_req s"
    using assms(1) by (auto simp: fresh_inv_def)
  ultimately have "distinct (map fst (pending (resume k r (s\<lparr>pending := filter (\<lambda>p. fst p \<noteq> i) (pending s)\<rparr>))))" for k
    by (intro resume_ids) simp_all
  then show ?thesis
    using assms(2) Deliver by (simp add: deliver_def split: option.split)
qed (use assms in \<open>auto simp: fresh_inv_def cart_step_defs Let_def\<close>)

lemma cart_reachable_ids: "cart_reachable s \<Longrightarrow> distinct (map fst (pending s))"
proof (induction rule: cart_reachable.induct)
  case (mount t a)
  then show ?case by (simp add: cart_mount_def auth_effect_def cart_init_def)
next
  case (step s e)
  then show ?case using cart_reachable_invs ids_step by blast
qed

text \<open>Every continuation sends at most one request, a \<open>getCart\<close>.\<close>

lemma resume_sends_getcart:
  "\<exists>xs. sent (resume k r s) = sent s @ xs \<and> (\<forall>x \<in> set xs. snd (snd x) = GetCart)"
  by (cases k; cases r) (auto split: option.split)

text \<open>With distinct numbers, answering the oldest request resumes exactly its task.\<close>

lemma deliver_head:
  assumes "pending s = (i, k) # rest" and "distinct (map fst (pending s))"
  shows "cart_step s (Deliver i r) = resume k r (s\<lparr>pending := rest\<rparr>)"
proof -
  have "i \<notin> fst ` set rest" using assms by auto
  then show ?thesis using assms(1) by (simp add: deliver_def filter_fst_fresh)
qed

lemma task_weight_nonzero [simp]: "task_weight k \<noteq> 0"
  by (cases k) simp_all

lemma in_flight_weight_zero: "in_flight_weight s = 0 \<longleftrightarrow> pending s = []"
  by (cases "pending s") (auto simp: in_flight_weight_def)

lemma resume_weight:
  "in_flight_weight (resume k r s) < in_flight_weight s + task_weight k"
  by (cases k; cases r) (auto simp: in_flight_weight_def split: option.split)

lemma resume_resolves:
  "\<exists>rs. results (resume k r s) = results s @ rs \<and>
        mset (map fst rs) + pending_ops (resume k r s) = pending_ops s + mset (awaited k)"
  by (cases k; cases r) (auto simp: pending_ops_def split: option.split)

lemma drain_settles:
  assumes "cart_reachable s" and "in_flight_weight s \<le> n"
  shows "cart_reachable (drain srv n s) \<and> pending (drain srv n s) = [] \<and>
         (\<exists>rs. results (drain srv n s) = results s @ rs \<and> mset (map fst rs) = pending_ops s)"
  using assms
proof (induction n arbitrary: s)
  case 0
  then show ?case by (simp add: in_flight_weight_zero pending_ops_def)
next
  case (Suc n)
  show ?case
  proof (cases "pending s")
    case Nil
    then show ?thesis using Suc.prems by (simp add: pending_ops_def)
  next
    case (Cons p rest)
    obtain i k where p: "p = (i, k)" by (cases p)
    define s' where "s' = cart_step s (Deliver i (srv i k))"
    have s': "s' = resume k (srv i k) (s\<lparr>pending := rest\<rparr>)"
      unfolding s'_def
      by (rule deliver_head) (use Cons p cart_reachable_ids [OF Suc.prems(1)] in simp_all)
    have "in_flight_weight s' \<le> n"
      using resume_weight [of k "srv i k" "s\<lparr>pending := rest\<rparr>"] Suc.prems(2) Cons p
      by (simp add: s' in_flight_weight_def)
    moreover have "cart_reachable s'"
      unfolding s'_def using Suc.prems(1) by (rule cart_reachable.step)
    ultimately obtain rs where
      "pending (drain srv n s') = []" "cart_reachable (drain srv n s')"
      "results (drain srv n s') = results s' @ rs" "mset (map fst rs) = pending_ops s'"
      using Suc.IH by blast
    moreover obtain rs0 where
      "results s' = results s @ rs0"
      "mset (map fst rs0) + pending_ops s' = pending_ops (s\<lparr>pending := rest\<rparr>) + mset (awaited k)"
      using resume_resolves [of k "srv i k" "s\<lparr>pending := rest\<rparr>"] by (auto simp: s')
    moreover have "pending_ops s = mset (awaited k) + pending_ops (s\<lparr>pending := rest\<rparr>)"
      using Cons p by (simp add: pending_ops_def)
    moreover have "drain srv (Suc n) s = drain srv n s'"
      using Cons p by (simp add: s'_def)
    ultimately show ?thesis
      by (intro conjI exI [of _ "rs0 @ rs"]) (simp_all add: add.commute)
  qed
qed

subsection \<open>Behaviour of the synchronizer\<close>

text \<open>
  [C1] The badge count is the sum of the quantities of the lines on display, after every
  run of events from mounting, as long as every cart payload the server returns has an
  \<open>items\<close> array.
\<close>

theorem cart_count_invariant:
  assumes "list_all server_wf es"
  shows "cartCount (cart_run (cart_mount t a) es) =
           sum_list (map quantity (cart_items (cart (cart_run (cart_mount t a) es))))"
proof -
  have "count_inv (cart_run (cart_mount t a) es)"
    using count_inv_run [OF count_inv_mount assms] .
  then show ?thesis by (simp add: count_inv_def cart_count_def foldl_add_sum_list)
qed

theorem cart_count_invariant_witness:
  "list_all server_wf [Deliver 0 (Success cart_p1)] \<and>
   cartCount (cart_run (cart_mount (Some ''tok'') True) [Deliver 0 (Success cart_p1)]) = 2"
proof -
  have "cart (cart_run (cart_mount (Some ''tok'') True) [Deliver 0 (Success cart_p1)]) = cart_p1"
    by (simp add: cart_mount_def auth_effect_def cart_init_def deliver_def)
  then show ?thesis
    using cart_count_invariant [of "[Deliver 0 (Success cart_p1)]" "Some ''tok''" True]
    by (simp add: cart_items_def)
qed

text \<open>
  The \<open>reduce\<close> that computes the badge is the sum of the quantities.
\<close>

lemma cart_count_eq_sum: "cart_count xs = sum_list (map quantity xs)"
  by (simp add: cart_count_def foldl_add_sum_list)

text \<open>
  [C22] The badge invariant needs payloads with \<open>items\<close>: whatever the state, when a
  \<open>getCart\<close> answer lacks \<open>items\<close>, \<open>setCart\<close> has installed it before the \<open>reduce\<close>
  throws, so the page shows no lines while the badge keeps its old count, and only the
  toast \<open>Failed to load cart\<close> reports it.
\<close>

theorem missing_items_breaks_badge:
  assumes "map_of (pending s) i = Some (FetchTask t owner)" and "items d = None"
    and "cartCount s \<noteq> 0"
  shows "let s' = cart_step s (Deliver i (Success d))
         in cart_items (cart s') = [] \<and> cartCount s' = cartCount s \<and>
            cartCount s' \<noteq> cart_count (cart_items (cart s')) \<and>
            ToastError ''Failed to load cart'' \<in> set (toasts s')"
  using assms
  by (simp add: deliver_def fetch_settled_def cart_items_def cart_count_def Let_def split: option.split)

theorem missing_items_breaks_badge_witness:
  "let s' = cart_run (cart_mount (Some ''tok'') True)
             [Deliver 0 (Success cart_p1), Refresh, Deliver 1 (Success \<lparr>items = None, total_amount = None\<rparr>)]
   in cart_items (cart s') = [] \<and> cartCount s' = 2"
proof -
  let ?s = "cart_run (cart_mount (Some ''tok'') True) [Deliver 0 (Success cart_p1), Refresh]"
  have p: "map_of (pending ?s) 1 = Some (FetchTask (Some ''tok'') None)" and c: "cartCount ?s = 2"
    by (simp_all add: cart_run_def cart_mount_def auth_effect_def cart_init_def fetch_cart_def issue_def
                      deliver_def fetch_settled_def cart_count_def)
  have "cart_run (cart_mount (Some ''tok'') True)
          [Deliver 0 (Success cart_p1), Refresh, Deliver 1 (Success \<lparr>items = None, total_amount = None\<rparr>)]
        = cart_step ?s (Deliver 1 (Success \<lparr>items = None, total_amount = None\<rparr>))"
    by (simp add: cart_run_def)
  then show ?thesis
    using missing_items_breaks_badge [OF p _ ] c by (simp add: Let_def)
qed

text \<open>
  [C2] A mutation called while unauthenticated sends no request, leaves the cart, the badge
  and the requests in flight unchanged, and resolves to \<open>false\<close>.
\<close>

theorem unauthenticated_mutation_no_request:
  assumes "\<not> cs_authenticated s"
  shows "sent (cart_step s (Invoke op)) = sent s \<and> pending (cart_step s (Invoke op)) = pending s \<and>
         cart (cart_step s (Invoke op)) = cart s \<and> cartCount (cart_step s (Invoke op)) = cartCount s \<and>
         results (cart_step s (Invoke op)) = results s @ [(op, False)]"
  using assms by (simp add: cart_mutation_def)

theorem unauthenticated_mutation_no_request_witness:
  "\<not> cs_authenticated (cart_mount None False) \<and>
   sent (cart_step (cart_mount None False) (Invoke (AddToCart ''p1'' 1))) = []"
  using unauthenticated_mutation_no_request [of "cart_mount None False" "AddToCart ''p1'' 1"]
  by (simp add: cart_mount_def auth_effect_def cart_init_def)

text \<open>
  [C4] When the API call of a mutation fails, the cart and the badge are unchanged, no
  further request is sent, the spinner stops and the mutation resolves to \<open>false\<close>.
\<close>

theorem mutation_failure_keeps_cart:
  assumes "map_of (pending s) i = Some (MutateTask t op)"
  shows "cart (cart_step s (Deliver i (Failure e))) = cart s \<and>
         cartCount (cart_step s (Deliver i (Failure e))) = cartCount s \<and>
         sent (cart_step s (Deliver i (Failure e))) = sent s \<and>
         \<not> loading (cart_step s (Deliver i (Failure e))) \<and>
         results (cart_step s (Deliver i (Failure e))) = results s @ [(op, False)]"
  using assms by (simp add: deliver_def)

theorem mutation_failure_keeps_cart_witness:
  "map_of (pending (cart_step (cart_mount None True) (Invoke ClearCart))) 0 = Some (MutateTask None ClearCart) \<and>
   results (cart_step (cart_step (cart_mount None True) (Invoke ClearCart))
              (Deliver 0 (Failure \<lparr>status = Some 400, detail = Some ''nope''\<rparr>))) = [(ClearCart, False)]"
  using mutation_failure_keeps_cart [of "cart_step (cart_mount None True) (Invoke ClearCart)" 0 None ClearCart
      "\<lparr>status = Some 400, detail = Some ''nope''\<rparr>"]
  by (simp add: cart_mount_def auth_effect_def cart_init_def cart_mutation_def)

text \<open>
  [C3] From any reachable state of an authenticated provider, a mutation whose call succeeds
  and whose refresh returns the snapshot \<open>d\<close> ends with \<open>d\<close> on display, the badge equal to
  the count of \<open>d\<close>'s lines, the mutation resolved to \<open>true\<close>, exactly the API call and one
  \<open>getCart\<close> sent with the provider's token, and nothing of its own left in flight.
\<close>

theorem mutation_success_refreshes:
  assumes "cart_reachable s" and "cs_authenticated s" and "items d = Some xs"
  shows "let s' = cart_run s [Invoke op, Deliver (next_req s) (Success r),
                             Deliver (Suc (next_req s)) (Success d)]
         in cart s' = d \<and> cartCount s' = cart_count xs \<and> results s' = results s @ [(op, True)] \<and>
            sent s' = sent s @ [(next_req s, cs_token s, op_call op), (Suc (next_req s), cs_token s, GetCart)] \<and>
            pending s' = pending s"
proof -
  have f1: "next_req s \<notin> fst ` set (pending s)"
    using cart_reachable_fresh [OF assms(1)] by blast
  have f2: "Suc (next_req s) \<notin> fst ` set (pending s)"
    using cart_reachable_fresh [OF assms(1)] by fastforce
  show ?thesis
    using assms(2,3) f1 f2
    by (simp add: cart_mutation_def deliver_def map_of_append_fresh filter_fst_fresh del: map_of_append)
qed

theorem mutation_success_refreshes_witness:
  "cart_reachable (cart_mount None False) \<and> cs_authenticated (cart_mount None True) \<and>
   cartCount (cart_run (cart_mount None True)
     [Invoke (UpdateCartItem ''p1'' 2), Deliver 0 (Success empty_cart), Deliver 1 (Success cart_p1)]) = 2"
proof -
  have r: "cart_reachable (cart_mount None True)" by (rule cart_reachable.mount)
  have "cs_authenticated (cart_mount None True)"
    by (simp add: cart_mount_def auth_effect_def cart_init_def)
  moreover have "next_req (cart_mount None True) = 0"
    by (simp add: cart_mount_def auth_effect_def cart_init_def)
  ultimately show ?thesis
    using mutation_success_refreshes [OF r, of cart_p1 _ "UpdateCartItem ''p1'' 2" empty_cart]
    by (simp add: cart_count_def cart_reachable.mount Let_def)
qed

text \<open>
  [C8] When authentication turns from true to false, the effect discards the snapshot at
  once: the empty cart is shown and the badge is 0.  Requests in flight are not cancelled.
\<close>

theorem logout_clears_cart:
  assumes "cs_authenticated s"
  shows "cart (cart_step s (AuthChange t False)) = empty_cart \<and>
         cartCount (cart_step s (AuthChange t False)) = 0 \<and>
         pending (cart_step s (AuthChange t False)) = pending s"
  using assms by (simp add: auth_change_def auth_effect_def Let_def)

theorem logout_clears_cart_witness:
  "cs_authenticated (cart_mount (Some ''alice'') True) \<and>
   cart (cart_step (cart_mount (Some ''alice'') True) (AuthChange None False)) = empty_cart"
  using logout_clears_cart [of "cart_mount (Some ''alice'') True" None]
  by (simp add: cart_mount_def auth_effect_def cart_init_def)

text \<open>
  The response of any \<open>getCart\<close> in flight is installed when it arrives, whatever
  happened since it was sent: there is no sequence number, so the visible snapshot is the
  one completed last, not the one requested last, and a logout does not stop it.
\<close>

lemma fetch_response_installed:
  assumes "map_of (pending s) i = Some (FetchTask t owner)"
  shows "cart (cart_step s (Deliver i (Success d))) = d"
  using assms by (simp add: deliver_def split: option.split)

text \<open>
  [C13] Cart leakage across identities: whatever the state, a \<open>getCart\<close> in flight when
  authentication turns false is still installed when its answer arrives, so the logged-out
  session displays the cart fetched for the previous user, with its badge.
\<close>

theorem stale_cart_after_logout:
  assumes "map_of (pending s) i = Some (FetchTask t owner)" and "items d = Some xs"
  shows "let s' = cart_run s [AuthChange None False, Deliver i (Success d)]
         in \<not> cs_authenticated s' \<and> cs_token s' = None \<and> cart s' = d \<and> cartCount s' = cart_count xs"
  using assms
  by (simp add: cart_run_def auth_change_def auth_effect_def deliver_def fetch_settled_def Let_def
           split: option.split)

theorem stale_cart_after_logout_witness:
  "let s' = cart_run (cart_mount (Some ''alice'') True) [AuthChange None False, Deliver 0 (Success cart_p1)]
   in \<not> cs_authenticated s' \<and> cs_token s' = None \<and> cart s' = cart_p1 \<and>
      cartCount s' = cart_count [\<lparr>product_id = ''p1'', quantity = 2, product = mug, line_total = 20\<rparr>]"
proof -
  have "map_of (pending (cart_mount (Some ''alice'') True)) 0 = Some (FetchTask (Some ''alice'') None)"
    by (simp add: cart_mount_def auth_effect_def cart_init_def fetch_cart_def issue_def)
  then show ?thesis using stale_cart_after_logout [of "cart_mount (Some ''alice'') True" 0] by simp
qed

text \<open>
  Out-of-order completion: the initial fetch is slow, a \<open>clearCart\<close> succeeds and its
  own refresh shows the empty cart, then the initial fetch arrives and resurrects the items
  the clear removed.
\<close>

lemma slow_fetch_resurrects_cleared_items:
  "let s = cart_run (cart_mount (Some ''tok'') True)
             [Invoke ClearCart, Deliver 1 (Success empty_cart), Deliver 2 (Success empty_cart),
              Deliver 0 (Success cart_p1)]
   in results s = [(ClearCart, True)] \<and> cart s = cart_p1 \<and> pending s = []"
  by (simp add: cart_mount_def auth_effect_def cart_init_def cart_mutation_def deliver_def empty_cart_def)

text \<open>
  [C20] A mutation whose API call succeeded resolves to \<open>true\<close>, with the success toast,
  even when the refresh that follows fails and the stale snapshot stays on display.
\<close>

theorem mutation_true_after_failed_refresh:
  assumes "map_of (pending s) i = Some (FetchTask t (Some op))"
  shows "results (cart_step s (Deliver i (Failure e))) = results s @ [(op, True)] \<and>
         cart (cart_step s (Deliver i (Failure e))) = cart s \<and>
         cartCount (cart_step s (Deliver i (Failure e))) = cartCount s"
  using assms by (simp add: deliver_def)

theorem mutation_true_after_failed_refresh_witness:
  "let s = cart_run (cart_mount None True) [Invoke ClearCart, Deliver 0 (Success empty_cart)]
   in map_of (pending s) 1 = Some (FetchTask None (Some ClearCart)) \<and>
      results (cart_step s (Deliver 1 (Failure \<lparr>status = None, detail = None\<rparr>))) = [(ClearCart, True)]"
proof -
  define s where "s = cart_run (cart_mount None True) [Invoke ClearCart, Deliver 0 (Success empty_cart)]"
  have h: "map_of (pending s) 1 = Some (FetchTask None (Some ClearCart))" and r: "results s = []"
    by (simp_all add: s_def cart_mount_def auth_effect_def cart_init_def cart_mutation_def deliver_def)
  show ?thesis
    unfolding Let_def s_def [symmetric]
    using mutation_true_after_failed_refresh [OF h, of "\<lparr>status = None, detail = None\<rparr>"] h r
    by simp
qed

text \<open>
  [C21] In every reachable state, when no request is in flight the spinner is off.
\<close>

theorem idle_not_loading:
  assumes "cart_reachable s" and "pending s = []"
  shows "\<not> loading s"
  using cart_reachable_invs [OF assms(1)] assms(2) by (simp add: loading_inv_def)

theorem idle_not_loading_witness:
  "cart_reachable (cart_step (cart_mount (Some ''tok'') True) (Deliver 0 (Success empty_cart))) \<and>
   pending (cart_step (cart_mount (Some ''tok'') True) (Deliver 0 (Success empty_cart))) = [] \<and>
   \<not> loading (cart_step (cart_mount (Some ''tok'') True) (Deliver 0 (Success empty_cart)))"
proof -
  have r: "cart_reachable (cart_step (cart_mount (Some ''tok'') True) (Deliver 0 (Success empty_cart)))"
    by (intro cart_reachable.step cart_reachable.mount)
  have p: "pending (cart_step (cart_mount (Some ''tok'') True) (Deliver 0 (Success empty_cart))) = []"
    by (simp add: cart_mount_def auth_effect_def cart_init_def deliver_def empty_cart_def)
  show ?thesis using idle_not_loading [OF r p] r p by simp
qed

text \<open>
  [C7] Every request settles and every mutation resolves exactly once: from any reachable
  state, whatever the server answers, answering the oldest request in flight
  \<open>in_flight_weight s\<close> times leaves nothing in flight and the spinner off, and the
  results appended are exactly the mutations that were still owed an answer.
\<close>

theorem every_mutation_resolves:
  assumes "cart_reachable s"
  shows "pending (drain srv (in_flight_weight s) s) = [] \<and>
         \<not> loading (drain srv (in_flight_weight s) s) \<and>
         (\<exists>rs. results (drain srv (in_flight_weight s) s) = results s @ rs \<and>
               mset (map fst rs) = pending_ops s)"
proof -
  have d: "cart_reachable (drain srv (in_flight_weight s) s) \<and> pending (drain srv (in_flight_weight s) s) = [] \<and>
           (\<exists>rs. results (drain srv (in_flight_weight s) s) = results s @ rs \<and> mset (map fst rs) = pending_ops s)"
    using assms by (rule drain_settles) simp
  then have "loading_inv (drain srv (in_flight_weight s) s)"
    using cart_reachable_invs by blast
  then show ?thesis using d by (simp add: loading_inv_def)
qed

theorem every_mutation_resolves_witness:
  "cart_reachable (cart_step (cart_mount (Some ''tok'') True) (Invoke ClearCart)) \<and>
   pending_ops (cart_step (cart_mount (Some ''tok'') True) (Invoke ClearCart)) = {#ClearCart#} \<and>
   results (drain (\<lambda>i k. Success empty_cart) 3 (cart_step (cart_mount (Some ''tok'') True) (Invoke ClearCart))) =
     [(ClearCart, True)]"
proof -
  let ?s = "cart_step (cart_mount (Some ''tok'') True) (Invoke ClearCart)"
  have r: "cart_reachable ?s" by (intro cart_reachable.step cart_reachable.mount)
  have w: "in_flight_weight ?s = 3" and o: "pending_ops ?s = {#ClearCart#}" and e: "results ?s = []"
    by (simp_all add: cart_mount_def auth_effect_def cart_init_def cart_mutation_def
                      in_flight_weight_def pending_ops_def)
  obtain rs where "results (drain (\<lambda>i k. Success empty_cart) 3 ?s) = rs" "mset (map fst rs) = {#ClearCart#}"
    using every_mutation_resolves [OF r, of "\<lambda>i k. Success empty_cart"] w o e by auto
  moreover have "results (drain (\<lambda>i k. Success empty_cart) 3 ?s) = [(ClearCart, True)]"
    by (simp add: cart_mount_def auth_effect_def cart_init_def cart_mutation_def deliver_def empty_cart_def
                  issue_def fetch_cart_def eval_nat_numeral)
  ultimately show ?thesis using r o by simp
qed

end
