(* ===== verification/CartSpec.thy ===== *)
theory CartSpec
  imports CartSync
begin

text \<open>
  Two views of the cart synchronizer \<open>contexts/CartContext.js\<close> used by the proofs of
  \<open>Backend\<close>.
  \<^item> Well-formedness of the provider state (\<open>cart_wf\<close>): requests are numbered
    \<open>0, 1, \<dots>\<close> in the order they are sent, every request in flight is one of them with
    the token and endpoint it was sent with, numbers in flight are distinct, and the spinner
    is off when nothing is in flight; every step keeps it.
  \<^item> The handlers read as if every \<open>await\<close> returned at once (\<open>fetch_atomic\<close>,
    \<open>mutation_atomic\<close>), over the observable part of the state (\<open>cart_obs\<close>).  The lemma
    \<open>seq_step_refines\<close> shows that one operation run with its requests answered oldest
    first leaves this observable state, which lets the closed loop of \<open>Backend\<close> reason
    one user action at a time.
\<close>

subsection \<open>Well-formed provider states\<close>

fun task_token :: "task \<Rightarrow> token option" where
  "task_token (FetchTask t owner) = t"
| "task_token (MutateTask t op) = t"

fun task_call :: "task \<Rightarrow> cart_call" where
  "task_call (FetchTask t owner) = GetCart"
| "task_call (MutateTask t op) = op_call op"

definition requests_wf :: "cart_state \<Rightarrow> bool" where
  "requests_wf s \<longleftrightarrow>
     map fst (sent s) = [0 ..< next_req s] \<and>
     (\<forall>(i, k) \<in> set (pending s). (i, task_token k, task_call k) \<in> set (sent s)) \<and>
     distinct (map fst (pending s))"

definition cart_wf :: "cart_state \<Rightarrow> bool" where
  "cart_wf s \<longleftrightarrow> requests_wf s \<and> (pending s = [] \<longrightarrow> \<not> loading s)"

subsection \<open>The sequential specification\<close>

record cart_obs =
  ob_cart :: cart
  ob_count :: int
  ob_loading :: bool
  ob_calls :: "(token option \<times> cart_call) list"
  ob_results :: "(cart_op \<times> bool) list"
  ob_toasts :: "toast list"

text \<open>What a user and the server can observe of the provider: request numbers and the
  suspended continuations are forgotten.\<close>

definition cart_abs :: "cart_state \<Rightarrow> cart_obs" where
  "cart_abs s =
     \<lparr>ob_cart = cart s, ob_count = cartCount s, ob_loading = loading s,
      ob_calls = map snd (sent s), ob_results = results s, ob_toasts = toasts s\<rparr>"

text \<open>The body of \<open>fetchCart\<close> after \<open>getCart\<close> answered \<open>r\<close>, without its \<open>finally\<close>.\<close>

fun fetch_atomic :: "api_result \<Rightarrow> cart_obs \<Rightarrow> cart_obs" where
  "fetch_atomic (Success d) ob =
     (case items d of
        Some xs \<Rightarrow> ob\<lparr>ob_cart := d, ob_count := cart_count xs\<rparr>
      | None \<Rightarrow> ob\<lparr>ob_cart := d, ob_toasts := ob_toasts ob @ [ToastError ''Failed to load cart'']\<rparr>)"
| "fetch_atomic (Failure e) ob = ob\<lparr>ob_toasts := ob_toasts ob @ [ToastError ''Failed to load cart'']\<rparr>"

text \<open>
  A mutation run to completion with the API call answered \<open>a1\<close> and the refetch answered
  \<open>a2\<close>: the guard, the call, and on success the awaited \<open>fetchCart\<close>, the toast and
  \<open>return true\<close>; on failure the toast and \<open>return false\<close>; \<open>setLoading(false)\<close> last.
\<close>

definition mutation_atomic ::
  "bool \<Rightarrow> token option \<Rightarrow> cart_op \<Rightarrow> api_result \<Rightarrow> api_result \<Rightarrow> cart_obs \<Rightarrow> cart_obs" where
  "mutation_atomic auth t op a1 a2 ob =
     (if \<not> auth
      then ob\<lparr>ob_toasts := ob_toasts ob @ [ToastError (login_message op)],
              ob_results := ob_results ob @ [(op, False)]\<rparr>
      else
        (case a1 of
           Failure e \<Rightarrow>
             ob\<lparr>ob_calls := ob_calls ob @ [(t, op_call op)],
                ob_toasts := ob_toasts ob @ [ToastError (js_or_str (detail e) (failure_message op))],
                ob_results := ob_results ob @ [(op, False)], ob_loading := False\<rparr>
         | Success d \<Rightarrow>
             (let ob' = fetch_atomic a2 (ob\<lparr>ob_calls := ob_calls ob @ [(t, op_call op), (t, GetCart)]\<rparr>)
              in ob'\<lparr>ob_toasts := ob_toasts ob' @ [ToastSuccess (success_message op)],
                     ob_results := ob_results ob' @ [(op, True)], ob_loading := False\<rparr>)))"

datatype seq_op =
    SeqMutate cart_op api_result api_result
  | SeqRefresh api_result

fun atomic_step :: "bool \<Rightarrow> token option \<Rightarrow> cart_obs \<Rightarrow> seq_op \<Rightarrow> cart_obs" where
  "atomic_step auth t ob (SeqMutate op a1 a2) = mutation_atomic auth t op a1 a2 ob"
| "atomic_step auth t ob (SeqRefresh a) =
     (fetch_atomic a (ob\<lparr>ob_calls := ob_calls ob @ [(t, GetCart)]\<rparr>))\<lparr>ob_loading := False\<rparr>"

text \<open>
  The sequential environment: an operation is invoked and the requests it causes are
  answered, oldest first, before the next one starts (\<open>drain\<close> with the bound of the
  liveness result); a mutation's call is answered \<open>a1\<close> and any \<open>getCart\<close> \<open>a2\<close>.
\<close>

fun seq_answer :: "api_result \<Rightarrow> api_result \<Rightarrow> nat \<Rightarrow> task \<Rightarrow> api_result" where
  "seq_answer a1 a2 i (MutateTask t op) = a1"
| "seq_answer a1 a2 i (FetchTask t owner) = a2"

fun seq_step :: "cart_state \<Rightarrow> seq_op \<Rightarrow> cart_state" where
  "seq_step s (SeqMutate op a1 a2) =
     (let s' = cart_step s (Invoke op) in drain (seq_answer a1 a2) (in_flight_weight s') s')"
| "seq_step s (SeqRefresh a) =
     (let s' = cart_step s Refresh in drain (seq_answer a a) (in_flight_weight s') s')"

subsection \<open>Every reachable state is well-formed\<close>

lemma requests_wf_fresh:
  assumes "requests_wf s" and "(i, k) \<in> set (pending s)"
  shows "i < next_req s"
proof -
  have "(i, task_token k, task_call k) \<in> set (sent s)"
    using assms unfolding requests_wf_def by blast
  then have "i \<in> set (map fst (sent s))" by (force intro: image_eqI)
  moreover have "map fst (sent s) = [0 ..< next_req s]"
    using assms(1) by (simp add: requests_wf_def)
  ultimately have "i \<in> set [0 ..< next_req s]" by simp
  then show ?thesis by simp
qed

lemma requests_wf_issue:
  assumes "requests_wf s"
  shows "requests_wf (issue (task_token k) k (task_call k) s)"
proof -
  have "next_req s \<notin> fst ` set (pending s)"
    using requests_wf_fresh [OF assms] by fastforce
  then show ?thesis
    using assms by (auto simp: requests_wf_def issue_def)
qed

lemma requests_wf_fields:
  "requests_wf (s\<lparr>loading := b\<rparr>) = requests_wf s"
  "requests_wf (s\<lparr>cart := d\<rparr>) = requests_wf s"
  "requests_wf (s\<lparr>cartCount := n\<rparr>) = requests_wf s"
  "requests_wf (s\<lparr>toasts := ts\<rparr>) = requests_wf s"
  "requests_wf (s\<lparr>results := rs\<rparr>) = requests_wf s"
  "requests_wf (s\<lparr>cs_token := t, cs_authenticated := a\<rparr>) = requests_wf s"
  by (simp_all add: requests_wf_def)

lemma requests_wf_fetch_cart: "requests_wf s \<Longrightarrow> requests_wf (fetch_cart t owner s)"
  using requests_wf_issue [of "s\<lparr>loading := True\<rparr>" "FetchTask t owner"]
  by (simp add: fetch_cart_def requests_wf_fields)

lemma cart_wf_resume: "requests_wf s \<Longrightarrow> cart_wf (resume k r s)"
proof (cases k)
  case (FetchTask t owner)
  assume "requests_wf s"
  then show ?thesis
    using FetchTask by (cases r) (auto simp: cart_wf_def fetch_settled_def requests_wf_def split: option.split)
next
  case (MutateTask t op)
  assume w: "requests_wf s"
  then show ?thesis
    using MutateTask requests_wf_fetch_cart [OF w]
    by (cases r) (simp_all add: cart_wf_def requests_wf_def)
qed

lemma requests_wf_filter: "requests_wf s \<Longrightarrow> requests_wf (s\<lparr>pending := filter P (pending s)\<rparr>)"
  by (auto simp: requests_wf_def distinct_map_filter)

lemma cart_wf_step: "cart_wf s \<Longrightarrow> cart_wf (cart_step s e)"
proof (cases e)
  case (Deliver i r)
  assume "cart_wf s"
  then have "requests_wf (s\<lparr>pending := filter (\<lambda>p. fst p \<noteq> i) (pending s)\<rparr>)"
    by (simp add: cart_wf_def requests_wf_filter)
  then show ?thesis
    using Deliver \<open>cart_wf s\<close> by (auto simp: deliver_def cart_wf_resume split: option.split)
next
  case (Invoke op)
  assume w: "cart_wf s"
  have "requests_wf (issue (cs_token s) (MutateTask (cs_token s) op) (op_call op) (s\<lparr>loading := True\<rparr>))"
    using requests_wf_issue [of "s\<lparr>loading := True\<rparr>" "MutateTask (cs_token s) op"] w
    by (simp add: cart_wf_def requests_wf_fields)
  then show ?thesis
    using Invoke w by (simp add: cart_mutation_def cart_wf_def requests_wf_def)
next
  case Refresh
  assume "cart_wf s"
  then show ?thesis using Refresh requests_wf_fetch_cart by (simp add: cart_wf_def)
next
  case (AuthChange t a)
  assume w: "cart_wf s"
  then have "requests_wf (s\<lparr>cs_token := t, cs_authenticated := a\<rparr>)"
    by (simp add: cart_wf_def requests_wf_fields)
  then show ?thesis
    using AuthChange w requests_wf_fetch_cart
    by (auto simp: auth_change_def auth_effect_def Let_def cart_wf_def requests_wf_def)
qed

subsection \<open>The provider refines the sequential specification\<close>

lemma seq_step_refines:
  assumes "pending s = []"
  shows "cart_abs (seq_step s op) = atomic_step (cs_authenticated s) (cs_token s) (cart_abs s) op \<and>
         pending (seq_step s op) = [] \<and>
         cs_authenticated (seq_step s op) = cs_authenticated s \<and> cs_token (seq_step s op) = cs_token s"
proof (cases op)
  case (SeqMutate o' a1 a2)
  show ?thesis
  proof (cases "cs_authenticated s")
    case False
    then show ?thesis
      using SeqMutate assms
      by (simp add: cart_mutation_def in_flight_weight_def cart_abs_def mutation_atomic_def)
  next
    case True
    then show ?thesis
      using SeqMutate assms
      by (cases a1; cases a2)
         (simp_all add: cart_mutation_def in_flight_weight_def cart_abs_def mutation_atomic_def
                        deliver_def eval_nat_numeral issue_def fetch_cart_def fetch_settled_def
                        split: option.split)
  qed
next
  case (SeqRefresh a)
  then show ?thesis
    using assms
    by (cases a) (simp_all add: in_flight_weight_def cart_abs_def deliver_def issue_def fetch_cart_def
                                fetch_settled_def split: option.split)
qed

end
