(* ===== verification/Backend.thy ===== *)
theory Backend
  imports CartSpec
begin

text \<open>
  The backend's cart service and the client composed with it.  The service is not code of
  this repository: it is modelled from the interface of spec sections 6 to 8 (a cart per
  session, lines with distinct product ids and quantities of at least one, the stock
  bound enforced by the server, totals computed by the server, a 401 for a missing or
  unknown credential, removing an absent item and clearing an empty cart succeed).  Where
  the spec is silent the choice is stated at the definition.
  The closed loop answers the requests the provider puts on the wire, oldest first, with
  the service's responses (\<open>serve\<close>); a user action runs until nothing is in flight
  (\<open>closed_step\<close>), as the spec's \<open>after each operation settles\<close> reads.  The loop is
  the sequential environment of \<open>CartSpec\<close> with the service computing the answers, so its
  lemmas come from the refinement lemma \<open>seq_step_refines\<close>.
\<close>

subsection \<open>The cart service\<close>

text \<open>
  The catalogue gives each product its summary and its stock; a session's cart is an
  association list from product ids to quantities, in the order lines were first added.
\<close>

type_synonym cart_lines = "(product_id \<times> int) list"

record backend =
  catalogue :: "product_id \<rightharpoonup> product_summary \<times> int"
  carts :: "token \<rightharpoonup> cart_lines"

definition qty_in :: "cart_lines \<Rightarrow> product_id \<Rightarrow> int" where
  "qty_in ls p = (case map_of ls p of None \<Rightarrow> 0 | Some q \<Rightarrow> q)"

text \<open>Setting the quantity of a line, appending it when the product is not in the cart.\<close>

fun put_line :: "product_id \<Rightarrow> int \<Rightarrow> cart_lines \<Rightarrow> cart_lines" where
  "put_line p q [] = [(p, q)]"
| "put_line p q ((p', q') # ls) = (if p' = p then (p, q) # ls else (p', q') # put_line p q ls)"

text \<open>The lines of a snapshot, with the server-computed line totals.\<close>

fun snapshot_lines :: "(product_id \<rightharpoonup> product_summary \<times> int) \<Rightarrow> cart_lines \<Rightarrow> cart_line list" where
  "snapshot_lines cat [] = []"
| "snapshot_lines cat ((p, q) # ls) =
     (case cat p of
        None \<Rightarrow> snapshot_lines cat ls
      | Some (ps, st) \<Rightarrow>
          \<lparr>product_id = p, quantity = q, product = ps, line_total = price ps * of_int q\<rparr>
          # snapshot_lines cat ls)"

text \<open>The body of \<open>GET /api/cart\<close>: \<open>{ items, total_amount }\<close>, the total summed by the server.\<close>

definition backend_cart :: "backend \<Rightarrow> cart_lines \<Rightarrow> cart" where
  "backend_cart b ls =
     (let xs = snapshot_lines (catalogue b) ls
      in \<lparr>items = Some xs, total_amount = Some (sum_list (map line_total xs))\<rparr>)"

definition reject :: "nat \<Rightarrow> string option \<Rightarrow> backend \<Rightarrow> api_result \<times> backend" where
  "reject c d b = (Failure \<lparr>status = Some c, detail = d\<rparr>, b)"

text \<open>A mutation the service accepts stores the new lines and answers with the new cart.\<close>

definition accept :: "token \<Rightarrow> cart_lines \<Rightarrow> backend \<Rightarrow> api_result \<times> backend" where
  "accept t ls b = (let b' = b\<lparr>carts := (carts b)(t \<mapsto> ls)\<rparr> in (Success (backend_cart b' ls), b'))"

text \<open>
  The cart endpoints for the session \<open>t\<close> whose cart is \<open>ls\<close>.  An added quantity is
  merged into the line of the same product (product ids are unique in a snapshot) and the
  merged quantity must not exceed the stock; the spec leaves open what an update of a
  product that is not in the cart does, and the model rejects it with a 404.
\<close>

fun backend_call :: "backend \<Rightarrow> token \<Rightarrow> cart_lines \<Rightarrow> cart_call \<Rightarrow> api_result \<times> backend" where
  "backend_call b t ls GetCart = (Success (backend_cart b ls), b)"
| "backend_call b t ls (AddToCartCall p q) =
     (if q < 1 then reject 400 (Some ''invalid quantity'') b
      else (case catalogue b p of
              None \<Rightarrow> reject 404 (Some ''product not found'') b
            | Some (ps, st) \<Rightarrow>
                if st < qty_in ls p + q then reject 400 (Some ''quantity exceeds stock'') b
                else accept t (put_line p (qty_in ls p + q) ls) b))"
| "backend_call b t ls (UpdateCartItemCall p q) =
     (if q < 1 then reject 400 (Some ''invalid quantity'') b
      else if map_of ls p = None then reject 404 (Some ''item not in cart'') b
      else (case catalogue b p of
              None \<Rightarrow> reject 404 (Some ''product not found'') b
            | Some (ps, st) \<Rightarrow>
                if st < q then reject 400 (Some ''quantity exceeds stock'') b
                else accept t (put_line p q ls) b))"
| "backend_call b t ls (RemoveFromCartCall p) = accept t (filter (\<lambda>l. fst l \<noteq> p) ls) b"
| "backend_call b t ls ClearCartCall = accept t [] b"

text \<open>A request without a credential, or with one the service does not know, gets a 401.\<close>

definition backend_handle :: "backend \<Rightarrow> token option \<Rightarrow> cart_call \<Rightarrow> api_result \<times> backend" where
  "backend_handle b t c =
     (case t of
        None \<Rightarrow> reject 401 None b
      | Some tk \<Rightarrow> (case carts b tk of None \<Rightarrow> reject 401 None b | Some ls \<Rightarrow> backend_call b tk ls c))"

text \<open>
  The service's invariant: every cart holds distinct products of the catalogue, each with a
  quantity between one and its stock.
\<close>

definition lines_wf :: "(product_id \<rightharpoonup> product_summary \<times> int) \<Rightarrow> cart_lines \<Rightarrow> bool" where
  "lines_wf cat ls \<longleftrightarrow>
     distinct (map fst ls) \<and>
     list_all (\<lambda>(p, q). 1 \<le> q \<and> (case cat p of None \<Rightarrow> False | Some (ps, st) \<Rightarrow> q \<le> st)) ls"

definition backend_wf :: "backend \<Rightarrow> bool" where
  "backend_wf b \<longleftrightarrow> (\<forall>ls \<in> ran (carts b). lines_wf (catalogue b) ls)"

subsection \<open>The closed loop\<close>

text \<open>
  The wire: the oldest request in flight is the one the service answers next, with the
  credential and endpoint it was sent with (its entry in the log \<open>sent\<close>).
\<close>

fun serve :: "nat \<Rightarrow> cart_state \<times> backend \<Rightarrow> cart_state \<times> backend" where
  "serve 0 sb = sb"
| "serve (Suc n) (s, b) =
     (case pending s of
        [] \<Rightarrow> (s, b)
      | (i, k) # _ \<Rightarrow>
          (case map_of (sent s) i of
             None \<Rightarrow> (s, b)
           | Some (t, c) \<Rightarrow> (case backend_handle b t c of (r, b') \<Rightarrow> serve n (cart_step s (Deliver i r), b'))))"

text \<open>What a user does between two settled states.\<close>

datatype user_action = SignIn token | SignOut | Act cart_op | RefreshAct

fun action_event :: "user_action \<Rightarrow> cart_event" where
  "action_event (SignIn t) = AuthChange (Some t) True"
| "action_event SignOut = AuthChange None False"
| "action_event (Act op) = Invoke op"
| "action_event RefreshAct = Refresh"

definition closed_step :: "cart_state \<times> backend \<Rightarrow> user_action \<Rightarrow> cart_state \<times> backend" where
  "closed_step sb a =
     (let s' = cart_step (fst sb) (action_event a) in serve (in_flight_weight s') (s', snd sb))"

definition closed_run :: "cart_state \<times> backend \<Rightarrow> user_action list \<Rightarrow> cart_state \<times> backend" where
  "closed_run sb as = foldl closed_step sb as"

text \<open>A login with a credential the service issued (a non-empty token with a cart).\<close>

fun action_ok :: "backend \<Rightarrow> user_action \<Rightarrow> bool" where
  "action_ok b (SignIn t) = (t \<noteq> [] \<and> carts b t \<noteq> None)"
| "action_ok b a = True"

text \<open>
  The client mirrors the service: nothing is in flight, the badge agrees with the lines,
  and the display is the service's snapshot of the session's cart, or the empty cart with
  no credential when logged out.
\<close>

definition mirrors :: "backend \<Rightarrow> cart_state \<Rightarrow> bool" where
  "mirrors b s \<longleftrightarrow>
     cart_wf s \<and> pending s = [] \<and> cartCount s = cart_count (cart_items (cart s)) \<and>
     (if cs_authenticated s
      then (case cs_token s of
              None \<Rightarrow> False
            | Some t \<Rightarrow> t \<noteq> [] \<and> (case carts b t of None \<Rightarrow> False | Some ls \<Rightarrow> cart s = backend_cart b ls))
      else cs_token s = None \<and> cart s = empty_cart)"

subsection \<open>A sample service\<close>

text \<open>The scenario of spec section 8: \<open>p1\<close> at 10 with stock 10 in a cart of two, \<open>p2\<close> out of stock.\<close>

abbreviation sample_backend :: backend where
  "sample_backend \<equiv> \<lparr>catalogue = [''p1'' \<mapsto> (mug, 10), ''p2'' \<mapsto> (mug, 0)], carts = [''tok'' \<mapsto> [(''p1'', 2)]]\<rparr>"

abbreviation sample_session :: cart_state where
  "sample_session \<equiv> fst (closed_run (cart_mount None False, sample_backend) [SignIn ''tok''])"

lemmas closed_loop_simps = closed_run_def closed_step_def cart_mount_def auth_effect_def cart_init_def
      auth_change_def in_flight_weight_def fetch_cart_def issue_def deliver_def backend_handle_def
      cart_mutation_def eval_nat_numeral backend_cart_def reject_def accept_def qty_in_def cart_count_def
      empty_cart_def fetch_settled_def

subsection \<open>The closed loop is the sequential environment\<close>

lemma sent_beyond:
  assumes "requests_wf s" and "next_req s \<le> i"
  shows "map_of (sent s) i = None"
proof -
  have "fst ` set (sent s) = {0 ..< next_req s}"
    using assms(1) by (metis list.set_map requests_wf_def set_upt)
  then show ?thesis using assms(2) by (simp add: map_of_eq_None_iff)
qed

lemma reject_fst [simp]: "fst (reject c d b) = Failure \<lparr>status = Some c, detail = d\<rparr>"
  and reject_snd [simp]: "snd (reject c d b) = b"
  by (simp_all add: reject_def)

lemma backend_handle_GetCart: "snd (backend_handle b t GetCart) = b"
  by (simp add: backend_handle_def split: option.split)

lemma closed_step_Act:
  assumes "cart_wf s" and "pending s = []"
  shows "closed_step (s, b) (Act op) =
    (case backend_handle b (cs_token s) (op_call op) of (a1, b1) \<Rightarrow>
       (seq_step s (SeqMutate op a1 (fst (backend_handle b1 (cs_token s) GetCart))),
        if cs_authenticated s then b1 else b))"
proof (cases "cs_authenticated s")
  case False
  then show ?thesis using assms
    by (simp add: closed_step_def cart_mutation_def in_flight_weight_def split: prod.split)
next
  case True
  have w: "requests_wf s" using assms(1) by (simp add: cart_wf_def)
  have n0: "map_of (sent s) (next_req s) = None" and n1: "map_of (sent s) (Suc (next_req s)) = None"
    using sent_beyond [OF w] by simp_all
  obtain a1 b1 where h: "backend_handle b (cs_token s) (op_call op) = (a1, b1)" by fastforce
  show ?thesis
  proof (cases a1)
    case (Success d)
    obtain a2 b2 where h2: "backend_handle b1 (cs_token s) GetCart = (a2, b2)" by fastforce
    have "b2 = b1" using backend_handle_GetCart [of b1 "cs_token s"] h2 by simp
    then show ?thesis using True assms h h2 Success n0 n1
      by (simp add: closed_step_def cart_mutation_def in_flight_weight_def eval_nat_numeral
                    deliver_def issue_def fetch_cart_def map_add_def Let_def)
  next
    case (Failure e)
    then show ?thesis using True assms h n0
      by (simp add: closed_step_def cart_mutation_def in_flight_weight_def eval_nat_numeral
                    deliver_def issue_def map_add_def Let_def)
  qed
qed

subsection \<open>The service keeps its invariant\<close>

lemma map_of_put_line: "map_of (put_line p q ls) = (map_of ls)(p \<mapsto> q)"
  by (induction ls) (auto simp: fun_upd_twist)

lemma set_put_line: "set (put_line p q ls) \<subseteq> insert (p, q) (set ls)"
  by (induction ls) (auto split: if_splits)

lemma fst_put_line: "fst ` set (put_line p q ls) = insert p (fst ` set ls)"
proof (induction ls)
  case (Cons x ls)
  obtain a c where x: "x = (a, c)" by (cases x)
  show ?case by (cases "a = p") (simp_all add: x Cons.IH insert_commute)
qed simp

lemma distinct_put_line: "distinct (map fst ls) \<Longrightarrow> distinct (map fst (put_line p q ls))"
proof (induction ls)
  case (Cons x ls)
  then show ?case using fst_put_line [of p q ls] by (cases x) auto
qed simp

lemma qty_in_nonneg: "lines_wf cat ls \<Longrightarrow> 0 \<le> qty_in ls p"
  by (auto simp: qty_in_def lines_wf_def list_all_iff dest!: map_of_SomeD split: option.split)

lemma lines_wf_put_line:
  assumes "lines_wf cat ls" and "1 \<le> q" and "cat p = Some (ps, st)" and "q \<le> st"
  shows "lines_wf cat (put_line p q ls)"
proof -
  have "list_all (\<lambda>(p, q). 1 \<le> q \<and> (case cat p of None \<Rightarrow> False | Some (ps, st) \<Rightarrow> q \<le> st)) ls"
    using assms(1) by (simp add: lines_wf_def)
  then have "list_all (\<lambda>(p, q). 1 \<le> q \<and> (case cat p of None \<Rightarrow> False | Some (ps, st) \<Rightarrow> q \<le> st))
               (put_line p q ls)"
    using set_put_line [of p q ls] assms(2-4) by (fastforce simp: list_all_iff)
  then show ?thesis using assms(1) by (simp add: lines_wf_def distinct_put_line)
qed

lemma lines_wf_filter: "lines_wf cat ls \<Longrightarrow> lines_wf cat (filter P ls)"
  by (auto simp: lines_wf_def list_all_iff distinct_map_filter)

lemma lines_wf_Nil [simp]: "lines_wf cat []"
  by (simp add: lines_wf_def)

text \<open>Every cart call either fails and leaves the service as it was, or stores new lines.\<close>

lemma backend_call_outcome:
  assumes "carts b t = Some ls" and "lines_wf (catalogue b) ls"
  shows "(\<exists>e. backend_call b t ls c = (Failure e, b)) \<or>
         (\<exists>ls'. backend_call b t ls c = accept t ls' b \<and> lines_wf (catalogue b) ls')"
proof (cases c)
  case GetCart
  have "accept t ls b = (Success (backend_cart b ls), b)"
    using assms(1) by (simp add: accept_def fun_upd_idem)
  then show ?thesis using GetCart assms(2) by (intro disjI2 exI [of _ ls]) simp
next
  case (AddToCartCall p q)
  show ?thesis
  proof (cases "q < 1 \<or> catalogue b p = None")
    case True
    then show ?thesis using AddToCartCall by (auto simp: reject_def)
  next
    case False
    then obtain ps st where cp: "catalogue b p = Some (ps, st)" and q: "1 \<le> q" by auto
    have "0 \<le> qty_in ls p" using assms(2) by (rule qty_in_nonneg)
    then have "st < qty_in ls p + q \<or> lines_wf (catalogue b) (put_line p (qty_in ls p + q) ls)"
      using q by (auto intro: lines_wf_put_line [OF assms(2) _ cp])
    then show ?thesis using AddToCartCall cp q by (auto simp: reject_def)
  qed
next
  case (UpdateCartItemCall p q)
  show ?thesis
  proof (cases "q < 1 \<or> map_of ls p = None \<or> catalogue b p = None")
    case True
    then show ?thesis using UpdateCartItemCall by (auto simp: reject_def)
  next
    case False
    then obtain ps st where cp: "catalogue b p = Some (ps, st)" and q: "1 \<le> q" by auto
    have "st < q \<or> lines_wf (catalogue b) (put_line p q ls)"
      using q by (auto intro: lines_wf_put_line [OF assms(2) _ cp])
    then show ?thesis using UpdateCartItemCall cp False by (auto simp: reject_def)
  qed
next
  case (RemoveFromCartCall p)
  then show ?thesis using assms(2) by (auto intro: lines_wf_filter)
next
  case ClearCartCall
  then show ?thesis by auto
qed

lemma accept_fields [simp]:
  "fst (accept t ls b) = Success (backend_cart (b\<lparr>carts := (carts b)(t \<mapsto> ls)\<rparr>) ls)"
  "carts (snd (accept t ls b)) = (carts b)(t \<mapsto> ls)"
  "catalogue (snd (accept t ls b)) = catalogue b"
  by (simp_all add: accept_def Let_def)

lemma backend_cart_catalogue:
  "catalogue b' = catalogue b \<Longrightarrow> backend_cart b' ls = backend_cart b ls"
  by (simp add: backend_cart_def)

lemma ran_upd_subset: "ran (m(k \<mapsto> v)) \<subseteq> insert v (ran m)"
  by (auto simp: ran_def)

lemma backend_handle_inv:
  assumes "backend_wf b"
  shows "backend_wf (snd (backend_handle b t c)) \<and> catalogue (snd (backend_handle b t c)) = catalogue b \<and>
         dom (carts (snd (backend_handle b t c))) = dom (carts b)"
proof (cases "\<exists>tk ls. t = Some tk \<and> carts b tk = Some ls")
  case True
  then obtain tk ls where t: "t = Some tk" and ls: "carts b tk = Some ls" by blast
  have w: "lines_wf (catalogue b) ls" using assms ls by (auto simp: backend_wf_def ran_def)
  show ?thesis
    using backend_call_outcome [OF ls w, of c]
  proof
    assume "\<exists>e. backend_call b tk ls c = (Failure e, b)"
    then show ?thesis using t ls assms by (auto simp: backend_handle_def)
  next
    assume "\<exists>ls'. backend_call b tk ls c = accept tk ls' b \<and> lines_wf (catalogue b) ls'"
    then obtain ls' where e: "backend_call b tk ls c = accept tk ls' b" and w': "lines_wf (catalogue b) ls'"
      by blast
    have "backend_wf (snd (accept tk ls' b))"
      using assms w' ran_upd_subset [of "carts b" tk ls'] by (auto simp: backend_wf_def)
    then show ?thesis using t ls e by (auto simp: backend_handle_def)
  qed
next
  case False
  then have "backend_handle b t c = reject 401 None b"
    by (cases t) (auto simp: backend_handle_def split: option.split)
  then show ?thesis using assms by simp
qed

subsection \<open>The client mirrors the service\<close>

lemma cart_wf_drain: "cart_wf s \<Longrightarrow> cart_wf (drain f n s)"
proof (induction f n s rule: drain.induct)
  case (2 srv n s)
  have "cart_wf (deliver i r s)" for i r
    using cart_wf_step [OF "2.prems", of "Deliver i r"] by simp
  then show ?case using 2 by (auto split: list.split)
qed simp

lemma serve_inv:
  assumes "cart_wf s" and "backend_wf b"
  shows "cart_wf (fst (serve n (s, b))) \<and> backend_wf (snd (serve n (s, b))) \<and>
         catalogue (snd (serve n (s, b))) = catalogue b \<and> dom (carts (snd (serve n (s, b)))) = dom (carts b)"
  using assms
proof (induction n arbitrary: s b)
  case (Suc n)
  show ?case
  proof (cases "pending s")
    case (Cons p rest)
    obtain i k where p: "p = (i, k)" by (cases p)
    show ?thesis
    proof (cases "map_of (sent s) i")
      case (Some tc)
      obtain t c where tc: "tc = (t, c)" by (cases tc)
      obtain r b' where h: "backend_handle b t c = (r, b')" by fastforce
      have "backend_wf b' \<and> catalogue b' = catalogue b \<and> dom (carts b') = dom (carts b)"
        using backend_handle_inv [OF Suc.prems(2), of t c] h by simp
      moreover have "cart_wf (cart_step s (Deliver i r))" using Suc.prems(1) by (rule cart_wf_step)
      ultimately show ?thesis
        using Suc.IH [of "cart_step s (Deliver i r)" b'] Cons p Some tc h by simp
    qed (use Cons p Suc.prems in simp)
  qed (use Suc.prems in simp)
qed simp

lemma closed_step_inv:
  assumes "cart_wf s" and "backend_wf b"
  shows "cart_wf (fst (closed_step (s, b) a)) \<and> backend_wf (snd (closed_step (s, b) a)) \<and>
         catalogue (snd (closed_step (s, b) a)) = catalogue b \<and>
         dom (carts (snd (closed_step (s, b) a))) = dom (carts b)"
  using serve_inv [OF cart_wf_step [OF assms(1)] assms(2)] by (simp add: closed_step_def Let_def)

lemma closed_step_Refresh:
  assumes "cart_wf s" and "pending s = []"
  shows "closed_step (s, b) RefreshAct =
           (seq_step s (SeqRefresh (fst (backend_handle b (cs_token s) GetCart))), b)"
proof -
  have w: "requests_wf s" using assms(1) by (simp add: cart_wf_def)
  have n0: "map_of (sent s) (next_req s) = None"
    using sent_beyond [OF w] by simp
  obtain a b1 where h: "backend_handle b (cs_token s) GetCart = (a, b1)" by fastforce
  have "b1 = b" using backend_handle_GetCart [of b "cs_token s"] h by simp
  then show ?thesis using assms h n0
    by (simp add: closed_step_def in_flight_weight_def deliver_def issue_def fetch_cart_def
                  map_add_def Let_def)
qed

lemma closed_step_SignIn:
  assumes "pending s = []" and "t \<noteq> []"
  shows "closed_step (s, b) (SignIn t) =
           (if cs_token s = Some t \<and> cs_authenticated s then (s, b)
            else closed_step (s\<lparr>cs_token := Some t, cs_authenticated := True\<rparr>, b) RefreshAct)"
  using assms
  by (auto simp: closed_step_def auth_change_def auth_effect_def Let_def in_flight_weight_def)

lemma closed_step_SignOut:
  assumes "pending s = []"
  shows "closed_step (s, b) SignOut = (auth_change None False s, b)"
  using assms
  by (simp add: closed_step_def auth_change_def auth_effect_def Let_def in_flight_weight_def)

lemma seq_step_fields:
  assumes "pending s = []"
  shows "cart (seq_step s op) = ob_cart (atomic_step (cs_authenticated s) (cs_token s) (cart_abs s) op)"
    and "cartCount (seq_step s op) = ob_count (atomic_step (cs_authenticated s) (cs_token s) (cart_abs s) op)"
    and "results (seq_step s op) = ob_results (atomic_step (cs_authenticated s) (cs_token s) (cart_abs s) op)"
    and "toasts (seq_step s op) = ob_toasts (atomic_step (cs_authenticated s) (cs_token s) (cart_abs s) op)"
    and "pending (seq_step s op) = []"
    and "cs_authenticated (seq_step s op) = cs_authenticated s"
    and "cs_token (seq_step s op) = cs_token s"
proof -
  note r = seq_step_refines [OF assms, of op]
  from r have e: "cart_abs (seq_step s op) = atomic_step (cs_authenticated s) (cs_token s) (cart_abs s) op"
    by (rule conjunct1)
  show "cart (seq_step s op) = ob_cart (atomic_step (cs_authenticated s) (cs_token s) (cart_abs s) op)"
    using arg_cong [OF e, of ob_cart] by (simp add: cart_abs_def)
  show "cartCount (seq_step s op) = ob_count (atomic_step (cs_authenticated s) (cs_token s) (cart_abs s) op)"
    using arg_cong [OF e, of ob_count] by (simp add: cart_abs_def)
  show "results (seq_step s op) = ob_results (atomic_step (cs_authenticated s) (cs_token s) (cart_abs s) op)"
    using arg_cong [OF e, of ob_results] by (simp add: cart_abs_def)
  show "toasts (seq_step s op) = ob_toasts (atomic_step (cs_authenticated s) (cs_token s) (cart_abs s) op)"
    using arg_cong [OF e, of ob_toasts] by (simp add: cart_abs_def)
  show "pending (seq_step s op) = []" "cs_authenticated (seq_step s op) = cs_authenticated s"
    "cs_token (seq_step s op) = cs_token s"
    using r by simp_all
qed

lemma mirrors_session:
  assumes "mirrors b s" and "cs_authenticated s"
  obtains t ls where "cs_token s = Some t" "t \<noteq> []" "carts b t = Some ls" "cart s = backend_cart b ls"
  using assms by (auto simp: mirrors_def split: option.splits)

lemma backend_handle_session:
  "carts b t = Some ls \<Longrightarrow> backend_handle b (Some t) c = backend_call b t ls c"
  by (simp add: backend_handle_def)

lemma cart_items_backend_cart [simp]:
  "cart_items (backend_cart b ls) = snapshot_lines (catalogue b) ls"
  "items (backend_cart b ls) = Some (snapshot_lines (catalogue b) ls)"
  by (simp_all add: backend_cart_def cart_items_def Let_def)

text \<open>The outcome of a mutation in the closed loop, for a logged-in session.\<close>

lemma closed_Act_session:
  assumes "mirrors b s" and "backend_wf b" and "cs_authenticated s"
    and "cs_token s = Some t" and "carts b t = Some ls"
  shows "(\<exists>e. backend_call b t ls (op_call op) = (Failure e, b) \<and>
            closed_step (s, b) (Act op) = (seq_step s (SeqMutate op (Failure e) (Success (backend_cart b ls))), b)) \<or>
         (\<exists>ls'. backend_call b t ls (op_call op) = accept t ls' b \<and> lines_wf (catalogue b) ls' \<and>
            closed_step (s, b) (Act op) =
              (seq_step s (SeqMutate op (fst (accept t ls' b)) (Success (backend_cart b ls'))), snd (accept t ls' b)))"
proof -
  have w: "cart_wf s" and p: "pending s = []" using assms(1) by (simp_all add: mirrors_def)
  have lw: "lines_wf (catalogue b) ls" using assms(2,5) by (auto simp: backend_wf_def ran_def)
  note c = closed_step_Act [OF w p, of b op]
  show ?thesis
    using backend_call_outcome [OF assms(5) lw, of "op_call op"]
  proof
    assume "\<exists>e. backend_call b t ls (op_call op) = (Failure e, b)"
    then obtain e where "backend_call b t ls (op_call op) = (Failure e, b)" by blast
    then show ?thesis
      using c assms(3-5) by (simp add: backend_handle_session del: seq_step.simps)
  next
    assume "\<exists>ls'. backend_call b t ls (op_call op) = accept t ls' b \<and> lines_wf (catalogue b) ls'"
    then obtain ls' where e: "backend_call b t ls (op_call op) = accept t ls' b" and "lines_wf (catalogue b) ls'"
      by blast
    moreover have "backend_handle (snd (accept t ls' b)) (Some t) GetCart = (Success (backend_cart b ls'), snd (accept t ls' b))"
      by (simp add: backend_handle_def accept_def Let_def backend_cart_def)
    ultimately show ?thesis
      using c assms(3-5)
      by (intro disjI2 exI [of _ ls']) (simp add: backend_handle_session case_prod_unfold del: seq_step.simps)
  qed
qed

lemma mirrors_Act:
  assumes m: "mirrors b s" and bw: "backend_wf b"
  shows "mirrors (snd (closed_step (s, b) (Act op))) (fst (closed_step (s, b) (Act op)))"
proof -
  have w: "cart_wf s" and p: "pending s = []" using m by (simp_all add: mirrors_def)
  have inv: "cart_wf (fst (closed_step (s, b) (Act op)))" using closed_step_inv [OF w bw] by blast
  note f = seq_step_fields [OF p]
  show ?thesis
  proof (cases "cs_authenticated s")
    case False
    then have "closed_step (s, b) (Act op) =
                 (seq_step s (SeqMutate op (fst (backend_handle b (cs_token s) (op_call op)))
                   (fst (backend_handle (snd (backend_handle b (cs_token s) (op_call op))) (cs_token s) GetCart))), b)"
      using closed_step_Act [OF w p, of b op] by (simp add: case_prod_unfold del: seq_step.simps)
    then show ?thesis
      using m False inv f by (simp add: mirrors_def mutation_atomic_def cart_abs_def del: seq_step.simps)
  next
    case True
    obtain t ls where t: "cs_token s = Some t" "t \<noteq> []" and ls: "carts b t = Some ls"
      and c: "cart s = backend_cart b ls"
      using m True by (rule mirrors_session)
    show ?thesis
      using closed_Act_session [OF m bw True t(1) ls, of op]
    proof
      assume "\<exists>e. backend_call b t ls (op_call op) = (Failure e, b) \<and>
            closed_step (s, b) (Act op) = (seq_step s (SeqMutate op (Failure e) (Success (backend_cart b ls))), b)"
      then obtain e where "closed_step (s, b) (Act op) =
          (seq_step s (SeqMutate op (Failure e) (Success (backend_cart b ls))), b)" by blast
      then show ?thesis
        using m True t ls c inv f by (simp add: mirrors_def mutation_atomic_def cart_abs_def del: seq_step.simps)
    next
      assume "\<exists>ls'. backend_call b t ls (op_call op) = accept t ls' b \<and> lines_wf (catalogue b) ls' \<and>
            closed_step (s, b) (Act op) =
              (seq_step s (SeqMutate op (fst (accept t ls' b)) (Success (backend_cart b ls'))), snd (accept t ls' b))"
      then obtain ls' where cs: "closed_step (s, b) (Act op) =
              (seq_step s (SeqMutate op (fst (accept t ls' b)) (Success (backend_cart b ls'))), snd (accept t ls' b))"
        by blast
      define s' where "s' = seq_step s (SeqMutate op (fst (accept t ls' b)) (Success (backend_cart b ls')))"
      have "cart s' = backend_cart b ls'" "cartCount s' = cart_count (snapshot_lines (catalogue b) ls')"
        "pending s' = []" "cs_authenticated s'" "cs_token s' = Some t"
        using True t f unfolding s'_def by (simp_all add: mutation_atomic_def cart_abs_def del: seq_step.simps)
      moreover have "backend_cart (snd (accept t ls' b)) ls' = backend_cart b ls'"
        by (rule backend_cart_catalogue) simp
      ultimately show ?thesis
        using inv t cs unfolding s'_def [symmetric] by (simp add: mirrors_def del: seq_step.simps)
    qed
  qed
qed

lemma mirrors_Refresh:
  assumes "cart_wf s" and "pending s = []" and "backend_wf b"
    and "if cs_authenticated s then \<exists>t ls. cs_token s = Some t \<and> t \<noteq> [] \<and> carts b t = Some ls
         else mirrors b s"
  shows "mirrors (snd (closed_step (s, b) RefreshAct)) (fst (closed_step (s, b) RefreshAct))"
proof -
  have inv: "cart_wf (fst (closed_step (s, b) RefreshAct))"
    using closed_step_inv [OF assms(1,3)] by blast
  note c = closed_step_Refresh [OF assms(1,2), of b]
  note f = seq_step_fields [OF assms(2)]
  show ?thesis
  proof (cases "cs_authenticated s")
    case True
    then obtain t ls where "cs_token s = Some t" "t \<noteq> []" "carts b t = Some ls" using assms(4) by auto
    then show ?thesis
      using True c inv f by (simp add: mirrors_def cart_abs_def backend_handle_def del: seq_step.simps)
  next
    case False
    then show ?thesis
      using assms(4) c inv f by (simp add: mirrors_def cart_abs_def backend_handle_def reject_def del: seq_step.simps)
  qed
qed

lemma mirrors_SignIn:
  assumes m: "mirrors b s" and bw: "backend_wf b" and ok: "action_ok b (SignIn t)"
  shows "mirrors (snd (closed_step (s, b) (SignIn t))) (fst (closed_step (s, b) (SignIn t)))"
proof -
  have w: "cart_wf s" and p: "pending s = []" using m by (simp_all add: mirrors_def)
  have t: "t \<noteq> []" and ls: "\<exists>ls. carts b t = Some ls" using ok by auto
  let ?s1 = "s\<lparr>cs_token := Some t, cs_authenticated := True\<rparr>"
  have c1: "cart_wf ?s1" using w by (simp add: cart_wf_def requests_wf_def)
  have c2: "pending ?s1 = []" using p by simp
  have c3: "if cs_authenticated ?s1 then \<exists>t' ls. cs_token ?s1 = Some t' \<and> t' \<noteq> [] \<and> carts b t' = Some ls
            else mirrors b ?s1"
    using t ls by simp
  have "mirrors (snd (closed_step (?s1, b) RefreshAct)) (fst (closed_step (?s1, b) RefreshAct))"
    using mirrors_Refresh [OF c1 c2 bw c3] .
  then show ?thesis using m closed_step_SignIn [OF p t, of b] by simp
qed

lemma mirrors_SignOut:
  assumes m: "mirrors b s" and bw: "backend_wf b"
  shows "mirrors (snd (closed_step (s, b) SignOut)) (fst (closed_step (s, b) SignOut))"
proof -
  have w: "cart_wf s" and p: "pending s = []" using m by (simp_all add: mirrors_def)
  have "cart_wf (fst (closed_step (s, b) SignOut))" using closed_step_inv [OF w bw] by blast
  then show ?thesis
    using m closed_step_SignOut [OF p, of b]
    by (auto simp: mirrors_def auth_change_def auth_effect_def Let_def)
qed

lemma mirrors_step:
  assumes "mirrors b s" and "backend_wf b" and "action_ok b a"
  shows "mirrors (snd (closed_step (s, b) a)) (fst (closed_step (s, b) a))"
proof (cases a)
  case RefreshAct
  have "cart_wf s" "pending s = []" using assms(1) by (simp_all add: mirrors_def)
  moreover have "if cs_authenticated s then \<exists>t ls. cs_token s = Some t \<and> t \<noteq> [] \<and> carts b t = Some ls
                 else mirrors b s"
    using assms(1) by (auto elim: mirrors_session)
  ultimately show ?thesis using RefreshAct mirrors_Refresh assms(2) by simp
qed (use assms mirrors_SignIn mirrors_SignOut mirrors_Act in simp_all)

lemma action_ok_dom: "dom (carts b') = dom (carts b) \<Longrightarrow> action_ok b' a = action_ok b a"
  by (cases a) (auto simp: dom_def)

lemma mirrors_closed_run:
  assumes "mirrors b s" and "backend_wf b" and "list_all (action_ok b) acts"
  shows "mirrors (snd (closed_run (s, b) acts)) (fst (closed_run (s, b) acts)) \<and>
         backend_wf (snd (closed_run (s, b) acts))"
  using assms
proof (induction acts arbitrary: s b)
  case Nil
  then show ?case by (simp add: closed_run_def)
next
  case (Cons a acts)
  obtain s1 b1 where c: "closed_step (s, b) a = (s1, b1)" by fastforce
  have w: "cart_wf s" using Cons.prems(1) by (simp add: mirrors_def)
  have inv: "backend_wf b1 \<and> dom (carts b1) = dom (carts b)"
    using closed_step_inv [OF w Cons.prems(2), of a] c by simp
  have "action_ok b a" using Cons.prems(3) by simp
  then have "mirrors b1 s1" using mirrors_step [OF Cons.prems(1,2)] c by fastforce
  moreover have "action_ok b1 = action_ok b"
    using inv action_ok_dom [of b1 b] by (intro ext) simp
  then have "list_all (action_ok b1) acts" using Cons.prems(3) by simp
  ultimately show ?case
    using Cons.IH [of b1 s1] inv c by (simp add: closed_run_def)
qed

lemma snapshot_quantities:
  "list_all (\<lambda>(p, q). cat p \<noteq> None) ls \<Longrightarrow> map quantity (snapshot_lines cat ls) = map snd ls"
  by (induction cat ls rule: snapshot_lines.induct) (auto split: option.split)

lemma lines_wf_count:
  assumes "lines_wf cat ls"
  shows "cart_count (snapshot_lines cat ls) = sum_list (map snd ls)"
proof -
  have "list_all (\<lambda>(p, q). cat p \<noteq> None) ls"
    using assms by (auto simp: lines_wf_def list_all_iff split: option.splits)
  then show ?thesis by (simp add: cart_count_eq_sum snapshot_quantities)
qed

lemma backend_wf_lines: "backend_wf b \<Longrightarrow> carts b t = Some ls \<Longrightarrow> lines_wf (catalogue b) ls"
  by (auto simp: backend_wf_def ran_def)

lemma server_count_snapshot:
  assumes "backend_wf b" and "carts b t = Some ls"
  shows "cart_count (snapshot_lines (catalogue b) ls) = sum_list (map snd ls)"
  using lines_wf_count [OF backend_wf_lines [OF assms]] .

lemma mirrors_mount: "mirrors b (cart_mount None False)"
  by (simp add: mirrors_def cart_mount_def auth_effect_def cart_init_def cart_wf_def requests_wf_def)

text \<open>
  [C9] End to end, the client mirrors the server: from a logged-out start, after any
  sequence of logins with credentials the service issued, logouts, cart operations and
  refreshes, each run until it settles against the service, nothing is in flight; when
  logged in the display is exactly the service's snapshot of the session's cart and the
  badge is the sum of the quantities the service holds, and when logged out the display is
  the empty cart with badge 0.
\<close>

theorem closed_loop_mirrors_server:
  assumes "backend_wf b" and "list_all (action_ok b) acts"
  shows "case closed_run (cart_mount None False, b) acts of (s, b') \<Rightarrow>
           pending s = [] \<and>
           (if cs_authenticated s
            then \<exists>t ls. cs_token s = Some t \<and> carts b' t = Some ls \<and> cart s = backend_cart b' ls \<and>
                        cartCount s = sum_list (map snd ls)
            else cart s = empty_cart \<and> cartCount s = 0)"
proof -
  obtain s b' where r: "closed_run (cart_mount None False, b) acts = (s, b')" by fastforce
  have m: "mirrors b' s" and bw: "backend_wf b'"
    using mirrors_closed_run [OF mirrors_mount assms] r by simp_all
  show ?thesis
  proof (cases "cs_authenticated s")
    case True
    obtain t ls where "cs_token s = Some t" "carts b' t = Some ls" "cart s = backend_cart b' ls"
      using mirrors_session [OF m True] by blast
    moreover have "cartCount s = cart_count (cart_items (cart s))" using m by (simp add: mirrors_def)
    ultimately show ?thesis
      using r True m server_count_snapshot [OF bw] by (auto simp: mirrors_def)
  next
    case False
    then show ?thesis using r m by (simp add: mirrors_def)
  qed
qed

theorem closed_loop_mirrors_server_witness:
  "backend_wf sample_backend \<and>
   list_all (action_ok sample_backend) [SignIn ''tok'', Act (UpdateCartItem ''p1'' 5), Act (AddToCart ''p2'' 1)] \<and>
   (case closed_run (cart_mount None False, sample_backend)
           [SignIn ''tok'', Act (UpdateCartItem ''p1'' 5), Act (AddToCart ''p2'' 1)] of (s, b') \<Rightarrow>
      pending s = [] \<and>
      (if cs_authenticated s
       then \<exists>t ls. cs_token s = Some t \<and> carts b' t = Some ls \<and> cart s = backend_cart b' ls \<and>
                   cartCount s = sum_list (map snd ls)
       else cart s = empty_cart \<and> cartCount s = 0)) \<and>
   cartCount (fst (closed_run (cart_mount None False, sample_backend)
     [SignIn ''tok'', Act (UpdateCartItem ''p1'' 5), Act (AddToCart ''p2'' 1)])) = 5 \<and>
   total_amount (cart (fst (closed_run (cart_mount None False, sample_backend)
     [SignIn ''tok'', Act (UpdateCartItem ''p1'' 5), Act (AddToCart ''p2'' 1)]))) = Some 50"
proof -
  have w: "backend_wf sample_backend" by (simp add: backend_wf_def lines_wf_def)
  have a: "list_all (action_ok sample_backend) [SignIn ''tok'', Act (UpdateCartItem ''p1'' 5), Act (AddToCart ''p2'' 1)]"
    by simp
  have "cartCount (fst (closed_run (cart_mount None False, sample_backend)
          [SignIn ''tok'', Act (UpdateCartItem ''p1'' 5), Act (AddToCart ''p2'' 1)])) = 5 \<and>
        total_amount (cart (fst (closed_run (cart_mount None False, sample_backend)
          [SignIn ''tok'', Act (UpdateCartItem ''p1'' 5), Act (AddToCart ''p2'' 1)]))) = Some 50"
    by (simp add: closed_loop_simps)
  then show ?thesis using closed_loop_mirrors_server [OF w a] w a by blast
qed

lemma closed_step_session:
  assumes "mirrors b s" and "cs_authenticated s" and "cs_token s = Some t" and "carts b t = Some ls"
  shows "closed_step (s, b) (Act op) =
           (case backend_call b t ls (op_call op) of (a1, b1) \<Rightarrow>
              (seq_step s (SeqMutate op a1 (fst (backend_handle b1 (Some t) GetCart))), b1))"
proof -
  have "cart_wf s" "pending s = []" using assms(1) by (simp_all add: mirrors_def)
  then show ?thesis
    using closed_step_Act [of s b op] assms(2-4)
    by (simp add: backend_handle_session case_prod_unfold del: seq_step.simps)
qed

lemma accept_GetCart:
  "backend_handle (snd (accept t ls b)) (Some t) GetCart = (Success (backend_cart b ls), snd (accept t ls b))"
  by (simp add: backend_handle_def accept_def Let_def backend_cart_def)

lemma accept_same: "carts b t = Some ls \<Longrightarrow> accept t ls b = (Success (backend_cart b ls), b)"
  by (simp add: accept_def fun_upd_idem)

lemma sum_put_line:
  "distinct (map fst ls) \<Longrightarrow> sum_list (map snd (put_line p v ls)) = sum_list (map snd ls) - qty_in ls p + v"
  by (induction ls) (auto simp: qty_in_def map_of_eq_None_iff)

lemma sample_facts:
  "mirrors sample_backend sample_session" "backend_wf sample_backend" "cs_authenticated sample_session"
  "cs_token sample_session = Some ''tok''"
  by (simp_all add: closed_loop_simps mirrors_def backend_wf_def lines_wf_def cart_wf_def requests_wf_def cart_items_def)

text \<open>
  [C10] In the closed loop, an \<open>addToCart(p, q)\<close> of a logged-in session is accepted exactly
  when the quantity is positive, the product exists and the merged quantity is within
  stock; the badge then rises by exactly \<open>q\<close> and the server's line holds the merged
  quantity, and otherwise the badge and the server's cart stay as they were; the call
  resolves to whether it was accepted.
\<close>

theorem closed_add_badge:
  assumes "mirrors b s" and "backend_wf b" and "cs_authenticated s"
    and "cs_token s = Some t" and "carts b t = Some ls"
  shows "case closed_step (s, b) (Act (AddToCart p q)) of (s', b') \<Rightarrow>
           (let ok = (1 \<le> q \<and> (case catalogue b p of None \<Rightarrow> False | Some (ps, st) \<Rightarrow> qty_in ls p + q \<le> st))
            in cartCount s' = cartCount s + (if ok then q else 0) \<and>
               results s' = results s @ [(AddToCart p q, ok)] \<and>
               carts b' t = Some (if ok then put_line p (qty_in ls p + q) ls else ls))"
proof -
  have p: "pending s = []" and cnt: "cartCount s = cart_count (cart_items (cart s))"
    using assms(1) by (simp_all add: mirrors_def)
  have c: "cart s = backend_cart b ls" using assms(1,3,4,5) by (simp add: mirrors_def)
  have lw: "lines_wf (catalogue b) ls" using backend_wf_lines [OF assms(2,5)] .
  note cs = closed_step_session [OF assms(1,3,4,5), of "AddToCart p q"]
  note f = seq_step_fields [OF p]
  show ?thesis
  proof (cases "1 \<le> q \<and> (case catalogue b p of None \<Rightarrow> False | Some (ps, st) \<Rightarrow> qty_in ls p + q \<le> st)")
    case True
    then obtain ps st where cp: "catalogue b p = Some (ps, st)" and q: "1 \<le> q" "qty_in ls p + q \<le> st"
      by (auto split: option.splits)
    let ?ls' = "put_line p (qty_in ls p + q) ls"
    have lw': "lines_wf (catalogue b) ?ls'"
      using lw q cp qty_in_nonneg [OF lw, of p] by (intro lines_wf_put_line) auto
    have e: "closed_step (s, b) (Act (AddToCart p q)) =
               (seq_step s (SeqMutate (AddToCart p q) (fst (accept t ?ls' b)) (Success (backend_cart b ?ls'))),
                snd (accept t ?ls' b))"
      using cs cp q by (simp add: accept_GetCart case_prod_unfold del: seq_step.simps)
    have "cart_count (snapshot_lines (catalogue b) ?ls') = cartCount s + q"
      using lines_wf_count [OF lw'] lines_wf_count [OF lw] sum_put_line [of ls p] lw cnt c
      by (simp add: lines_wf_def)
    then show ?thesis
      using e True f assms(3,4) by (simp add: mutation_atomic_def cart_abs_def del: seq_step.simps)
  next
    case False
    have "\<exists>e. backend_call b t ls (AddToCartCall p q) = (Failure e, b)"
      using False by (cases "catalogue b p") (auto simp: reject_def)
    then obtain e where r: "backend_call b t ls (AddToCartCall p q) = (Failure e, b)" ..
    then show ?thesis
      using cs False f assms(3,4,5) by (simp add: mutation_atomic_def cart_abs_def del: seq_step.simps)
  qed
qed

theorem closed_add_badge_witness:
  "mirrors sample_backend sample_session \<and> backend_wf sample_backend \<and> cs_authenticated sample_session \<and>
   cs_token sample_session = Some ''tok'' \<and> carts sample_backend ''tok'' = Some [(''p1'', 2)] \<and>
   cartCount (fst (closed_step (sample_session, sample_backend) (Act (AddToCart ''p1'' 3)))) = 5"
proof -
  note h = sample_facts
  have c: "carts sample_backend ''tok'' = Some [(''p1'', 2)]" by simp
  have "cartCount sample_session = 2" by (simp add: closed_loop_simps)
  then show ?thesis
    using closed_add_badge [OF h(1,2,3,4) c, where p = "''p1''" and q = 3] h
    by (simp add: case_prod_unfold qty_in_def Let_def)
qed


end
