(* ===== verification/System.thy ===== *)
theory System
  imports CartSync
begin

text \<open>
  The running application: the browser (\<open>localStorage\<close> and \<open>window.location\<close>), the
  session holder, the cart provider and the HTTP requests the client has put on the wire.
  The session holder \<open>contexts/AuthContext.js\<close> is imported by every page but is not part
  of the repository; it is modelled from its contract (spec section 4.1): a credential that
  is present or absent, set on login and cleared on logout, persisted to \<open>localStorage\<close>
  where the request interceptor of \<open>services/api.js\<close> reads it (spec section 9).  The
  cart provider re-renders with the holder's values (\<open>useAuth()\<close> in \<open>CartContext.js\<close>),
  every request it sends leaves through the interceptors, and the navigation the response
  interceptor starts on a 401 reloads the application: the in-memory state of the session
  and of the provider is lost and the requests in flight are abandoned.
\<close>

subsection \<open>Session holder (spec section 4.1)\<close>

record session =
  credential :: "token option"

text \<open>Created empty at process start.\<close>

definition session_empty :: session where
  "session_empty = \<lparr>credential = None\<rparr>"

definition is_authenticated :: "session \<Rightarrow> bool" where
  "is_authenticated ss \<longleftrightarrow> credential ss \<noteq> None"

definition set_credential :: "token \<Rightarrow> session \<Rightarrow> session" where
  "set_credential t ss = ss\<lparr>credential := Some t\<rparr>"

definition clear_credential :: "session \<Rightarrow> session" where
  "clear_credential ss = ss\<lparr>credential := None\<rparr>"

subsection \<open>The composed application\<close>

record system =
  sys_browser :: browser
  sys_session :: session
  sys_cart :: cart_state
  wire :: "http_request list"

text \<open>
  The HTTP requests a provider step sends: each new entry of its log \<open>sent\<close> goes through
  \<open>cartAPI\<close> with the token the call site passed, and then through the request
  interceptor, which reads the browser's storage at that moment.
\<close>

definition transmit :: "browser \<Rightarrow> cart_state \<Rightarrow> cart_state \<Rightarrow> http_request list" where
  "transmit b c c' = map (\<lambda>(n, t, cc). api_request b t (CartApi cc)) (drop (length (sent c)) (sent c'))"

definition provider_step :: "cart_event \<Rightarrow> system \<Rightarrow> system" where
  "provider_step ev a =
     (let c' = cart_step (sys_cart a) ev
      in a\<lparr>sys_cart := c', wire := wire a @ transmit (sys_browser a) (sys_cart a) c'\<rparr>)"

text \<open>\<open>CartProvider\<close> re-rendered with the values of \<open>useAuth()\<close>.\<close>

definition render_provider :: "system \<Rightarrow> system" where
  "render_provider a =
     provider_step (AuthChange (credential (sys_session a)) (is_authenticated (sys_session a))) a"

text \<open>A page load: a fresh session and a freshly mounted provider; the wire is the network's.\<close>

definition page_load :: "browser \<Rightarrow> http_request list \<Rightarrow> system" where
  "page_load b w =
     (let c = cart_mount (credential session_empty) (is_authenticated session_empty)
      in \<lparr>sys_browser = b, sys_session = session_empty, sys_cart = c,
          wire = w @ transmit b (cart_init None False) c\<rparr>)"

datatype sys_event =
    Login token
  | Logout
  | Call cart_op
  | RefreshCart
  | Respond nat api_result

text \<open>
  A response to a request in flight first passes the response interceptor; a 401 there
  clears the stored token and navigates to \<open>/login\<close>, which reloads the application.
  Any other response reaches the provider's continuation.
\<close>

fun sys_step :: "system \<Rightarrow> sys_event \<Rightarrow> system" where
  "sys_step a (Login t) =
     render_provider (a\<lparr>sys_browser := (sys_browser a)\<lparr>stored_token := Some t\<rparr>,
                        sys_session := set_credential t (sys_session a)\<rparr>)"
| "sys_step a Logout =
     render_provider (a\<lparr>sys_browser := (sys_browser a)\<lparr>stored_token := None\<rparr>,
                        sys_session := clear_credential (sys_session a)\<rparr>)"
| "sys_step a (Call op) = provider_step (Invoke op) a"
| "sys_step a RefreshCart = provider_step Refresh a"
| "sys_step a (Respond i r) =
     (case map_of (pending (sys_cart a)) i of
        None \<Rightarrow> a
      | Some k \<Rightarrow>
          (case r of
             Success d \<Rightarrow> provider_step (Deliver i r) a
           | Failure e \<Rightarrow>
               if status e = Some 401 then page_load (response_interceptor (sys_browser a) e) (wire a)
               else provider_step (Deliver i r) (a\<lparr>sys_browser := response_interceptor (sys_browser a) e\<rparr>)))"

definition sys_run :: "system \<Rightarrow> sys_event list \<Rightarrow> system" where
  "sys_run a es = foldl sys_step a es"

inductive sys_reachable :: "system \<Rightarrow> bool" where
  boot: "sys_reachable (page_load b [])"
| step: "sys_reachable a \<Longrightarrow> sys_reachable (sys_step a e)"

text \<open>Every successful cart payload has \<open>items\<close> (spec section 6).\<close>

fun sys_server_wf :: "sys_event \<Rightarrow> bool" where
  "sys_server_wf (Respond i (Success d)) = (items d \<noteq> None)"
| "sys_server_wf e = True"

text \<open>
  The provider reads the holder's values, and a present credential is the stored one.
\<close>

definition sys_inv :: "system \<Rightarrow> bool" where
  "sys_inv a \<longleftrightarrow>
     cs_token (sys_cart a) = credential (sys_session a) \<and>
     cs_authenticated (sys_cart a) = is_authenticated (sys_session a) \<and>
     (credential (sys_session a) \<noteq> None \<longrightarrow> stored_token (sys_browser a) = credential (sys_session a))"

subsection \<open>Frame lemmas\<close>

lemma provider_step_fields [simp]:
  "sys_browser (provider_step ev a) = sys_browser a"
  "sys_session (provider_step ev a) = sys_session a"
  "sys_cart (provider_step ev a) = cart_step (sys_cart a) ev"
  "wire (provider_step ev a) = wire a @ transmit (sys_browser a) (sys_cart a) (cart_step (sys_cart a) ev)"
  by (simp_all add: provider_step_def Let_def)

lemma page_load_fields [simp]:
  "sys_browser (page_load b w) = b"
  "sys_session (page_load b w) = session_empty"
  "sys_cart (page_load b w) = cart_mount None False"
  "wire (page_load b w) = w"
  by (simp_all add: page_load_def session_empty_def is_authenticated_def transmit_def
                    cart_mount_def auth_effect_def cart_init_def)

lemma session_fields [simp]:
  "credential session_empty = None"
  "credential (set_credential t ss) = Some t"
  "credential (clear_credential ss) = None"
  "is_authenticated ss \<longleftrightarrow> credential ss \<noteq> None"
  by (simp_all add: session_empty_def set_credential_def clear_credential_def is_authenticated_def)

lemma sys_run_simps [simp]:
  "sys_run a [] = a"
  "sys_run a (e # es) = sys_run (sys_step a e) es"
  by (simp_all add: sys_run_def)

lemma transmit_append:
  "sent c' = sent c @ xs \<Longrightarrow> transmit b c c' = map (\<lambda>(n, t, cc). api_request b t (CartApi cc)) xs"
  by (simp add: transmit_def)

text \<open>Only \<open>AuthChange\<close> writes the provider's auth values.\<close>

lemma resume_auth_fields [simp]:
  "cs_token (resume k r s) = cs_token s"
  "cs_authenticated (resume k r s) = cs_authenticated s"
  by (cases k; cases r; simp split: option.split)+

lemma auth_change_fields [simp]:
  "cs_token (auth_change t a s) = t"
  "cs_authenticated (auth_change t a s) = a"
  by (simp_all add: auth_change_def auth_effect_def Let_def)

lemma cart_mutation_auth_fields [simp]:
  "cs_token (cart_mutation op s) = cs_token s"
  "cs_authenticated (cart_mutation op s) = cs_authenticated s"
  by (simp_all add: cart_mutation_def)

lemma deliver_auth_fields [simp]:
  "cs_token (deliver i r s) = cs_token s"
  "cs_authenticated (deliver i r s) = cs_authenticated s"
  by (simp_all add: deliver_def split: option.split)

lemma cart_step_auth_fields:
  "(\<forall>t a. e \<noteq> AuthChange t a) \<Longrightarrow>
   cs_token (cart_step s e) = cs_token s \<and> cs_authenticated (cart_step s e) = cs_authenticated s"
  by (cases e) auto

subsection \<open>The provider reads the session\<close>

lemma sys_inv_page_load: "sys_inv (page_load b w)"
  by (simp add: sys_inv_def cart_mount_def auth_effect_def cart_init_def)

lemma sys_inv_provider_step:
  "sys_inv a \<Longrightarrow> \<forall>t x. ev \<noteq> AuthChange t x \<Longrightarrow> sys_inv (provider_step ev a)"
  using cart_step_auth_fields [of ev "sys_cart a"] by (simp add: sys_inv_def)

lemma sys_inv_step:
  assumes "sys_inv a"
  shows "sys_inv (sys_step a e)"
proof (cases e)
  case (Respond i r)
  have "sys_inv (a\<lparr>sys_browser := response_interceptor (sys_browser a) x\<rparr>)" if "status x \<noteq> Some 401" for x
    using assms that by (simp add: sys_inv_def response_interceptor_def)
  then show ?thesis
    using assms Respond
    by (auto simp: sys_inv_provider_step sys_inv_page_load split: option.split api_result.split)
qed (use assms in \<open>auto simp: sys_inv_def render_provider_def sys_inv_provider_step\<close>)

lemma sys_reachable_inv: "sys_reachable a \<Longrightarrow> sys_inv a"
  by (induction rule: sys_reachable.induct) (simp_all add: sys_inv_page_load sys_inv_step)

subsection \<open>What a logged-out provider sends\<close>

lemma unauth_step_sends_getcart:
  assumes "\<not> cs_authenticated s" and "\<forall>t. e \<noteq> AuthChange t True"
  shows "\<exists>xs. sent (cart_step s e) = sent s @ xs \<and> (\<forall>x \<in> set xs. snd (snd x) = GetCart)"
proof (cases e)
  case (Deliver i r)
  show ?thesis
  proof (cases "map_of (pending s) i")
    case (Some k)
    then show ?thesis
      using Deliver resume_sends_getcart [of k r "s\<lparr>pending := filter (\<lambda>p. fst p \<noteq> i) (pending s)\<rparr>"]
      by (simp add: deliver_def)
  qed (use Deliver in \<open>simp add: deliver_def\<close>)
qed (use assms in \<open>auto simp: cart_step_defs Let_def\<close>)

lemma getcart_requests:
  "\<forall>x \<in> set xs. snd (snd x) = GetCart \<Longrightarrow>
   \<forall>r \<in> set (map (\<lambda>(n, t, cc). api_request b t (CartApi cc)) xs). req_method r = GET \<and> req_path r = ''/api/cart''"
  by auto

lemma logged_out_step:
  assumes "\<not> cs_authenticated (sys_cart a)" and "\<not> is_authenticated (sys_session a)" and "\<forall>t. e \<noteq> Login t"
  shows "\<not> cs_authenticated (sys_cart (sys_step a e)) \<and> \<not> is_authenticated (sys_session (sys_step a e)) \<and>
         (\<exists>ws. wire (sys_step a e) = wire a @ ws \<and>
               (\<forall>r \<in> set ws. req_method r = GET \<and> req_path r = ''/api/cart''))"
proof -
  have upd: "\<not> cs_authenticated (sys_cart (provider_step ev a')) \<and>
             (\<exists>ws. wire (provider_step ev a') = wire a' @ ws \<and>
                   (\<forall>r \<in> set ws. req_method r = GET \<and> req_path r = ''/api/cart''))"
    if u: "\<not> cs_authenticated (sys_cart a')" "\<forall>t. ev \<noteq> AuthChange t True" for ev a'
  proof -
    obtain xs where x1: "sent (cart_step (sys_cart a') ev) = sent (sys_cart a') @ xs"
      and x2: "\<forall>x \<in> set xs. snd (snd x) = GetCart"
      using unauth_step_sends_getcart [OF u] by blast
    let ?ws = "map (\<lambda>(n, t, cc). api_request (sys_browser a') t (CartApi cc)) xs"
    have "transmit (sys_browser a') (sys_cart a') (cart_step (sys_cart a') ev) = ?ws"
      using x1 by (rule transmit_append)
    moreover have "\<forall>r \<in> set ?ws. req_method r = GET \<and> req_path r = ''/api/cart''"
      using x2 by (rule getcart_requests)
    moreover have "\<not> cs_authenticated (cart_step (sys_cart a') ev)"
      using u by (cases ev) simp_all
    ultimately show ?thesis
      by (intro conjI exI [of _ ?ws]) (simp_all only: provider_step_fields simp_thms)
  qed
  show ?thesis
  proof (cases e)
    case (Login t)
    then show ?thesis using assms(3) by simp
  next
    case Logout
    then show ?thesis
      using upd [of "a\<lparr>sys_browser := (sys_browser a)\<lparr>stored_token := None\<rparr>,
                      sys_session := clear_credential (sys_session a)\<rparr>" "AuthChange None False"] assms(1)
      by (simp add: render_provider_def)
  next
    case (Call op)
    then show ?thesis using upd [of a "Invoke op"] assms(1,2) by simp
  next
    case RefreshCart
    then show ?thesis using upd [of a Refresh] assms(1,2) by simp
  next
    case (Respond i r)
    show ?thesis
    proof (cases "map_of (pending (sys_cart a)) i")
      case None
      then show ?thesis using assms(1,2) Respond by simp
    next
      case (Some k)
      show ?thesis
      proof (cases r)
        case (Success d)
        then show ?thesis using Some Respond upd [of a "Deliver i r"] assms(1,2) by simp
      next
        case (Failure x)
        then show ?thesis
          using Some Respond upd [of "a\<lparr>sys_browser := response_interceptor (sys_browser a) x\<rparr>" "Deliver i r"]
            assms(1,2)
          by (simp add: cart_mount_def auth_effect_def cart_init_def)
      qed
    qed
  qed
qed

lemma logged_out_run:
  assumes "\<not> cs_authenticated (sys_cart a)" and "\<not> is_authenticated (sys_session a)"
    and "list_all (\<lambda>e. \<forall>t. e \<noteq> Login t) es"
  shows "\<exists>ws. wire (sys_run a es) = wire a @ ws \<and>
              (\<forall>r \<in> set ws. req_method r = GET \<and> req_path r = ''/api/cart'')"
  using assms
proof (induction es arbitrary: a)
  case Nil
  then show ?case by simp
next
  case (Cons e es)
  obtain ws where w1: "wire (sys_step a e) = wire a @ ws"
    and w2: "\<forall>r \<in> set ws. req_method r = GET \<and> req_path r = ''/api/cart''"
    and o1: "\<not> cs_authenticated (sys_cart (sys_step a e))"
    and o2: "\<not> is_authenticated (sys_session (sys_step a e))"
    using logged_out_step [of a e] Cons.prems by auto
  have "list_all (\<lambda>e. \<forall>t. e \<noteq> Login t) es" using Cons.prems(3) by simp
  then obtain ws' where "wire (sys_run (sys_step a e) es) = wire (sys_step a e) @ ws'"
    "\<forall>r \<in> set ws'. req_method r = GET \<and> req_path r = ''/api/cart''"
    using Cons.IH [OF o1 o2] by blast
  then show ?case using w1 w2
    by (intro exI [of _ "ws @ ws'"]) auto
qed

subsection \<open>The badge across the application\<close>

lemma sys_count_inv_step:
  assumes "count_inv (sys_cart a)" and "sys_server_wf e"
  shows "count_inv (sys_cart (sys_step a e))"
proof (cases e)
  case (Respond i r)
  have "count_inv (cart_step c (Deliver i r))" if "count_inv c" for c
    using count_inv_step [OF that, of "Deliver i r"] assms(2) Respond by (cases r) simp_all
  then show ?thesis
    using assms(1) Respond count_inv_mount
    by (auto split: option.split api_result.split)
next
  case (Login t)
  then show ?thesis
    using count_inv_step [OF assms(1), of "AuthChange (Some t) True"] by (simp add: render_provider_def)
next
  case Logout
  then show ?thesis
    using count_inv_step [OF assms(1), of "AuthChange None False"] by (simp add: render_provider_def)
next
  case (Call op)
  then show ?thesis using count_inv_step [OF assms(1), of "Invoke op"] by simp
next
  case RefreshCart
  then show ?thesis using count_inv_step [OF assms(1), of Refresh] by simp
qed

lemma sys_count_inv_run:
  "count_inv (sys_cart a) \<Longrightarrow> list_all sys_server_wf es \<Longrightarrow> count_inv (sys_cart (sys_run a es))"
  by (induction es arbitrary: a) (simp_all add: sys_count_inv_step)

end
