(* ===== verification/Router.thy ===== *)
theory Router
  imports Prelude
begin

text \<open>
  Routing and access control of the client, \<open>src/frontend/src/App.js\<close>: the route table
  of \<open>App\<close> as data (a path pattern, the guard wrapping the element, the page), the
  guards \<open>ProtectedRoute\<close> and \<open>PublicRoute\<close>, and what \<open>App\<close> renders for a location
  given the values of \<open>useAuth()\<close>.  The patterns of the table never overlap (proved
  below), so React Router's ranking picks the only matching route, and the catch-all
  \<open>*\<close> is taken when none matches; the model resolves a path by the first matching
  entry.  Paths are compared case-sensitively and empty segments are dropped.
\<close>

datatype seg = Lit string | Param

datatype guard = NoGuard | PublicOnly | Protected | AdminOnly

datatype page =
    HomePage | ProductsPage | ProductDetailPage string | LoginPage | RegisterPage
  | CartPage | CheckoutPage | ProfilePage | OrdersPage | WishlistPage
  | AdminDashboardPage | AdminProductsPage | AdminOrdersPage | AdminUsersPage
  | AdminAnalyticsPage | NotFoundPage

text \<open>The values \<open>useAuth()\<close> provides to the guards.\<close>

record auth_view =
  av_loading :: bool
  av_authenticated :: bool
  av_admin :: bool

datatype render = Spinner | Redirect string | Render page

fun match_segs :: "seg list \<Rightarrow> string list \<Rightarrow> string list option" where
  "match_segs [] [] = Some []"
| "match_segs (Lit l # ps) (x # xs) = (if l = x then match_segs ps xs else None)"
| "match_segs (Param # ps) (x # xs) = map_option (Cons x) (match_segs ps xs)"
| "match_segs ps xs = None"

text \<open>The \<open><Routes>\<close> of \<open>App\<close>, in source order; the element builds the page from the
  captured parameters.\<close>

definition route_table :: "(seg list \<times> guard \<times> (string list \<Rightarrow> page)) list" where
  "route_table =
     [([], NoGuard, \<lambda>_. HomePage),
      ([Lit ''products''], NoGuard, \<lambda>_. ProductsPage),
      ([Lit ''products'', Param], NoGuard, \<lambda>ps. ProductDetailPage (hd ps)),
      ([Lit ''login''], PublicOnly, \<lambda>_. LoginPage),
      ([Lit ''register''], PublicOnly, \<lambda>_. RegisterPage),
      ([Lit ''cart''], Protected, \<lambda>_. CartPage),
      ([Lit ''checkout''], Protected, \<lambda>_. CheckoutPage),
      ([Lit ''profile''], Protected, \<lambda>_. ProfilePage),
      ([Lit ''orders''], Protected, \<lambda>_. OrdersPage),
      ([Lit ''wishlist''], Protected, \<lambda>_. WishlistPage),
      ([Lit ''admin''], AdminOnly, \<lambda>_. AdminDashboardPage),
      ([Lit ''admin'', Lit ''products''], AdminOnly, \<lambda>_. AdminProductsPage),
      ([Lit ''admin'', Lit ''orders''], AdminOnly, \<lambda>_. AdminOrdersPage),
      ([Lit ''admin'', Lit ''users''], AdminOnly, \<lambda>_. AdminUsersPage),
      ([Lit ''admin'', Lit ''analytics''], AdminOnly, \<lambda>_. AdminAnalyticsPage)]"

fun resolve_in :: "(seg list \<times> guard \<times> (string list \<Rightarrow> page)) list \<Rightarrow> string list \<Rightarrow> guard \<times> page" where
  "resolve_in [] xs = (NoGuard, NotFoundPage)"
| "resolve_in ((pat, g, mk) # rs) xs =
     (case match_segs pat xs of Some ps \<Rightarrow> (g, mk ps) | None \<Rightarrow> resolve_in rs xs)"

definition path_segments :: "string \<Rightarrow> string list" where
  "path_segments p = filter (\<lambda>s. s \<noteq> []) (js_split (CHR ''/'') p)"

text \<open>\<open>ProtectedRoute\<close> (lines 29--45) and \<open>PublicRoute\<close> (lines 48--60).\<close>

definition protected_route :: "auth_view \<Rightarrow> bool \<Rightarrow> page \<Rightarrow> render" where
  "protected_route a admin_only p =
     (if av_loading a then Spinner
      else if \<not> av_authenticated a then Redirect ''/login''
      else if admin_only \<and> \<not> av_admin a then Redirect ''/''
      else Render p)"

definition public_route :: "auth_view \<Rightarrow> page \<Rightarrow> render" where
  "public_route a p =
     (if av_loading a then Spinner
      else if av_authenticated a then Redirect ''/''
      else Render p)"

fun guarded :: "auth_view \<Rightarrow> guard \<Rightarrow> page \<Rightarrow> render" where
  "guarded a NoGuard p = Render p"
| "guarded a PublicOnly p = public_route a p"
| "guarded a Protected p = protected_route a False p"
| "guarded a AdminOnly p = protected_route a True p"

text \<open>\<open>App\<close> (lines 62--152): a spinner while the session loads, else the routed element.\<close>

definition app_render :: "auth_view \<Rightarrow> string \<Rightarrow> render" where
  "app_render a path =
     (if av_loading a then Spinner
      else (case resolve_in route_table (path_segments path) of (g, p) \<Rightarrow> guarded a g p))"

fun is_admin_page :: "page \<Rightarrow> bool" where
  "is_admin_page AdminDashboardPage = True"
| "is_admin_page AdminProductsPage = True"
| "is_admin_page AdminOrdersPage = True"
| "is_admin_page AdminUsersPage = True"
| "is_admin_page AdminAnalyticsPage = True"
| "is_admin_page p = False"

fun is_account_page :: "page \<Rightarrow> bool" where
  "is_account_page CartPage = True"
| "is_account_page CheckoutPage = True"
| "is_account_page ProfilePage = True"
| "is_account_page OrdersPage = True"
| "is_account_page WishlistPage = True"
| "is_account_page p = False"

text \<open>Two patterns that no list of segments matches both.\<close>

fun segs_disjoint :: "seg list \<Rightarrow> seg list \<Rightarrow> bool" where
  "segs_disjoint [] [] = False"
| "segs_disjoint (Lit a # ps) (Lit b # qs) = (a \<noteq> b \<or> segs_disjoint ps qs)"
| "segs_disjoint (p # ps) (q # qs) = segs_disjoint ps qs"
| "segs_disjoint ps qs = True"

subsection \<open>Properties of the route table\<close>

lemma match_segs_length: "match_segs pat xs = Some ps \<Longrightarrow> length pat = length xs"
  by (induction pat xs arbitrary: ps rule: match_segs.induct) (auto split: if_splits)

lemma segs_disjoint_sound:
  "segs_disjoint p q \<Longrightarrow> match_segs p xs = None \<or> match_segs q xs = None"
proof (induction xs arbitrary: p q)
  case Nil
  then show ?case by (cases p; cases q) auto
next
  case (Cons x xs)
  note ih = Cons.IH and pr = Cons.prems
  show ?case
  proof (cases p)
    case (Cons s ps)
    note p = this
    show ?thesis
    proof (cases q)
      case (Cons t qs)
      with p pr ih [of ps qs] show ?thesis by (cases s; cases t) auto
    qed simp
  qed simp
qed

text \<open>The guard attached to each page in the table.\<close>

lemma route_table_guards:
  "\<forall>(pat, g, mk) \<in> set route_table. \<forall>ps.
     (is_admin_page (mk ps) \<longrightarrow> g = AdminOnly) \<and> (is_account_page (mk ps) \<longrightarrow> g = Protected)
     \<and> (mk ps = LoginPage \<or> mk ps = RegisterPage \<longrightarrow> g = PublicOnly)"
  by (simp add: route_table_def)

lemma resolve_in_from_table:
  "resolve_in rs xs = (g, p) \<Longrightarrow> p \<noteq> NotFoundPage \<Longrightarrow>
   \<exists>pat mk ps. (pat, g, mk) \<in> set rs \<and> p = mk ps"
  by (induction rs xs rule: resolve_in.induct) (auto split: option.splits)

lemma resolve_guard:
  assumes "resolve_in route_table xs = (g, p)"
  shows "(is_admin_page p \<longrightarrow> g = AdminOnly) \<and> (is_account_page p \<longrightarrow> g = Protected)
         \<and> (p = LoginPage \<or> p = RegisterPage \<longrightarrow> g = PublicOnly)"
proof (cases "p = NotFoundPage")
  case False
  then obtain pat mk ps where "(pat, g, mk) \<in> set route_table" and "p = mk ps"
    using resolve_in_from_table [OF assms] by blast
  then show ?thesis using route_table_guards by fastforce
qed simp

lemma render_guarded:
  "guarded a g q = Render p \<Longrightarrow> \<not> av_loading a \<Longrightarrow>
     p = q \<and> (g = AdminOnly \<longrightarrow> av_authenticated a \<and> av_admin a)
     \<and> (g = Protected \<longrightarrow> av_authenticated a) \<and> (g = PublicOnly \<longrightarrow> \<not> av_authenticated a)"
  by (cases g) (auto simp: protected_route_def public_route_def split: if_splits)

lemma app_render_Render:
  assumes "app_render a path = Render p"
  obtains g where "resolve_in route_table (path_segments path) = (g, p)" and "\<not> av_loading a"
    and "guarded a g p = Render p"
proof -
  obtain g q where r: "resolve_in route_table (path_segments path) = (g, q)"
    by (cases "resolve_in route_table (path_segments path)")
  have nl: "\<not> av_loading a" using assms by (auto simp: app_render_def)
  then have gq: "guarded a g q = Render p" using assms r by (simp add: app_render_def)
  then have "p = q" using render_guarded [OF gq nl] by simp
  then show ?thesis using that r nl gq by simp
qed

lemma route_patterns_disjoint:
  "\<forall>p \<in> fst ` set route_table. \<forall>q \<in> fst ` set route_table. p \<noteq> q \<longrightarrow> segs_disjoint p q"
  by (simp add: route_table_def)

subsection \<open>Access control\<close>

text \<open>
  [C23] Access control of \<open>App\<close>: whatever the location, an admin page is rendered only for an
  authenticated administrator, an account page (cart, checkout, profile, orders, wishlist)
  only for an authenticated user, and the login and register pages only for a visitor who
  is not authenticated.
\<close>

theorem rendered_page_access:
  assumes "app_render a path = Render p"
  shows "(is_admin_page p \<longrightarrow> av_authenticated a \<and> av_admin a) \<and>
         (is_account_page p \<longrightarrow> av_authenticated a) \<and>
         (p = LoginPage \<or> p = RegisterPage \<longrightarrow> \<not> av_authenticated a)"
proof -
  obtain g where r: "resolve_in route_table (path_segments path) = (g, p)"
    and nl: "\<not> av_loading a" and gp: "guarded a g p = Render p"
    using app_render_Render [OF assms] by blast
  show ?thesis using resolve_guard [OF r] render_guarded [OF gp nl] by blast
qed

theorem rendered_page_access_witness:
  "app_render \<lparr>av_loading = False, av_authenticated = True, av_admin = True\<rparr> ''/admin/users''
     = Render AdminUsersPage \<and>
   av_admin \<lparr>av_loading = False, av_authenticated = True, av_admin = True\<rparr>"
proof -
  have h: "app_render \<lparr>av_loading = False, av_authenticated = True, av_admin = True\<rparr> ''/admin/users''
             = Render AdminUsersPage"
    by (simp add: app_render_def path_segments_def route_table_def protected_route_def)
  show ?thesis using rendered_page_access [OF h] h by simp
qed

text \<open>
  [C33] Every redirect of a guard settles in one step: rendering the redirect's target with
  the same session renders a page, so the guards never redirect in a loop.
\<close>

theorem redirect_settles:
  assumes "app_render a path = Redirect q"
  shows "\<exists>p. app_render a q = Render p"
proof -
  obtain g p where r: "resolve_in route_table (path_segments path) = (g, p)"
    by (cases "resolve_in route_table (path_segments path)")
  have "\<not> av_loading a" and gq: "guarded a g p = Redirect q"
    using assms r by (auto simp: app_render_def split: if_splits)
  then have "(q = ''/login'' \<and> \<not> av_authenticated a) \<or> q = ''/''"
    by (cases g) (auto simp: protected_route_def public_route_def split: if_splits)
  then show ?thesis
    using \<open>\<not> av_loading a\<close>
    by (auto simp: app_render_def path_segments_def route_table_def public_route_def)
qed

theorem redirect_settles_witness:
  "app_render \<lparr>av_loading = False, av_authenticated = False, av_admin = False\<rparr> ''/cart'' = Redirect ''/login'' \<and>
   app_render \<lparr>av_loading = False, av_authenticated = False, av_admin = False\<rparr> ''/login'' = Render LoginPage"
proof -
  have h: "app_render \<lparr>av_loading = False, av_authenticated = False, av_admin = False\<rparr> ''/cart'' = Redirect ''/login''"
    by (simp add: app_render_def path_segments_def route_table_def protected_route_def)
  obtain p where "app_render \<lparr>av_loading = False, av_authenticated = False, av_admin = False\<rparr> ''/login'' = Render p"
    using redirect_settles [OF h] by blast
  then show ?thesis
    using h by (simp add: app_render_def path_segments_def route_table_def public_route_def)
qed

end
