(* ===== verification/CartPage.thy ===== *)
theory CartPage
  imports CartSync
begin

text \<open>
  The two pages that consume the cart synchronizer: \<open>src/frontend/src/pages/Cart.js\<close>
  (what it renders from the provider's state, its order summary, and its handlers, which call
  the synchronizer's mutations) and \<open>src/frontend/src/pages/Checkout.js\<close> (its totals, the
  render guards, and \<open>handleSubmit\<close>, which posts the order and then calls \<open>clearCart\<close>).
  The pages read \<open>isAuthenticated\<close> from the same \<open>useAuth()\<close> as the provider in the same
  render, so the model takes it from \<open>cs_authenticated\<close>.  Money is exact (\<open>rat\<close>):
  \<open>5.99\<close> is \<open>599/100\<close>, the tax rate \<open>0.08\<close> is \<open>8/100\<close>, and the \<open>toFixed(2)\<close>
  formatting of the amounts is in \<open>Display\<close>.
\<close>

subsection \<open>Order summary\<close>

record order_summary =
  sum_subtotal :: money
  sum_shipping :: "money option"
  sum_tax :: money
  sum_total :: money
  sum_free_gap :: "money option"

text \<open>
  The summary panel of \<open>Cart.js\<close> (lines 163--211): \<open>Free\<close> shipping (\<open>None\<close>) from
  \$50 on, else \$5.99; tax 8\%; the total written out inline; the banner
  \<open>Add $(50 - totalAmount) more\<close> below \$50.
\<close>

definition cart_summary :: "money \<Rightarrow> order_summary" where
  "cart_summary t =
     \<lparr>sum_subtotal = t,
      sum_shipping = (if t \<ge> 50 then None else Some (599 / 100)),
      sum_tax = t * (8 / 100),
      sum_total = t + (if t \<ge> 50 then 0 else 599 / 100) + t * (8 / 100),
      sum_free_gap = (if t < 50 then Some (50 - t) else None)\<rparr>"

text \<open>\<open>Checkout.js\<close> lines 20--23.\<close>

definition checkout_shipping :: "money \<Rightarrow> money" where
  "checkout_shipping subtotal = (if subtotal \<ge> 50 then 0 else 599 / 100)"

definition checkout_tax :: "money \<Rightarrow> money" where
  "checkout_tax subtotal = subtotal * (8 / 100)"

definition checkout_total :: "money \<Rightarrow> money" where
  "checkout_total subtotal = subtotal + checkout_shipping subtotal + checkout_tax subtotal"

text \<open>\<open>cart.total_amount || 0\<close> (\<open>Cart.js\<close> line 36, \<open>Checkout.js\<close> line 20).\<close>

definition cart_subtotal :: "cart \<Rightarrow> money" where
  "cart_subtotal c = js_or_num (total_amount c) 0"

subsection \<open>The cart page\<close>

datatype cart_view =
    LoginPrompt
  | CartSpinner
  | EmptyCartView
  | CartListView "cart_line list" order_summary

text \<open>The render of \<open>Cart\<close> (lines 8--218): its three early returns, then the list.\<close>

definition cart_page_view :: "cart_state \<Rightarrow> cart_view" where
  "cart_page_view s =
     (if \<not> cs_authenticated s then LoginPrompt
      else if loading s then CartSpinner
      else if cart_items (cart s) = [] then EmptyCartView
      else CartListView (cart_items (cart s)) (cart_summary (cart_subtotal (cart s))))"

text \<open>\<open>handleQuantityChange\<close> (lines 54--57): below 1 nothing is sent.\<close>

definition handle_quantity_change :: "product_id \<Rightarrow> int \<Rightarrow> cart_op option" where
  "handle_quantity_change p n = (if n < 1 then None else Some (UpdateCartItem p n))"

text \<open>The buttons of a line (lines 121--148) and \<open>Clear Cart\<close> after \<open>window.confirm\<close>.\<close>

datatype cart_page_event =
    ClickMinus cart_line
  | ClickPlus cart_line
  | ClickRemove cart_line
  | ClickClear bool

fun cart_page_action :: "cart_page_event \<Rightarrow> cart_op option" where
  "cart_page_action (ClickMinus l) = handle_quantity_change (product_id l) (quantity l - 1)"
| "cart_page_action (ClickPlus l) = handle_quantity_change (product_id l) (quantity l + 1)"
| "cart_page_action (ClickRemove l) = Some (RemoveFromCart (product_id l))"
| "cart_page_action (ClickClear confirmed) = (if confirmed then Some ClearCart else None)"

definition cart_page_step :: "cart_state \<Rightarrow> cart_page_event \<Rightarrow> cart_state" where
  "cart_page_step s ev =
     (case cart_page_action ev of None \<Rightarrow> s | Some op \<Rightarrow> cart_step s (Invoke op))"

subsection \<open>The checkout page\<close>

text \<open>
  \<open>String.prototype.trim\<close> removes white space and line terminators at both ends; on the
  byte-level strings of the model these are tab, line feed, vertical tab, form feed,
  carriage return and space (multi-byte Unicode spaces are not modelled).
\<close>

definition js_whitespace :: "char \<Rightarrow> bool" where
  "js_whitespace c \<longleftrightarrow> c \<in> {CHR 0x09, CHR 0x0A, CHR 0x0B, CHR 0x0C, CHR 0x0D, CHR 0x20}"

definition js_trim :: "string \<Rightarrow> string" where
  "js_trim s = rev (dropWhile js_whitespace (rev (dropWhile js_whitespace s)))"

record checkout_form =
  shipping_address :: string
  payment_method :: string

text \<open>
  \<open>handleChange\<close> (lines 25--30): the input's \<open>name\<close> selects the field.  Only the
  address textarea and the payment radio buttons call it.
\<close>

definition checkout_handle_change :: "checkout_form \<Rightarrow> string \<Rightarrow> string \<Rightarrow> checkout_form" where
  "checkout_handle_change f name v =
     (if name = ''shipping_address'' then f\<lparr>shipping_address := v\<rparr>
      else if name = ''payment_method'' then f\<lparr>payment_method := v\<rparr> else f)"

record checkout_state =
  co_loading :: bool
  co_toasts :: "toast list"
  co_location :: "string option"
  co_sent :: "(token option \<times> api_call) list"

datatype order_result = OrderResponse bool | OrderFailed http_error

text \<open>
  \<open>handleSubmit\<close> (lines 32--58) up to its \<open>await\<close>: the address check, then
  \<open>setLoading(true)\<close> and \<open>ordersAPI.createOrder(localStorage.getItem('token'), formData)\<close>.
\<close>

definition checkout_submit :: "token option \<Rightarrow> checkout_form \<Rightarrow> checkout_state \<Rightarrow> checkout_state" where
  "checkout_submit stored f c =
     (if js_trim (shipping_address f) = []
      then c\<lparr>co_toasts := co_toasts c @ [ToastError ''Please enter a shipping address'']\<rparr>
      else c\<lparr>co_loading := True, co_sent := co_sent c @ [(stored, CreateOrder)]\<rparr>)"

text \<open>
  The rest of \<open>handleSubmit\<close>: when \<open>response.data\<close> is truthy, the success toast,
  \<open>clearCart()\<close> (not awaited: its synchronous part runs in the provider) and
  \<open>navigate('/orders')\<close>; on an error the toast with the server's \<open>detail\<close>; always
  \<open>setLoading(false)\<close>.
\<close>

fun checkout_settle :: "order_result \<Rightarrow> checkout_state \<times> cart_state \<Rightarrow> checkout_state \<times> cart_state" where
  "checkout_settle (OrderResponse True) (c, s) =
     (c\<lparr>co_toasts := co_toasts c @ [ToastSuccess ''Order placed successfully!''],
        co_location := Some ''/orders'', co_loading := False\<rparr>,
      cart_step s (Invoke ClearCart))"
| "checkout_settle (OrderResponse False) (c, s) = (c\<lparr>co_loading := False\<rparr>, s)"
| "checkout_settle (OrderFailed e) (c, s) =
     (c\<lparr>co_toasts := co_toasts c @ [ToastError (js_or_str (detail e) ''Failed to place order'')],
        co_loading := False\<rparr>, s)"

datatype checkout_view = GoTo string | CheckoutForm "cart_line list" money money money money

text \<open>The render guards of \<open>Checkout\<close> (lines 60--68) and its summary (lines 19--23).\<close>

definition checkout_page_view :: "cart_state \<Rightarrow> checkout_view" where
  "checkout_page_view s =
     (if \<not> cs_authenticated s then GoTo ''/login''
      else if cart_items (cart s) = [] then GoTo ''/cart''
      else (let t = cart_subtotal (cart s)
            in CheckoutForm (cart_items (cart s)) t (checkout_shipping t) (checkout_tax t) (checkout_total t)))"

subsection \<open>Lemmas on the summary and on trimming\<close>

lemma checkout_shipping_zero_iff: "checkout_shipping t = 0 \<longleftrightarrow> 50 \<le> t"
  by (simp add: checkout_shipping_def)

lemma cart_summary_checkout:
  "sum_total (cart_summary t) = checkout_total t"
  "sum_tax (cart_summary t) = checkout_tax t"
  "sum_shipping (cart_summary t) = None \<longleftrightarrow> checkout_shipping t = 0"
  "sum_subtotal (cart_summary t) = t"
  by (simp_all add: cart_summary_def checkout_total_def checkout_shipping_def checkout_tax_def)

lemma dropWhile_all_conv: "dropWhile P xs = [] \<longleftrightarrow> (\<forall>x \<in> set xs. P x)"
  by (induction xs) auto

lemma dropWhile_all_P: "(\<forall>x \<in> set (dropWhile P xs). P x) \<longleftrightarrow> dropWhile P xs = []"
  by (induction xs) auto

lemma js_trim_Nil_iff: "js_trim s = [] \<longleftrightarrow> (\<forall>c \<in> set s. js_whitespace c)"
proof -
  have "js_trim s = [] \<longleftrightarrow> (\<forall>c \<in> set (dropWhile js_whitespace s). js_whitespace c)"
    by (simp add: js_trim_def dropWhile_all_conv)
  then show ?thesis by (simp add: dropWhile_all_P dropWhile_all_conv)
qed

subsection \<open>Properties of the pages\<close>

text \<open>
  [C27] Whenever the cart page lists the cart, the checkout page shows the same lines,
  subtotal, tax and total, and its shipping is 0 exactly when the cart page says
  \<open>Free\<close>: the inline total of \<open>Cart.js\<close> and the staged total of \<open>Checkout.js\<close> agree.
\<close>

theorem cart_and_checkout_agree:
  assumes "cart_page_view s = CartListView xs sm"
  shows "\<exists>sh. checkout_page_view s = CheckoutForm xs (sum_subtotal sm) sh (sum_tax sm) (sum_total sm)
              \<and> (sum_shipping sm = None \<longleftrightarrow> sh = 0)"
  using assms
  by (auto simp: cart_page_view_def checkout_page_view_def cart_summary_checkout Let_def split: if_splits)

theorem cart_and_checkout_agree_witness:
  "cart_page_view (cart_step (cart_mount (Some ''tok'') True) (Deliver 0 (Success cart_p1)))
     = CartListView [\<lparr>product_id = ''p1'', quantity = 2, product = mug, line_total = 20\<rparr>] (cart_summary 20) \<and>
   (\<exists>sh. checkout_page_view (cart_step (cart_mount (Some ''tok'') True) (Deliver 0 (Success cart_p1)))
     = CheckoutForm [\<lparr>product_id = ''p1'', quantity = 2, product = mug, line_total = 20\<rparr>] 20 sh
         (8 / 5) (2759 / 100))"
proof -
  have v: "cart_page_view (cart_step (cart_mount (Some ''tok'') True) (Deliver 0 (Success cart_p1)))
     = CartListView [\<lparr>product_id = ''p1'', quantity = 2, product = mug, line_total = 20\<rparr>] (cart_summary 20)"
    by (simp add: cart_page_view_def cart_mount_def auth_effect_def cart_init_def deliver_def
        cart_items_def cart_subtotal_def)
  show ?thesis
    using cart_and_checkout_agree [OF v] v by (auto simp: cart_summary_def)
qed

text \<open>
  [C28] Bounds of the order total for a non-negative subtotal: it is at least the subtotal
  and at most the subtotal with 8\% tax plus the \$5.99 shipping, and shipping is free
  exactly from \$50 on.
\<close>

theorem order_total_bounds:
  assumes "0 \<le> t"
  shows "t \<le> checkout_total t \<and> checkout_total t \<le> t * (108 / 100) + 599 / 100 \<and>
         (checkout_shipping t = 0 \<longleftrightarrow> 50 \<le> t)"
  using assms by (auto simp: checkout_total_def checkout_shipping_def checkout_tax_def)

theorem order_total_bounds_witness:
  "0 \<le> (20::rat) \<and> checkout_total 20 = 2759 / 100"
  using order_total_bounds [of 20] by (simp add: checkout_total_def checkout_shipping_def checkout_tax_def)

text \<open>
  The free-shipping banner asks for a positive amount, and a subtotal raised by exactly
  that amount ships free.
\<close>

lemma free_shipping_banner:
  assumes "sum_free_gap (cart_summary t) = Some g"
  shows "0 < g \<and> checkout_shipping (t + g) = 0"
  using assms by (auto simp: cart_summary_def checkout_shipping_def split: if_splits)

text \<open>
  [C24] The cart page never sends a quantity below 1: every \<open>updateCartItem\<close> request it
  causes carries a quantity of at least 1.
\<close>

theorem cart_page_quantity_positive:
  assumes "(n, t, UpdateCartItemCall p q) \<in> set (sent (cart_page_step s ev))"
    and "(n, t, UpdateCartItemCall p q) \<notin> set (sent s)"
  shows "1 \<le> q"
  using assms
  by (cases ev) (auto simp: cart_page_step_def handle_quantity_change_def cart_mutation_def
                  split: if_splits)

theorem cart_page_quantity_positive_witness:
  "(0, None, UpdateCartItemCall ''p1'' 3) \<in> set (sent (cart_page_step (cart_mount None True)
      (ClickPlus \<lparr>product_id = ''p1'', quantity = 2, product = mug, line_total = 20\<rparr>))) \<and>
   (0, None, UpdateCartItemCall ''p1'' 3) \<notin> set (sent (cart_mount None True))"
proof -
  have a: "(0, None, UpdateCartItemCall ''p1'' 3) \<in> set (sent (cart_page_step (cart_mount None True)
      (ClickPlus \<lparr>product_id = ''p1'', quantity = 2, product = mug, line_total = 20\<rparr>)))"
    by (simp add: cart_page_step_def handle_quantity_change_def cart_mutation_def cart_mount_def
        auth_effect_def cart_init_def)
  have b: "(0, None, UpdateCartItemCall ''p1'' 3) \<notin> set (sent (cart_mount None True))"
    by (simp add: cart_mount_def auth_effect_def cart_init_def)
  have "(1::int) \<le> 3" using cart_page_quantity_positive [OF a b] .
  then show ?thesis using a b by simp
qed

text \<open>
  Pressing minus on a line of quantity 1 (or less) is a local no-op: the provider's
  state is unchanged and no request is sent.
\<close>

lemma minus_at_one_noop:
  assumes "quantity l \<le> 1"
  shows "cart_page_step s (ClickMinus l) = s"
  using assms by (simp add: cart_page_step_def handle_quantity_change_def)

text \<open>
  [C25] Checkout submits an order exactly when the shipping address has a character that is
  not white space; a blank or all-white-space address sends nothing.
\<close>

theorem checkout_requires_address:
  "co_sent (checkout_submit t f c) \<noteq> co_sent c \<longleftrightarrow>
     (\<exists>ch \<in> set (shipping_address f). \<not> js_whitespace ch)"
  by (auto simp: checkout_submit_def js_trim_Nil_iff)

theorem checkout_requires_address_witness:
  "co_sent (checkout_submit None \<lparr>shipping_address = '' \<newline> '', payment_method = ''paypal''\<rparr>
      \<lparr>co_loading = False, co_toasts = [], co_location = None, co_sent = []\<rparr>) = [] \<and>
   (\<exists>ch \<in> set ''1 Main St''. \<not> js_whitespace ch)"
proof -
  have "\<not> (\<exists>ch \<in> set '' \<newline> ''. \<not> js_whitespace ch)"
    by (simp add: js_whitespace_def)
  then have "co_sent (checkout_submit None \<lparr>shipping_address = '' \<newline> '', payment_method = ''paypal''\<rparr>
      \<lparr>co_loading = False, co_toasts = [], co_location = None, co_sent = []\<rparr>) = []"
    using checkout_requires_address [of None "\<lparr>shipping_address = '' \<newline> '', payment_method = ''paypal''\<rparr>"
        "\<lparr>co_loading = False, co_toasts = [], co_location = None, co_sent = []\<rparr>"]
    by simp
  moreover have "\<exists>ch \<in> set ''1 Main St''. \<not> js_whitespace ch"
    by (simp add: js_whitespace_def)
  ultimately show ?thesis by simp
qed

text \<open>
  [C26] When the order is created, checkout navigates to the orders page and the cart
  synchronizer sends exactly one \<open>clearCart\<close> request with the provider's token.
\<close>

theorem order_placed_clears_cart:
  assumes "cs_authenticated s" and "checkout_settle (OrderResponse True) (c, s) = (c', s')"
  shows "co_location c' = Some ''/orders'' \<and> \<not> co_loading c' \<and>
         sent s' = sent s @ [(next_req s, cs_token s, ClearCartCall)]"
  using assms by (auto simp: cart_mutation_def)

theorem order_placed_clears_cart_witness:
  "cs_authenticated (cart_mount None True) \<and>
   sent (snd (checkout_settle (OrderResponse True)
     (\<lparr>co_loading = True, co_toasts = [], co_location = None, co_sent = [(None, CreateOrder)]\<rparr>,
      cart_mount None True))) = [(0, None, ClearCartCall)]"
proof -
  have a: "cs_authenticated (cart_mount None True)" by (simp add: cart_mount_def auth_effect_def cart_init_def)
  obtain c' s' where e: "checkout_settle (OrderResponse True)
     (\<lparr>co_loading = True, co_toasts = [], co_location = None, co_sent = [(None, CreateOrder)]\<rparr>,
      cart_mount None True) = (c', s')"
    by (metis surj_pair)
  have "sent s' = sent (cart_mount None True) @ [(next_req (cart_mount None True), cs_token (cart_mount None True), ClearCartCall)]"
    using order_placed_clears_cart [OF a e] by simp
  then show ?thesis using a e by (simp add: cart_mount_def auth_effect_def cart_init_def)
qed

end
