(* ===== verification/Display.thy ===== *)
theory Display
  imports CartPage
begin

text \<open>
  The money the cart and checkout pages print.  Every amount on
  \<open>src/frontend/src/pages/Cart.js\<close> and \<open>src/frontend/src/pages/Checkout.js\<close> is written
  with \<open>Number.prototype.toFixed(2)\<close> behind a dollar sign: the line totals, the subtotal,
  the tax, the total and the free-shipping hint.  \<open>to_fixed2\<close> is the algorithm of the
  ECMAScript standard for two fraction digits on the exact value of the amount (amounts
  below \<open>10^21\<close>): the sign, then the integer \<open>n\<close> nearest to \<open>100 * |x|\<close>, the larger
  one on a tie, printed with at least three digits and a point before the last two.
  \<open>decimal_value\<close> reads such a string back, as the shopper does.
\<close>

subsection \<open>\<open>toFixed(2)\<close>\<close>

text \<open>Steps 9 and 10 of \<open>Number.prototype.toFixed\<close> for two digits: the digits of \<open>n\<close>,
  padded with zeros to three, with the point inserted before the last two.\<close>

definition fixed_point :: "nat \<Rightarrow> string" where
  "fixed_point n =
     (let m = nat_str n;
          m' = (if length m \<le> 2 then replicate (3 - length m) CHR ''0'' @ m else m)
      in take (length m' - 2) m' @ CHR ''.'' # drop (length m' - 2) m')"

definition to_fixed2 :: "money \<Rightarrow> string" where
  "to_fixed2 x = (if x < 0 then ''-'' else []) @ fixed_point (nat (round (\<bar>x\<bar> * 100)))"

text \<open>The dollar amount \<open>${x.toFixed(2)}\<close> of the JSX.\<close>

definition dollars :: "money \<Rightarrow> string" where
  "dollars x = CHR ''$'' # to_fixed2 x"

subsection \<open>Reading a printed amount\<close>

definition decimal_value :: "string \<Rightarrow> rat" where
  "decimal_value s =
     (let neg = (take 1 s = ''-'');
          r = (if neg then drop 1 s else s);
          a = takeWhile (\<lambda>c. c \<noteq> CHR ''.'') r;
          b = drop 1 (dropWhile (\<lambda>c. c \<noteq> CHR ''.'') r);
          v = of_nat (digits_value a) + of_nat (digits_value b) / 10 ^ length b
      in if neg then - v else v)"

text \<open>A summary row's amount: \<open>Free\<close> is nothing, otherwise the dollars after the sign.\<close>

definition row_amount :: "string \<Rightarrow> rat" where
  "row_amount s = (if s = ''Free'' then 0 else decimal_value (drop 1 s))"

subsection \<open>What the pages print\<close>

text \<open>A line's total, \<open>${item.total.toFixed(2)}\<close> (\<open>Cart.js\<close> lines 139--141,
  \<open>Checkout.js\<close> lines 198--200).\<close>

definition line_total_text :: "cart_line \<Rightarrow> string" where
  "line_total_text l = dollars (line_total l)"

text \<open>The \<open>Order Summary\<close> rows of \<open>Cart.js\<close> (lines 163--186): the shipping row is the
  literal \<open>'$5.99'\<close> below \$50.\<close>

definition cart_summary_rows :: "order_summary \<Rightarrow> (string \<times> string) list" where
  "cart_summary_rows sm =
     [(''Subtotal'', dollars (sum_subtotal sm)),
      (''Shipping'', case sum_shipping sm of None \<Rightarrow> ''Free'' | Some _ \<Rightarrow> ''$5.99''),
      (''Tax'', dollars (sum_tax sm)),
      (''Total'', dollars (sum_total sm))]"

text \<open>The free-shipping hint below the summary (\<open>Cart.js\<close> lines 205--211).\<close>

definition cart_free_hint :: "order_summary \<Rightarrow> string option" where
  "cart_free_hint sm =
     map_option (\<lambda>g. ''Add '' @ dollars g @ '' more to qualify for free shipping!'') (sum_free_gap sm)"

text \<open>The totals of \<open>Checkout.js\<close> (lines 205--225): the shipping row prints the staged
  \<open>shipping\<close> value unless it is 0.\<close>

definition checkout_summary_rows :: "money \<Rightarrow> money \<Rightarrow> money \<Rightarrow> money \<Rightarrow> (string \<times> string) list" where
  "checkout_summary_rows subtotal shipping tax tot =
     [(''Subtotal'', dollars subtotal),
      (''Shipping'', if shipping = 0 then ''Free'' else dollars shipping),
      (''Tax'', dollars tax),
      (''Total'', dollars tot)]"

text \<open>The money each page prints for a provider state: the line totals and the summary
  rows, when the page lists the cart.\<close>

definition cart_page_text :: "cart_state \<Rightarrow> (string list \<times> (string \<times> string) list) option" where
  "cart_page_text s =
     (case cart_page_view s of
        CartListView xs sm \<Rightarrow> Some (map line_total_text xs, cart_summary_rows sm)
      | _ \<Rightarrow> None)"

definition checkout_page_text :: "cart_state \<Rightarrow> (string list \<times> (string \<times> string) list) option" where
  "checkout_page_text s =
     (case checkout_page_view s of
        CheckoutForm xs t sh tx tot \<Rightarrow> Some (map line_total_text xs, checkout_summary_rows t sh tx tot)
      | GoTo _ \<Rightarrow> None)"

subsection \<open>The printer\<close>

definition digit_char :: "nat \<Rightarrow> char" where
  "digit_char d = char_of (48 + d)"

lemma digit_chars [simp]:
  "char_of (48::nat) = CHR ''0''" "char_of (49::nat) = CHR ''1''" "char_of (50::nat) = CHR ''2''"
  "char_of (51::nat) = CHR ''3''" "char_of (52::nat) = CHR ''4''" "char_of (53::nat) = CHR ''5''"
  "char_of (54::nat) = CHR ''6''" "char_of (55::nat) = CHR ''7''" "char_of (56::nat) = CHR ''8''"
  "char_of (57::nat) = CHR ''9''"
  by (rule of_char_eqI [where 'a = nat], simp)+

lemma fixed_point_eq:
  "fixed_point n = nat_str (n div 100) @ [CHR ''.'', digit_char (n div 10 mod 10), digit_char (n mod 10)]"
proof (cases "n < 100")
  case True
  then show ?thesis
    by (cases "n < 10")
       (simp_all add: fixed_point_def digit_char_def Let_def)
next
  case False
  have e: "n div 10 div 10 = n div 100" using div_mult2_eq [of n 10 10] by simp
  have "nat_str n = nat_str (n div 100) @ [digit_char (n div 10 mod 10), digit_char (n mod 10)]"
    using False e by (simp add: digit_char_def)
  then show ?thesis by (simp add: fixed_point_def Let_def)
qed

lemma nat_str_no_sign: "c \<in> set (nat_str n) \<Longrightarrow> c \<noteq> CHR ''.'' \<and> c \<noteq> CHR ''-''"
  using nat_str_digit_range [of c n] by auto

lemma take1_nat_str: "take 1 (nat_str n @ r) \<noteq> ''-''"
proof -
  obtain c cs where "nat_str n = c # cs" using nat_str_not_Nil by (cases "nat_str n") auto
  moreover have "c \<noteq> CHR ''-''" using nat_str_no_sign [of c n] calculation by simp
  ultimately show ?thesis by simp
qed

lemma digit_char_value' [simp]: "d < 10 \<Longrightarrow> of_char (digit_char d) - 48 = d"
  by (simp add: digit_char_def)

lemma decimal_value_fixed_point: "decimal_value (fixed_point n) = of_nat n / 100"
proof -
  let ?q = "n div 100" and ?d1 = "n div 10 mod 10" and ?d2 = "n mod 10"
  have sep: "\<forall>c \<in> set (nat_str ?q). c \<noteq> CHR ''.''" using nat_str_no_sign by blast
  have tw: "takeWhile (\<lambda>c. c \<noteq> CHR ''.'') (nat_str ?q @ CHR ''.'' # r) = nat_str ?q" for r
    using sep by (simp add: takeWhile_append2)
  have dw: "dropWhile (\<lambda>c. c \<noteq> CHR ''.'') (nat_str ?q @ CHR ''.'' # r) = CHR ''.'' # r" for r
    using sep by (simp add: dropWhile_append2)
  have b: "digits_value [digit_char ?d1, digit_char ?d2] = 10 * ?d1 + ?d2"
    by (simp add: digits_value_def)
  have m: "n mod 100 = 10 * ?d1 + ?d2" using mod_mult2_eq [of n 10 10] by simp
  have n: "n = 100 * ?q + (10 * ?d1 + ?d2)" using m div_mult_mod_eq [of n 100] by simp
  have "decimal_value (fixed_point n) = of_nat ?q + of_nat (10 * ?d1 + ?d2) / 100"
    using take1_nat_str [of ?q] tw dw b
    by (simp add: fixed_point_eq decimal_value_def Let_def del: of_nat_add of_nat_mult)
  also have "\<dots> = of_nat n / 100"
  proof -
    have "(of_nat n :: rat) = 100 * of_nat ?q + of_nat (10 * ?d1 + ?d2)"
      using n by (metis of_nat_add of_nat_mult of_nat_numeral)
    then show ?thesis by (simp add: add_divide_distrib)
  qed
  finally show ?thesis .
qed

lemma round_nonneg: "0 \<le> x \<Longrightarrow> 0 \<le> round x"
  using round_mono [of 0 x] by simp

lemma decimal_value_to_fixed2:
  "decimal_value (to_fixed2 x) = (if x < 0 then - 1 else 1) * of_int (round (\<bar>x\<bar> * 100)) / 100"
proof -
  have r: "0 \<le> round (\<bar>x\<bar> * 100)" by (simp add: round_nonneg)
  have v: "decimal_value (fixed_point (nat (round (\<bar>x\<bar> * 100)))) = of_int (round (\<bar>x\<bar> * 100)) / 100"
    using r by (simp add: decimal_value_fixed_point)
  show ?thesis
  proof (cases "x < 0")
    case True
    have "decimal_value (''-'' @ r) = - decimal_value r" if "take 1 r \<noteq> ''-''" for r
      using that by (simp add: decimal_value_def Let_def)
    moreover have "take 1 (fixed_point k) \<noteq> ''-''" for k
      using take1_nat_str by (simp add: fixed_point_eq)
    ultimately show ?thesis using True v by (simp add: to_fixed2_def)
  next
    case False
    then show ?thesis using v by (simp add: to_fixed2_def)
  qed
qed

lemma decimal_value_to_fixed2_nonneg:
  "0 \<le> x \<Longrightarrow> decimal_value (to_fixed2 x) = of_int (round (x * 100)) / 100"
  by (simp add: decimal_value_to_fixed2)

lemma round_add_of_int: "round (of_int m + y) = m + round y"
  unfolding round_def using floor_add_int [of "y + 1/2" m] by (simp add: add_ac)

lemma row_amount_dollars [simp]: "row_amount (dollars y) = decimal_value (to_fixed2 y)"
  by (simp add: row_amount_def dollars_def)


lemma to_fixed2_cents: "decimal_value (to_fixed2 (of_int k / 100)) = of_int k / 100"
proof -
  have "\<bar>(of_int k :: rat) / 100\<bar> * 100 = of_int \<bar>k\<bar>" by simp
  then show ?thesis by (simp add: decimal_value_to_fixed2 del: of_int_abs)
qed

lemma to_fixed2_shift:
  assumes "0 \<le> m" and "0 \<le> x"
  shows "decimal_value (to_fixed2 (of_int m / 100 + x)) = of_int m / 100 + decimal_value (to_fixed2 x)"
proof -
  have "(of_int m / 100 + x) * 100 = of_int m + x * 100" by (simp add: algebra_simps)
  then have "round ((of_int m / 100 + x) * 100) = m + round (x * 100)" by (simp add: round_add_of_int)
  moreover have "0 \<le> of_int m / 100 + x" using assms by simp
  ultimately show ?thesis
    using assms(2) by (simp add: decimal_value_to_fixed2_nonneg add_divide_distrib)
qed

text \<open>
  The cart page prints the literal \<open>$5.99\<close> where the checkout page prints
  \<open>$${shipping.toFixed(2)}\<close>; with the summary values of \<open>CartPage\<close> the two pages print
  the same money whenever the cart page lists the cart.
\<close>

lemma dollars_shipping: "dollars (599 / 100) = ''$5.99''"
  by (simp add: dollars_def to_fixed2_def fixed_point_eq digit_char_def)

lemma cart_checkout_same_text:
  assumes "cart_page_text s = Some r"
  shows "checkout_page_text s = Some r"
proof -
  obtain xs sm where v: "cart_page_view s = CartListView xs sm" and r: "r = (map line_total_text xs, cart_summary_rows sm)"
    using assms by (auto simp: cart_page_text_def split: cart_view.splits)
  then have sm: "sm = cart_summary (cart_subtotal (cart s))" and xs: "xs = cart_items (cart s)"
    and c: "cs_authenticated s" "cart_items (cart s) \<noteq> []"
    by (auto simp: cart_page_view_def split: if_splits)
  show ?thesis
    using c unfolding r sm xs
    by (simp add: checkout_page_text_def checkout_page_view_def cart_summary_rows_def checkout_summary_rows_def
                  cart_summary_def checkout_total_def checkout_tax_def checkout_shipping_def
                  dollars_shipping Let_def)
qed


text \<open>
  [C18] The checkout page's printed totals add up: when the cart's \<open>total_amount\<close> is a
  whole number of cents, the amount printed as \<open>Total\<close> is the sum of the amounts printed
  for subtotal, shipping and tax (the tax is rounded once, and the other terms are exact).
\<close>

theorem checkout_rows_add_up:
  assumes "checkout_page_text s = Some (ls, rows)"
    and "cart_subtotal (cart s) = of_int k / 100" and "0 \<le> k"
  shows "map fst rows = [''Subtotal'', ''Shipping'', ''Tax'', ''Total''] \<and>
         row_amount (snd (rows ! 3)) =
           row_amount (snd (rows ! 0)) + row_amount (snd (rows ! 1)) + row_amount (snd (rows ! 2))"
proof -
  let ?t = "of_int k / 100 :: rat"
  let ?c = "if 50 \<le> ?t then 0 else 599 :: int"
  have "rows = checkout_summary_rows (cart_subtotal (cart s)) (checkout_shipping (cart_subtotal (cart s)))
                 (checkout_tax (cart_subtotal (cart s))) (checkout_total (cart_subtotal (cart s)))"
    using assms(1) by (auto simp: checkout_page_text_def checkout_page_view_def Let_def split: if_splits)
  then have rows: "rows = checkout_summary_rows ?t (checkout_shipping ?t) (checkout_tax ?t) (checkout_total ?t)"
    unfolding assms(2) .
  have sh: "checkout_shipping ?t = of_int ?c / 100" by (simp add: checkout_shipping_def)
  have tax: "0 \<le> checkout_tax ?t" using assms(3) by (simp add: checkout_tax_def)
  have ship_row: "row_amount (if checkout_shipping ?t = 0 then ''Free'' else dollars (checkout_shipping ?t))
      = of_int ?c / 100"
  proof (cases "50 \<le> ?t")
    case True
    then show ?thesis unfolding sh by (simp add: row_amount_def)
  next
    case False
    then show ?thesis unfolding sh using to_fixed2_cents [of 599] by simp
  qed
  have tot: "checkout_total ?t = of_int (k + ?c) / 100 + checkout_tax ?t"
    unfolding checkout_total_def sh by (simp add: add_divide_distrib)
  have "decimal_value (to_fixed2 (checkout_total ?t)) =
        of_int (k + ?c) / 100 + decimal_value (to_fixed2 (checkout_tax ?t))"
    unfolding tot using assms(3) tax by (intro to_fixed2_shift) simp_all
  then show ?thesis
    using ship_row to_fixed2_cents [of k] by (simp add: rows checkout_summary_rows_def add_divide_distrib)
qed

theorem checkout_rows_add_up_witness:
  "checkout_page_text (cart_step (cart_mount (Some ''tok'') True) (Deliver 0 (Success cart_p1))) =
     Some ([''$20.00''], [(''Subtotal'', ''$20.00''), (''Shipping'', ''$5.99''), (''Tax'', ''$1.60''), (''Total'', ''$27.59'')]) \<and>
   row_amount ''$27.59'' = row_amount ''$20.00'' + row_amount ''$5.99'' + row_amount ''$1.60''"
proof -
  let ?s = "cart_step (cart_mount (Some ''tok'') True) (Deliver 0 (Success cart_p1))"
  have c: "cart_subtotal (cart ?s) = of_int 2000 / 100"
    by (simp add: cart_mount_def auth_effect_def cart_init_def deliver_def cart_subtotal_def)
  have "checkout_page_text ?s =
     Some ([''$20.00''], [(''Subtotal'', ''$20.00''), (''Shipping'', ''$5.99''), (''Tax'', ''$1.60''), (''Total'', ''$27.59'')])"
    by (simp add: checkout_page_text_def checkout_page_view_def cart_mount_def auth_effect_def cart_init_def
                  deliver_def cart_items_def cart_subtotal_def checkout_summary_rows_def line_total_text_def
                  dollars_def to_fixed2_def fixed_point_eq digit_char_def checkout_shipping_def
                  checkout_tax_def checkout_total_def)
  moreover note checkout_rows_add_up [OF calculation c]
  ultimately show ?thesis by simp
qed

text \<open>
  With a subtotal that is not a whole number of cents the printed rows need not add up:
  at \<open>10.0049\<close> the page prints \<open>$10.00 + $5.99 + $0.80\<close> and a total of \<open>$16.80\<close>.
\<close>

lemma checkout_rows_sub_cent:
  "checkout_summary_rows (100049 / 10000) (checkout_shipping (100049 / 10000)) (checkout_tax (100049 / 10000))
     (checkout_total (100049 / 10000)) =
   [(''Subtotal'', ''$10.00''), (''Shipping'', ''$5.99''), (''Tax'', ''$0.80''), (''Total'', ''$16.80'')] \<and>
   row_amount ''$16.80'' \<noteq> row_amount ''$10.00'' + row_amount ''$5.99'' + row_amount ''$0.80''"
  by code_simp

end
