(* ===== verification/Catalog.thy ===== *)
theory Catalog
  imports CartSync
begin

text \<open>
  The product catalogue, \<open>src/frontend/src/pages/Products.js\<close>, and the product page,
  \<open>src/frontend/src/pages/ProductDetail.js\<close>.  \<open>Products\<close> keeps its query in the state
  \<open>filters\<close>, initialised from the URL's search parameters, written back to the URL by an
  effect, changed by the filter inputs, the sort select, \<open>Clear Filters\<close> and the pagination
  buttons.  The products themselves come from the server (\<open>useQuery\<close>) and are not modelled
  beyond \<open>total_pages\<close> and the stock of a product.  \<open>ProductDetail\<close> offers the quantities
  \<open>1 .. min(10, stock)\<close> and renders five stars from the average rating.
  URL search parameters are an association list (\<open>URLSearchParams.get\<close> returns the first
  value of a key: \<open>map_of\<close>).
\<close>

subsection \<open>Filters and the URL\<close>

record filters =
  f_page :: int
  f_search :: string
  f_category :: string
  f_min_price :: string
  f_max_price :: string
  f_sort_by :: string
  f_order :: string

datatype filter_key = Search | Category | MinPrice | MaxPrice | SortBy | Order

type_synonym url_params = "(string \<times> string) list"

text \<open>\<open>useState\<close> initial value (lines 11--19): \<open>searchParams.get(k) || default\<close>; the page
  always starts at 1.\<close>

definition initial_filters :: "url_params \<Rightarrow> filters" where
  "initial_filters ps =
     \<lparr>f_page = 1,
      f_search = js_or_str (map_of ps ''search'') [],
      f_category = js_or_str (map_of ps ''category'') [],
      f_min_price = js_or_str (map_of ps ''min_price'') [],
      f_max_price = js_or_str (map_of ps ''max_price'') [],
      f_sort_by = js_or_str (map_of ps ''sort_by'') ''created_at'',
      f_order = js_or_str (map_of ps ''order'') ''desc''\<rparr>"

text \<open>
  \<open>Object.entries(filters)\<close> in insertion order, each value with its truthiness:
  \<open>None\<close> for a falsy value (the number 0, the empty string).
\<close>

definition filter_entries :: "filters \<Rightarrow> (string \<times> string option) list" where
  "filter_entries f =
     [(''page'', if f_page f \<noteq> 0 then Some (int_str (f_page f)) else None),
      (''search'', if f_search f \<noteq> [] then Some (f_search f) else None),
      (''category'', if f_category f \<noteq> [] then Some (f_category f) else None),
      (''min_price'', if f_min_price f \<noteq> [] then Some (f_min_price f) else None),
      (''max_price'', if f_max_price f \<noteq> [] then Some (f_max_price f) else None),
      (''sort_by'', if f_sort_by f \<noteq> [] then Some (f_sort_by f) else None),
      (''order'', if f_order f \<noteq> [] then Some (f_order f) else None)]"

text \<open>The URL effect (lines 37--43): \<open>if (value) params.set(key, value)\<close> on fresh params.\<close>

definition filters_to_params :: "filters \<Rightarrow> url_params" where
  "filters_to_params f = [(k, v). (k, Some v) \<leftarrow> filter_entries f]"

text \<open>\<open>handleFilterChange\<close> (lines 45--47) and \<open>handlePageChange\<close> (lines 49--52).\<close>

fun handle_filter_change :: "filter_key \<Rightarrow> string \<Rightarrow> filters \<Rightarrow> filters" where
  "handle_filter_change Search v f = f\<lparr>f_search := v, f_page := 1\<rparr>"
| "handle_filter_change Category v f = f\<lparr>f_category := v, f_page := 1\<rparr>"
| "handle_filter_change MinPrice v f = f\<lparr>f_min_price := v, f_page := 1\<rparr>"
| "handle_filter_change MaxPrice v f = f\<lparr>f_max_price := v, f_page := 1\<rparr>"
| "handle_filter_change SortBy v f = f\<lparr>f_sort_by := v, f_page := 1\<rparr>"
| "handle_filter_change Order v f = f\<lparr>f_order := v, f_page := 1\<rparr>"

definition handle_page_change :: "int \<Rightarrow> filters \<Rightarrow> filters" where
  "handle_page_change p f = f\<lparr>f_page := p\<rparr>"

text \<open>The sort select (lines 148--163): its value and the six options it offers.\<close>

definition sort_value :: "filters \<Rightarrow> string" where
  "sort_value f = js_join (CHR ''-'') [f_sort_by f, f_order f]"

definition sort_options :: "string list" where
  "sort_options = [''created_at-desc'', ''created_at-asc'', ''name-asc'', ''name-desc'',
                   ''price-asc'', ''price-desc'']"

text \<open>
  Its \<open>onChange\<close>: \<open>const [sort_by, order] = value.split('-')\<close>, then two functional
  updates.  Every option has exactly one \<open>-\<close>, so the split has two pieces; a value with a
  single piece would set \<open>order\<close> to \<open>undefined\<close>, which the string field cannot hold, and
  is left unchanged here (no option produces it).
\<close>

definition sort_change :: "string \<Rightarrow> filters \<Rightarrow> filters" where
  "sort_change v f =
     (case js_split (CHR ''-'') v of
        a # b # _ \<Rightarrow> handle_filter_change Order b (handle_filter_change SortBy a f)
      | _ \<Rightarrow> f)"

text \<open>\<open>Clear Filters\<close> (lines 167--176).\<close>

definition cleared_filters :: filters where
  "cleared_filters =
     \<lparr>f_page = 1, f_search = [], f_category = [], f_min_price = [], f_max_price = [],
      f_sort_by = ''created_at'', f_order = ''desc''\<rparr>"

subsection \<open>Pagination\<close>

text \<open>\<open>productsData?.data?.total_pages || 1\<close> (line 67).\<close>

definition total_pages_of :: "int option \<Rightarrow> int" where
  "total_pages_of tp = js_or_num tp 1"

text \<open>
  The page buttons (lines 261--278): \<open>Math.min(5, totalPages)\<close> numbers starting at
  \<open>Math.max(1, page - 2)\<close>, those beyond \<open>totalPages\<close> not rendered.
\<close>

definition page_buttons :: "int \<Rightarrow> int \<Rightarrow> int list" where
  "page_buttons page total_pages =
     (let start = max 1 (page - 2) in filter (\<lambda>n. n \<le> total_pages) [start .. start + min 5 total_pages - 1])"

datatype page_click = PrevPage | NextPage | GotoPage int

text \<open>
  A click on the pagination (lines 250--289), shown only when \<open>totalPages > 1\<close>: a
  disabled button (\<open>Previous\<close> on page 1, \<open>Next\<close> on page \<open>totalPages\<close>) does nothing, and
  only rendered page numbers can be clicked.
\<close>

fun page_step :: "int \<Rightarrow> int \<Rightarrow> page_click \<Rightarrow> int" where
  "page_step total_pages page PrevPage = (if total_pages > 1 \<and> page \<noteq> 1 then page - 1 else page)"
| "page_step total_pages page NextPage = (if total_pages > 1 \<and> page \<noteq> total_pages then page + 1 else page)"
| "page_step total_pages page (GotoPage n) =
     (if total_pages > 1 \<and> n \<in> set (page_buttons page total_pages) then n else page)"

subsection \<open>The product page\<close>

text \<open>
  The quantity select (lines 152--156): \<open>[...Array(Math.min(10, stock))]\<close> with the options
  \<open>i + 1\<close>.  \<open>Array(n)\<close> throws a \<open>RangeError\<close> for a negative length: \<open>None\<close>.
\<close>

definition quantity_options :: "int \<Rightarrow> int list option" where
  "quantity_options stock =
     (let n = min 10 stock in if n < 0 then None else Some (map (\<lambda>i. int i + 1) [0 ..< nat n]))"

text \<open>\<open>renderStars\<close> (lines 58--72) at \<open>Math.floor(average_rating || 0)\<close> (line 113): star
  \<open>i\<close> is solid (\<open>True\<close>) when \<open>i \<le> rating\<close>.\<close>

definition render_stars :: "int \<Rightarrow> bool list" where
  "render_stars rating = map (\<lambda>i. i \<le> rating) [1 .. 5]"

definition stars_of :: "rat option \<Rightarrow> bool list" where
  "stars_of avg = render_stars \<lfloor>js_or_num avg 0\<rfloor>"

text \<open>
  The \<open>Add to Cart\<close> buttons of the grid (line 236, \<open>addToCart(product._id, 1)\<close>) and of the
  product page (line 165, with the selected quantity): disabled when \<open>stock === 0\<close>.
  \<open>handleAddToCart\<close> of the product page resets the quantity to 1 when the call resolves
  to \<open>true\<close> (lines 51--56).
\<close>

definition add_button :: "product_id \<Rightarrow> int \<Rightarrow> int \<Rightarrow> cart_op option" where
  "add_button pid stock q = (if stock = 0 then None else Some (AddToCart pid q))"

definition detail_quantity_after :: "bool \<Rightarrow> int \<Rightarrow> int" where
  "detail_quantity_after success q = (if success then 1 else q)"

subsection \<open>The product list\<close>

text \<open>
  The products query (lines 24--30): \<open>productsAPI.getProducts(filters)\<close> hands the whole
  \<open>filters\<close> object to axios as \<open>params\<close>; axios serialises every field, the empty strings
  included, and the page as its decimal string.  The categories query (lines 32--35) takes
  no parameter.
\<close>

definition products_query :: "filters \<Rightarrow> api_call" where
  "products_query f =
     GetProducts [(''page'', int_str (f_page f)), (''search'', f_search f), (''category'', f_category f),
                  (''min_price'', f_min_price f), (''max_price'', f_max_price f),
                  (''sort_by'', f_sort_by f), (''order'', f_order f)]"

text \<open>The category select (lines 107--117): \<open>All Categories\<close> with the empty value, then one
  option per category of \<open>categoriesData?.data?.categories || []\<close> (line 68).\<close>

definition category_options :: "string list option \<Rightarrow> (string \<times> string) list" where
  "category_options cs = ([], ''All Categories'') # map (\<lambda>n. (n, n)) (case cs of Some xs \<Rightarrow> xs | None \<Rightarrow> [])"

text \<open>The fields of a listed product the page's behaviour depends on.\<close>

record product_card =
  card_id :: product_id
  card_stock :: int

text \<open>
  The grid (lines 184--249): \<open>No products found\<close>, or a card per product with, for an
  authenticated visitor, its \<open>Add to Cart\<close> button (enabled unless \<open>stock === 0\<close>), and the
  pagination when \<open>totalPages > 1\<close>.
\<close>

datatype products_view = ProductsSpinner | NoProductsFound | ProductGrid "(product_id \<times> bool option) list" bool

definition products_grid :: "bool \<Rightarrow> product_card list \<Rightarrow> int \<Rightarrow> products_view" where
  "products_grid auth cards total_pages =
     (if cards = [] then NoProductsFound
      else ProductGrid (map (\<lambda>c. (card_id c, if auth then Some (card_stock c \<noteq> 0) else None)) cards)
                       (1 < total_pages))"

text \<open>The header (lines 74--79): \<open>Discover our collection of {productsData?.data?.total_count
  || 0} products\<close>.\<close>

definition products_total_count :: "int option \<Rightarrow> int" where
  "products_total_count tc = js_or_num tc 0"

text \<open>The early return while loading (lines 58--64) and \<open>productsData?.data?.products || []\<close>
  (line 66).\<close>

definition products_page_view :: "bool \<Rightarrow> bool \<Rightarrow> product_card list option \<Rightarrow> int option \<Rightarrow> products_view" where
  "products_page_view is_loading auth ps tp =
     (if is_loading then ProductsSpinner
      else products_grid auth (case ps of Some xs \<Rightarrow> xs | None \<Rightarrow> []) (total_pages_of tp))"

text \<open>A card's button: \<open>handleAddToCart(product._id)\<close>, that is \<open>addToCart(productId, 1)\<close>
  (lines 54--56 and 234--241); it is rendered only for an authenticated visitor.\<close>

definition grid_add_click :: "bool \<Rightarrow> product_card \<Rightarrow> cart_state \<Rightarrow> cart_state" where
  "grid_add_click auth c s =
     (if \<not> auth then s
      else case add_button (card_id c) (card_stock c) 1 of None \<Rightarrow> s | Some op \<Rightarrow> cart_step s (Invoke op))"

subsection \<open>Lemmas\<close>

lemma page_buttons_range:
  "n \<in> set (page_buttons page total_pages) \<Longrightarrow> 1 \<le> n \<and> n \<le> total_pages"
  by (auto simp: page_buttons_def Let_def)

lemma page_buttons_member:
  assumes "1 \<le> page" and "page \<le> total_pages"
  shows "page \<in> set (page_buttons page total_pages)"
  using assms by (auto simp: page_buttons_def Let_def)

lemma filter_entries_keys: "distinct (map fst (filter_entries f))"
  by (simp add: filter_entries_def)

lemma map_of_filters_to_params:
  "map_of (filters_to_params f) k = Option.bind (map_of (filter_entries f) k) id"
  by (simp add: filters_to_params_def map_of_somes filter_entries_keys)

lemma js_or_str_truthy_field: "js_or_str (if s \<noteq> [] then Some s else None) d = (if s \<noteq> [] then s else d)"
  by simp

lemma render_stars_length: "length (render_stars r) = 5"
  by (simp add: render_stars_def)

lemma render_stars_count: "length (filter id (render_stars r)) = nat (min 5 (max 0 r))"
proof -
  have "r \<le> 0 \<or> r = 1 \<or> r = 2 \<or> r = 3 \<or> r = 4 \<or> 5 \<le> r" by linarith
  then show ?thesis by (auto simp: render_stars_def upto.simps)
qed

subsection \<open>Properties of the catalogue\<close>

text \<open>
  [C29] For a current page between 1 and \<open>totalPages\<close>, the numbered pagination buttons are
  at most five distinct increasing page numbers, all between 1 and \<open>totalPages\<close>, and one of
  them is the current page.
\<close>

theorem page_buttons_bounds:
  assumes "1 \<le> page" and "page \<le> total_pages"
  shows "set (page_buttons page total_pages) \<subseteq> {1 .. total_pages} \<and>
         length (page_buttons page total_pages) \<le> 5 \<and>
         sorted (page_buttons page total_pages) \<and> distinct (page_buttons page total_pages) \<and>
         page \<in> set (page_buttons page total_pages)"
proof -
  let ?s = "max 1 (page - 2)"
  have "length (page_buttons page total_pages) \<le> length [?s .. ?s + min 5 total_pages - 1]"
    by (simp add: page_buttons_def Let_def del: length_upto)
  also have "\<dots> \<le> 5" by simp
  finally have "length (page_buttons page total_pages) \<le> 5" .
  moreover have "sorted (page_buttons page total_pages) \<and> distinct (page_buttons page total_pages)"
    by (simp add: page_buttons_def Let_def sorted_wrt_filter)
  ultimately show ?thesis
    using page_buttons_range page_buttons_member [OF assms] by auto
qed

theorem page_buttons_bounds_witness:
  "1 \<le> (7::int) \<and> (7::int) \<le> 9 \<and> page_buttons 7 9 = [5, 6, 7, 8, 9]"
proof -
  have "(7::int) \<in> set (page_buttons 7 9)" using page_buttons_bounds [of 7 9] by simp
  moreover have "page_buttons 7 9 = [5, 6, 7, 8, 9]" by (simp add: page_buttons_def upto.simps)
  ultimately show ?thesis by simp
qed

text \<open>
  [C30] Starting from a page between 1 and \<open>totalPages\<close>, every sequence of clicks on the
  pagination (Previous, Next, a numbered button) keeps the page between 1 and
  \<open>totalPages\<close>.
\<close>

theorem page_clicks_stay_in_range:
  assumes "1 \<le> page" and "page \<le> total_pages"
  shows "1 \<le> foldl (page_step total_pages) page cs \<and> foldl (page_step total_pages) page cs \<le> total_pages"
  using assms
proof (induction cs arbitrary: page)
  case (Cons c cs)
  have "1 \<le> page_step total_pages page c \<and> page_step total_pages page c \<le> total_pages"
    using Cons.prems by (cases c) (auto dest: page_buttons_range)
  then show ?case using Cons.IH by simp
qed simp

theorem page_clicks_stay_in_range_witness:
  "1 \<le> (1::int) \<and> (1::int) \<le> 3 \<and> foldl (page_step 3) 1 [NextPage, NextPage, NextPage, PrevPage] = 2"
  using page_clicks_stay_in_range [of 1 3 "[NextPage, NextPage, NextPage, PrevPage]"] by simp

lemma next_clicks_past_last:
  "1 < total_pages \<Longrightarrow> total_pages < page \<Longrightarrow>
   foldl (page_step total_pages) page (replicate k NextPage) = page + int k"
  by (induction k arbitrary: page) (simp_all add: add.assoc)

text \<open>
  [C32] The \<open>Next\<close> button is disabled only at \<open>page === totalPages\<close>: once a refetch
  reports fewer pages than the current one, \<open>Next\<close> stays enabled and every click moves
  one page further past the last page, the page buttons never offer the current page, and
  from three pages past the end none is rendered.
\<close>

theorem next_enabled_past_last_page:
  assumes "1 < total_pages" and "total_pages < page"
  shows "page_step total_pages page NextPage = page + 1 \<and>
         foldl (page_step total_pages) page (replicate k NextPage) = page + int k \<and>
         page \<notin> set (page_buttons page total_pages) \<and>
         (total_pages + 3 \<le> page \<longrightarrow> page_buttons page total_pages = [])"
  using assms next_clicks_past_last [of total_pages page k]
  by (auto simp: page_buttons_def)

theorem next_enabled_past_last_page_witness:
  "1 < (3::int) \<and> (3::int) < 5 \<and> page_step 3 5 NextPage = 6 \<and>
   foldl (page_step 3) 5 (replicate 2 NextPage) = 7 \<and> page_buttons 5 3 = [3] \<and> page_buttons 6 3 = []"
proof -
  have "page_step 3 5 NextPage = 6 \<and> foldl (page_step 3) 5 (replicate 2 NextPage) = 5 + int 2"
    using next_enabled_past_last_page [of 3 5 2] by simp
  moreover have "page_buttons 5 3 = [3]" and "page_buttons 6 3 = []"
    by (simp_all add: page_buttons_def upto.simps)
  ultimately show ?thesis by simp
qed

text \<open>
  [C31] Round trip between the filters and the URL: the filters written to the search
  parameters by the effect are read back by the initial state exactly, except the page,
  which is written to the URL but always restarts at 1.  Sort field and order must be
  non-empty, since their defaults replace an empty value.
\<close>

theorem url_params_roundtrip:
  assumes "f_sort_by f \<noteq> []" and "f_order f \<noteq> []"
  shows "initial_filters (filters_to_params f) = f\<lparr>f_page := 1\<rparr> \<and>
         (f_page f \<noteq> 0 \<longrightarrow> map_of (filters_to_params f) ''page'' = Some (int_str (f_page f)))"
  using assms
  by (simp add: initial_filters_def map_of_filters_to_params filter_entries_def js_or_str_def
      split: if_splits)

theorem url_params_roundtrip_witness:
  "f_sort_by cleared_filters \<noteq> [] \<and> f_order cleared_filters \<noteq> [] \<and>
   initial_filters (filters_to_params (cleared_filters\<lparr>f_page := 3, f_search := ''mug''\<rparr>))
     = cleared_filters\<lparr>f_search := ''mug''\<rparr>"
proof -
  let ?f = "cleared_filters\<lparr>f_page := 3, f_search := ''mug''\<rparr>"
  have a: "f_sort_by ?f \<noteq> []" and b: "f_order ?f \<noteq> []" by (simp_all add: cleared_filters_def)
  show ?thesis using url_params_roundtrip [OF a b] by (simp add: cleared_filters_def)
qed

text \<open>
  Round trip of the sort select: choosing any of its six options sets sort field and
  order so that the select shows that option again, and returns to page 1.
\<close>

lemma sort_select_roundtrip:
  assumes "v \<in> set sort_options"
  shows "sort_value (sort_change v f) = v \<and> f_page (sort_change v f) = 1"
  using assms by (auto simp: sort_options_def sort_change_def sort_value_def)

text \<open>
  The product page shows five stars, as many of them solid as the floor of the
  average rating clamped to 0 .. 5, a missing rating counting as 0.
\<close>

lemma stars_count:
  "length (stars_of avg) = 5 \<and>
   length (filter id (stars_of avg)) = nat (min 5 (max 0 \<lfloor>js_or_num avg 0\<rfloor>))"
  unfolding stars_of_def by (simp add: render_stars_length render_stars_count del: le_floor_iff)

end
