(* ===== verification/ProductPage.thy ===== *)
theory ProductPage
  imports Catalog
begin

text \<open>
  The two pages that add a product to the cart from outside the catalogue grid, as clients
  of the cart synchronizer: the product page \<open>pages/ProductDetail.js\<close> (its render
  decisions, the quantity select and \<open>handleAddToCart\<close>) and the wishlist
  \<open>pages/Wishlist.js\<close> (its render decisions and its \<open>Add to Cart\<close> buttons).  The page's
  own state is the rendered product (replaced when react-query refetches it) and the
  selected quantity; the provider's state is threaded through \<open>cart_step\<close>, and the
  continuation of \<open>handleAddToCart\<close> runs when the provider resolves the call it awaits.
\<close>

subsection \<open>The product page\<close>

text \<open>The fields of \<open>product.data\<close> the page's behaviour depends on.\<close>

record product_data =
  pd_id :: product_id
  pd_stock :: int
  pd_average_rating :: "rat option"

text \<open>The \<open>useQuery\<close> result (lines 18--24).\<close>

datatype product_query = QueryLoading | QueryError | QueryData product_data

datatype purchase_control = LoginToPurchase | AddToCartButton bool

text \<open>
  What the page renders (lines 26--47 and 140--175): the spinner, \<open>Product not found\<close>, or
  the product with its stars, the quantity options (only for an authenticated visitor) and
  either the \<open>Add to Cart\<close> button (enabled unless \<open>stock === 0\<close>) or the login link.
  Rendering the options throws a \<open>RangeError\<close> when the stock is negative.
\<close>

datatype detail_view =
    DetailSpinner
  | ProductNotFound
  | DetailCrash
  | DetailShown "bool list" "int list" purchase_control

definition product_detail_view :: "bool \<Rightarrow> product_query \<Rightarrow> detail_view" where
  "product_detail_view auth q =
     (case q of
        QueryLoading \<Rightarrow> DetailSpinner
      | QueryError \<Rightarrow> ProductNotFound
      | QueryData d \<Rightarrow>
          (if auth
           then (case quantity_options (pd_stock d) of
                   None \<Rightarrow> DetailCrash
                 | Some opts \<Rightarrow> DetailShown (stars_of (pd_average_rating d)) opts (AddToCartButton (pd_stock d \<noteq> 0)))
           else DetailShown (stars_of (pd_average_rating d)) [] LoginToPurchase))"

text \<open>The \<open>Availability\<close> entry of the details (lines 202--207).\<close>

definition availability_label :: "int \<Rightarrow> string" where
  "availability_label stock = (if 0 < stock then ''In Stock'' else ''Out of Stock'')"

text \<open>The \<open>Product Details\<close> list (lines 189--209): SKU (\<open>_id\<close>), category and availability,
  the availability in green when the stock is positive and in red otherwise.\<close>

definition product_details :: "product_id \<Rightarrow> string \<Rightarrow> int \<Rightarrow> (string \<times> string \<times> string) list" where
  "product_details pid category stock =
     [(''SKU:'', pid, ''text-gray-900''), (''Category:'', category, ''text-gray-900''),
      (''Availability:'', availability_label stock, if 0 < stock then ''text-green-600'' else ''text-red-600'')]"

text \<open>
  The continuation of \<open>handleAddToCart\<close> (lines 51--56) for every call of this page the
  provider has just resolved: \<open>setQuantity(1)\<close> when it resolved to \<open>true\<close>.
\<close>

definition settle_page :: "product_id \<Rightarrow> (cart_op \<times> bool) list \<Rightarrow> int \<Rightarrow> int" where
  "settle_page pid rs q =
     foldl (\<lambda>q (op, b). case op of AddToCart p n \<Rightarrow> if p = pid then detail_quantity_after b q else q | _ \<Rightarrow> q) q rs"

definition after_cart :: "product_id \<Rightarrow> int \<Rightarrow> cart_state \<Rightarrow> cart_state \<Rightarrow> int \<times> cart_state" where
  "after_cart pid q c c' = (settle_page pid (drop (length (results c)) (results c')) q, c')"

datatype detail_event =
    SelectQuantity int
  | ClickAddToCart
  | CartResponse nat api_result
  | ProductRefetched int "rat option"

text \<open>
  The select's \<open>onChange\<close> sets \<open>parseInt\<close> of the chosen option's value (lines 147--157),
  which can only be a rendered option; the button calls \<open>handleAddToCart\<close> (line 166);
  any other response reaches the provider.  The product query (lines 18--24) may be
  refetched by react-query (on a window refocus, a remount or a reconnect, its defaults):
  the new \<open>product.data\<close> replaces the rendered product, with its stock and rating, while
  the \<open>quantity\<close> state of line 15 is kept.
\<close>

fun detail_step ::
  "product_data \<times> int \<times> cart_state \<Rightarrow> detail_event \<Rightarrow> product_data \<times> int \<times> cart_state" where
  "detail_step (d, q, c) (SelectQuantity v) =
     (case product_detail_view (cs_authenticated c) (QueryData d) of
        DetailShown st opts ctl \<Rightarrow> (if v \<in> set opts then (d, v, c) else (d, q, c))
      | _ \<Rightarrow> (d, q, c))"
| "detail_step (d, q, c) ClickAddToCart =
     (case product_detail_view (cs_authenticated c) (QueryData d) of
        DetailShown st opts (AddToCartButton True) \<Rightarrow>
          (d, after_cart (pd_id d) q c (cart_step c (Invoke (AddToCart (pd_id d) q))))
      | _ \<Rightarrow> (d, q, c))"
| "detail_step (d, q, c) (CartResponse i r) = (d, after_cart (pd_id d) q c (cart_step c (Deliver i r)))"
| "detail_step (d, q, c) (ProductRefetched stock rating) =
     (d\<lparr>pd_stock := stock, pd_average_rating := rating\<rparr>, q, c)"

definition detail_run ::
  "product_data \<times> int \<times> cart_state \<Rightarrow> detail_event list \<Rightarrow> product_data \<times> int \<times> cart_state" where
  "detail_run st es = foldl detail_step st es"

subsection \<open>The wishlist\<close>

record wishlist_product =
  wp_id :: product_id
  wp_stock :: int

text \<open>\<open>wishlistData?.data?.items || []\<close> (line 24).\<close>

definition wishlist_items :: "wishlist_product list option \<Rightarrow> wishlist_product list" where
  "wishlist_items d = (case d of Some xs \<Rightarrow> xs | None \<Rightarrow> [])"

datatype wishlist_view = WishlistSpinner | WishlistEmpty | WishlistGrid "(product_id \<times> bool) list"

text \<open>Lines 16--44: the spinner, the empty message, or a card per item with its button state.\<close>

definition wishlist_page_view :: "bool \<Rightarrow> wishlist_product list option \<Rightarrow> wishlist_view" where
  "wishlist_page_view is_loading d =
     (if is_loading then WishlistSpinner
      else if wishlist_items d = [] then WishlistEmpty
      else WishlistGrid (map (\<lambda>p. (wp_id p, wp_stock p \<noteq> 0)) (wishlist_items d)))"

text \<open>The button \<open>onClick={() => addToCart(item.product._id, 1)}\<close>, disabled when \<open>stock === 0\<close>.\<close>

definition wishlist_click :: "wishlist_product \<Rightarrow> cart_state \<Rightarrow> cart_state" where
  "wishlist_click p c = (if wp_stock p = 0 then c else cart_step c (Invoke (AddToCart (wp_id p) 1)))"

text \<open>The query \<open>wishlistAPI.getWishlist(localStorage.getItem('token'))\<close> (line 13).\<close>

definition wishlist_request :: "browser \<Rightarrow> http_request" where
  "wishlist_request b = api_request b (stored_token b) GetWishlist"

subsection \<open>Requests the product page may send\<close>

text \<open>A \<open>getCart\<close>, or an \<open>addToCart\<close> of product \<open>pid\<close> with a quantity between 1 and
  \<open>min(10, m)\<close>.\<close>

definition detail_call_ok :: "product_id \<Rightarrow> int \<Rightarrow> cart_call \<Rightarrow> bool" where
  "detail_call_ok pid m call =
     (case call of
        GetCart \<Rightarrow> True
      | AddToCartCall p k \<Rightarrow> p = pid \<and> 1 \<le> k \<and> k \<le> min 10 m
      | _ \<Rightarrow> False)"

text \<open>The stocks the page shows during a run: the first product data and every refetch.\<close>

definition shown_stocks :: "product_data \<Rightarrow> detail_event list \<Rightarrow> int list" where
  "shown_stocks d es = pd_stock d # [st. ProductRefetched st r \<leftarrow> es]"

lemma settle_page_cases: "settle_page pid rs q = q \<or> settle_page pid rs q = 1"
proof (induction rs arbitrary: q)
  case Nil
  then show ?case by (simp add: settle_page_def)
next
  case (Cons x rs)
  obtain op b where x: "x = (op, b)" by fastforce
  define q' where
    "q' = (case op of AddToCart p n \<Rightarrow> if p = pid then detail_quantity_after b q else q | _ \<Rightarrow> q)"
  have "q' = q \<or> q' = 1"
    by (auto simp: q'_def detail_quantity_after_def split: cart_op.split)
  moreover have "settle_page pid (x # rs) q = settle_page pid rs q'"
    by (simp add: settle_page_def x q'_def)
  ultimately show ?case using Cons.IH [of q'] by auto
qed

lemma after_cart_simps [simp]:
  "fst (after_cart pid q c c') = settle_page pid (drop (length (results c)) (results c')) q"
  "snd (after_cart pid q c c') = c'"
  by (simp_all add: after_cart_def)

lemma quantity_options_range:
  "quantity_options s = Some opts \<Longrightarrow> v \<in> set opts \<Longrightarrow> 1 \<le> v \<and> v \<le> min 10 s"
  by (auto simp: quantity_options_def Let_def split: if_splits)

lemma quantity_options_nonneg: "quantity_options s = Some opts \<Longrightarrow> 0 \<le> s"
  by (simp add: quantity_options_def Let_def split: if_splits)

lemma detail_view_options:
  assumes "product_detail_view a (QueryData d) = DetailShown st opts ctl" and "v \<in> set opts"
  shows "1 \<le> v \<and> v \<le> min 10 (pd_stock d)"
proof -
  have "quantity_options (pd_stock d) = Some opts"
    using assms by (auto simp: product_detail_view_def split: if_splits option.splits)
  then show ?thesis using assms(2) by (rule quantity_options_range)
qed

lemma detail_view_button:
  "product_detail_view a (QueryData d) = DetailShown st opts (AddToCartButton True) \<Longrightarrow>
   a \<and> 1 \<le> pd_stock d"
  by (force simp: product_detail_view_def dest: quantity_options_nonneg split: if_splits option.splits)

lemma button_matches_availability:
  "product_detail_view a (QueryData d) = DetailShown st opts (AddToCartButton b) \<Longrightarrow>
   b \<longleftrightarrow> availability_label (pd_stock d) = ''In Stock''"
  by (auto simp: product_detail_view_def availability_label_def dest: quantity_options_nonneg
           split: if_splits option.splits)

text \<open>
  The page invariant for a bound \<open>m\<close> on the stocks shown: the quantity lies in
  \<open>1..10\<close>, and it is 1 or at most \<open>m\<close>; the rendered stock is at most \<open>m\<close>.
\<close>

definition detail_inv :: "int \<Rightarrow> product_data \<times> int \<times> cart_state \<Rightarrow> bool" where
  "detail_inv m st \<longleftrightarrow>
     (case st of (d, q, c) \<Rightarrow> 1 \<le> q \<and> q \<le> 10 \<and> (q = 1 \<or> q \<le> m) \<and> pd_stock d \<le> m)"

lemma settle_page_inv:
  "1 \<le> q \<and> q \<le> 10 \<and> (q = 1 \<or> q \<le> m) \<Longrightarrow>
   1 \<le> settle_page pid rs q \<and> settle_page pid rs q \<le> 10 \<and> (settle_page pid rs q = 1 \<or> settle_page pid rs q \<le> m)"
  using settle_page_cases [of pid rs q] by auto

lemma deliver_sends_getcart:
  obtains xs where "sent (deliver i r c) = sent c @ xs" "\<forall>x \<in> set xs. snd (snd x) = GetCart"
proof (cases "map_of (pending c) i")
  case None
  then show ?thesis using that [of "[]"] by (simp add: deliver_def)
next
  case (Some k)
  then show ?thesis
    using that resume_sends_getcart [of k r "c\<lparr>pending := filter (\<lambda>p. fst p \<noteq> i) (pending c)\<rparr>"]
    by (auto simp: deliver_def)
qed

lemma detail_step_ok:
  assumes inv: "detail_inv m (d, q, c)"
    and refetch: "\<And>st r. e = ProductRefetched st r \<Longrightarrow> st \<le> m"
  shows "detail_inv m (detail_step (d, q, c) e) \<and> pd_id (fst (detail_step (d, q, c) e)) = pd_id d \<and>
         (\<exists>xs. sent (snd (snd (detail_step (d, q, c) e))) = sent c @ xs \<and>
               list_all (detail_call_ok (pd_id d) m \<circ> snd \<circ> snd) xs)"
proof -
  have q: "1 \<le> q" "q \<le> 10" "q = 1 \<or> q \<le> m" and dm: "pd_stock d \<le> m"
    using inv by (auto simp: detail_inv_def)
  have settle: "detail_inv m (d, settle_page pid rs q, c')" for pid rs c'
    using settle_page_inv [of q m pid rs] q dm by (simp add: detail_inv_def)
  show ?thesis
  proof (cases e)
    case (SelectQuantity v)
    then show ?thesis
      using inv dm detail_view_options [of "cs_authenticated c" d _ _ _ v]
      by (auto simp: detail_inv_def split: detail_view.split)
  next
    case ClickAddToCart
    show ?thesis
    proof (cases "product_detail_view (cs_authenticated c) (QueryData d)")
      case (DetailShown st opts ctl)
      show ?thesis
      proof (cases "ctl = AddToCartButton True")
        case True
        then have "cs_authenticated c" "1 \<le> pd_stock d"
          using detail_view_button DetailShown by blast+
        then show ?thesis
          using ClickAddToCart DetailShown True settle q dm
          by (auto simp: cart_mutation_def detail_call_ok_def after_cart_def)
      next
        case False
        then show ?thesis
          using ClickAddToCart DetailShown inv by (cases ctl) auto
      qed
    qed (use ClickAddToCart inv in simp_all)
  next
    case (CartResponse i r)
    obtain xs where "sent (deliver i r c) = sent c @ xs" "\<forall>x \<in> set xs. snd (snd x) = GetCart"
      by (rule deliver_sends_getcart)
    then show ?thesis
      using CartResponse settle by (auto simp: list_all_iff detail_call_ok_def after_cart_def)
  next
    case (ProductRefetched st r)
    then show ?thesis using inv refetch by (auto simp: detail_inv_def)
  qed
qed

lemma detail_run_ok:
  assumes "detail_inv m (d, q, c)" and "\<forall>st \<in> set (tl (shown_stocks d es)). st \<le> m"
  shows "\<exists>xs. sent (snd (snd (detail_run (d, q, c) es))) = sent c @ xs \<and>
             list_all (detail_call_ok (pd_id d) m \<circ> snd \<circ> snd) xs"
  using assms
proof (induction es arbitrary: d q c)
  case Nil
  then show ?case by (simp add: detail_run_def)
next
  case (Cons e es)
  obtain d' q' c' where st: "detail_step (d, q, c) e = (d', q', c')" by (cases "detail_step (d, q, c) e")
  have r: "\<And>st r. e = ProductRefetched st r \<Longrightarrow> st \<le> m"
    using Cons.prems(2) by (auto simp: shown_stocks_def)
  have i: "detail_inv m (d', q', c')" and pid: "pd_id d' = pd_id d"
    and "\<exists>xs. sent c' = sent c @ xs \<and> list_all (detail_call_ok (pd_id d) m \<circ> snd \<circ> snd) xs"
    using detail_step_ok [of m d q c e, OF Cons.prems(1) r] st by auto
  then obtain xs where xs: "sent c' = sent c @ xs" "list_all (detail_call_ok (pd_id d) m \<circ> snd \<circ> snd) xs"
    by blast
  have "\<forall>st \<in> set (tl (shown_stocks d' es)). st \<le> m"
    using Cons.prems(2) by (cases e) (auto simp: shown_stocks_def)
  then have "\<exists>ys. sent (snd (snd (detail_run (d', q', c') es))) = sent c' @ ys \<and>
               list_all (detail_call_ok (pd_id d') m \<circ> snd \<circ> snd) ys"
    by (rule Cons.IH [OF i])
  then obtain ys where ys: "sent (snd (snd (detail_run (d', q', c') es))) = sent c' @ ys"
    "list_all (detail_call_ok (pd_id d) m \<circ> snd \<circ> snd) ys"
    unfolding pid by blast
  have "detail_run (d, q, c) (e # es) = detail_run (d', q', c') es"
    using st by (simp add: detail_run_def)
  then show ?case
    using xs ys by (intro exI [of _ "xs @ ys"]) (simp add: comp_def)
qed

subsection \<open>Properties of the two pages\<close>

text \<open>
  [C16] Whatever the visitor selects and clicks on the product page, however often the
  product is refetched and whatever the server answers, the page only ever causes
  \<open>getCart\<close> requests and \<open>addToCart\<close> requests for this product with a quantity between
  1 and 10 and at most the largest stock the page has shown: the select offers no other
  value, the quantity returns to 1 after a success, and the button is disabled at stock 0.
\<close>

theorem product_page_add_bounded:
  "list_all (detail_call_ok (pd_id d) (Max (set (shown_stocks d es))) \<circ> snd \<circ> snd)
     (drop (length (sent c)) (sent (snd (snd (detail_run (d, 1, c) es)))))"
proof -
  let ?m = "Max (set (shown_stocks d es))"
  have le: "x \<le> ?m" if "x \<in> set (shown_stocks d es)" for x
    using that by (intro Max_ge) simp_all
  have "pd_stock d \<le> ?m" and "\<forall>st \<in> set (tl (shown_stocks d es)). st \<le> ?m"
    using le by (simp_all add: shown_stocks_def)
  then have "detail_inv ?m (d, 1, c)" and "\<forall>st \<in> set (tl (shown_stocks d es)). st \<le> ?m"
    by (simp_all add: detail_inv_def)
  then obtain xs where "sent (snd (snd (detail_run (d, 1, c) es))) = sent c @ xs"
    "list_all (detail_call_ok (pd_id d) ?m \<circ> snd \<circ> snd) xs"
    using detail_run_ok by blast
  then show ?thesis by simp
qed

lemma quantity_options_mem:
  "0 \<le> s \<Longrightarrow> quantity_options s = Some opts \<Longrightarrow> v \<in> set opts \<longleftrightarrow> 1 \<le> v \<and> v \<le> min 10 s"
proof -
  assume "0 \<le> s" "quantity_options s = Some opts"
  then have "opts = map (\<lambda>i. int i + 1) [0 ..< nat (min 10 s)]"
    by (auto simp: quantity_options_def Let_def split: if_splits)
  then show ?thesis
    by (auto simp: image_iff intro!: bexI [of _ "nat (v - 1)"])
qed

text \<open>
  [C17] The quantity is not checked against the stock when the product is refetched: for
  every product, session and pair of stocks, a quantity \<open>v\<close> selected while the stock
  allowed it is sent unchanged after a refetch has lowered the stock below \<open>v\<close>.
\<close>

theorem product_page_stale_quantity:
  assumes "cs_authenticated c" and "2 \<le> v" and "v \<le> min 10 (pd_stock d)"
    and "1 \<le> st" and "st < v"
  shows "case detail_run (d, 1, c) [SelectQuantity v, ProductRefetched st r, ClickAddToCart] of
           (d', q', c') \<Rightarrow> pd_stock d' = st \<and> pd_stock d' < v \<and>
             sent c' = sent c @ [(next_req c, cs_token c, AddToCartCall (pd_id d) v)]"
proof -
  have s0: "0 \<le> pd_stock d" and s1: "0 \<le> st" using assms by simp_all
  define o1 where "o1 = map (\<lambda>i. int i + 1) [0 ..< nat (min 10 (pd_stock d))]"
  define o2 where "o2 = map (\<lambda>i. int i + 1) [0 ..< nat (min 10 st)]"
  have o1: "quantity_options (pd_stock d) = Some o1"
    using s0 by (simp add: quantity_options_def Let_def o1_def)
  have o2: "quantity_options st = Some o2"
    using s1 by (simp add: quantity_options_def Let_def o2_def)
  have v: "v \<in> set o1" using quantity_options_mem [OF s0 o1] assms by simp
  have "st \<noteq> 0" using assms by simp
  then show ?thesis
    using assms o1 o2 v
    by (simp add: detail_run_def product_detail_view_def cart_mutation_def after_cart_def settle_page_def)
qed

theorem product_page_stale_quantity_witness:
  "case detail_run (\<lparr>pd_id = ''p1'', pd_stock = 5, pd_average_rating = None\<rparr>, 1, cart_mount (Some ''tok'') True)
          [SelectQuantity 4, ProductRefetched 2 None, ClickAddToCart] of
     (d', q', c') \<Rightarrow> pd_stock d' = 2 \<and> pd_stock d' < 4 \<and>
       sent c' = [(0, Some ''tok'', GetCart), (1, Some ''tok'', AddToCartCall ''p1'' 4)]"
proof -
  have a: "cs_authenticated (cart_mount (Some ''tok'') True)"
    and n: "next_req (cart_mount (Some ''tok'') True) = 1"
    and s: "sent (cart_mount (Some ''tok'') True) = [(0, Some ''tok'', GetCart)]"
    by (simp_all add: cart_mount_def auth_effect_def cart_init_def fetch_cart_def issue_def)
  show ?thesis
    using product_page_stale_quantity [OF a, of 4 "\<lparr>pd_id = ''p1'', pd_stock = 5, pd_average_rating = None\<rparr>" 2 None]
    unfolding n s by (simp add: cart_mount_def auth_effect_def cart_init_def)
qed

text \<open>
  A wishlist card's button sends \<open>addToCart(id, 1)\<close> with the provider's token when the
  product is in stock and the visitor is authenticated; at stock 0 it is disabled and does
  nothing; otherwise the provider's guard answers \<open>false\<close> without a request.
\<close>

lemma wishlist_add_request:
  "sent (wishlist_click p c) =
     sent c @ (if wp_stock p \<noteq> 0 \<and> cs_authenticated c
               then [(next_req c, cs_token c, AddToCartCall (wp_id p) 1)] else []) \<and>
   results (wishlist_click p c) =
     results c @ (if wp_stock p \<noteq> 0 \<and> \<not> cs_authenticated c then [(AddToCart (wp_id p) 1, False)] else [])"
  by (simp add: wishlist_click_def cart_mutation_def)

end
