(* ===== verification/Site.thy ===== *)
theory Site
  imports Router CartPage ProductPage
begin

text \<open>
  The pages that only display constants or server data (\<open>pages/Home.js\<close>,
  \<open>components/layout/Footer.js\<close>, \<open>pages/admin/AdminDashboard.js\<close>, \<open>pages/Profile.js\<close>),
  and the links every page renders.  A link is either a fixed path or the template
  \<open>`/products/${id}`\<close>; the property of this theory is that every link of the
  application leads to a route of \<open>App.js\<close> (\<open>Router\<close>).
\<close>

subsection \<open>Links\<close>

datatype link = Fixed string | ToProduct product_id

fun link_path :: "link \<Rightarrow> string" where
  "link_path (Fixed p) = p"
| "link_path (ToProduct pid) = ''/products/'' @ pid"

subsection \<open>The home page\<close>

text \<open>The featured products query (lines 14--17): \<open>getProducts({ limit: 8, sort_by:
  'created_at', order: 'desc' })\<close>.\<close>

definition home_query :: api_call where
  "home_query = GetProducts [(''limit'', ''8''), (''sort_by'', ''created_at''), (''order'', ''desc'')]"

record home_feature =
  feature_name :: string
  feature_description :: string

text \<open>The \<open>features\<close> constant (lines 19--35); the icons are not modelled.\<close>

definition home_features :: "home_feature list" where
  "home_features =
     [\<lparr>feature_name = ''Free Shipping'', feature_description = ''Free shipping on orders over $50''\<rparr>,
      \<lparr>feature_name = ''Secure Payment'', feature_description = ''Safe and secure payment processing''\<rparr>,
      \<lparr>feature_name = ''Quality Products'', feature_description = ''Carefully curated high-quality items''\<rparr>]"

datatype home_products = HomeSpinner | HomeCards "product_id list"

text \<open>
  The featured section (lines 100--140): the spinner, or a card for each of the first eight
  of \<open>productsData?.data?.products\<close>; optional chaining makes a missing list render no card.
\<close>

definition home_products_view :: "bool \<Rightarrow> product_id list option \<Rightarrow> home_products" where
  "home_products_view is_loading ps =
     (if is_loading then HomeSpinner else HomeCards (case ps of Some xs \<Rightarrow> take 8 xs | None \<Rightarrow> []))"

text \<open>The links of the page: two in the hero (lines 50--62), \<open>View Details\<close> on each card
  (line 131) and \<open>View All Products\<close> (line 145).\<close>

fun home_links :: "home_products \<Rightarrow> link list" where
  "home_links HomeSpinner = [Fixed ''/products'', Fixed ''/products'', Fixed ''/products'']"
| "home_links (HomeCards ids) =
     [Fixed ''/products'', Fixed ''/products''] @ map ToProduct ids @ [Fixed ''/products'']"

subsection \<open>The footer\<close>

text \<open>The quick links (lines 49--66); the other entries are \<open>href="#"\<close> anchors.\<close>

definition footer_links :: "link list" where
  "footer_links = [Fixed ''/'', Fixed ''/products'', Fixed ''/cart'', Fixed ''/orders'']"

subsection \<open>The admin dashboard\<close>

record admin_stat =
  stat_name :: string
  stat_value :: string
  stat_change :: string
  stat_change_type :: string

text \<open>The \<open>stats\<close> constant (lines 11--44): fixed figures, not read from the analytics API.\<close>

definition admin_stats :: "admin_stat list" where
  "admin_stats =
     [\<lparr>stat_name = ''Total Products'', stat_value = ''24'', stat_change = ''+12%'', stat_change_type = ''positive''\<rparr>,
      \<lparr>stat_name = ''Total Orders'', stat_value = ''156'', stat_change = ''+8%'', stat_change_type = ''positive''\<rparr>,
      \<lparr>stat_name = ''Total Users'', stat_value = ''89'', stat_change = ''+23%'', stat_change_type = ''positive''\<rparr>,
      \<lparr>stat_name = ''Total Revenue'', stat_value = ''$12,345'', stat_change = ''+15%'', stat_change_type = ''positive''\<rparr>]"

text \<open>The colour of a stat's change (lines 75--77).\<close>

definition stat_change_class :: "admin_stat \<Rightarrow> string" where
  "stat_change_class st = (if stat_change_type st = ''positive'' then ''text-green-600'' else ''text-red-600'')"

record quick_action =
  qa_name :: string
  qa_href :: string

text \<open>The \<open>quickActions\<close> constant (lines 46--51), rendered as links (lines 90--97).\<close>

definition admin_quick_actions :: "quick_action list" where
  "admin_quick_actions =
     [\<lparr>qa_name = ''Add Product'', qa_href = ''/admin/products''\<rparr>,
      \<lparr>qa_name = ''View Orders'', qa_href = ''/admin/orders''\<rparr>,
      \<lparr>qa_name = ''Manage Users'', qa_href = ''/admin/users''\<rparr>,
      \<lparr>qa_name = ''View Analytics'', qa_href = ''/admin/analytics''\<rparr>]"

definition admin_links :: "link list" where
  "admin_links = map (Fixed \<circ> qa_href) admin_quick_actions"

text \<open>The stats grid (lines 61--84): each card shows the name, the value and the change in
  the colour of its type, followed by \<open>from last month\<close>.\<close>

definition admin_stat_cards :: "(string \<times> string \<times> string \<times> string) list" where
  "admin_stat_cards = map (\<lambda>st. (stat_name st, stat_value st, stat_change st, stat_change_class st)) admin_stats"

record activity_entry =
  activity_initial :: string
  activity_text :: string
  activity_time :: string

text \<open>The \<open>Recent Activity\<close> panel (lines 102--140): three fixed entries.\<close>

definition admin_recent_activity :: "activity_entry list" where
  "admin_recent_activity =
     [\<lparr>activity_initial = ''N'', activity_text = ''New order #12345 received'', activity_time = ''2 minutes ago''\<rparr>,
      \<lparr>activity_initial = ''U'', activity_text = ''User john_doe registered'', activity_time = ''1 hour ago''\<rparr>,
      \<lparr>activity_initial = ''P'', activity_text = ''Product '' @ [CHR 0x22] @ ''Wireless Headphones'' @ [CHR 0x22] @ '' updated'', activity_time = ''3 hours ago''\<rparr>]"

subsection \<open>The admin users page\<close>

text \<open>\<open>pages/admin/AdminUsers.js\<close> (lines 3--15): a heading and a placeholder paragraph, with
  no state, no request and no control.\<close>

definition admin_users_view :: "string list" where
  "admin_users_view = [''Manage Users'', ''User management interface will be implemented here.'']"

subsection \<open>The profile page\<close>

record user_info =
  username :: "string option"
  email :: "string option"
  full_name :: "string option"
  phone :: "string option"

text \<open>
  The four fields (lines 5--33): \<open>{user?.username}\<close> renders nothing for a missing value,
  \<open>{user?.full_name || 'Not provided'}\<close> the default for a missing or empty one.
\<close>

definition profile_fields :: "user_info option \<Rightarrow> string list" where
  "profile_fields u =
     (let get = (\<lambda>f. Option.bind u f)
      in [case get username of Some x \<Rightarrow> x | None \<Rightarrow> [],
          case get email of Some x \<Rightarrow> x | None \<Rightarrow> [],
          js_or_str (get full_name) ''Not provided'',
          js_or_str (get phone) ''Not provided''])"

subsection \<open>Links of the other pages\<close>

text \<open>\<open>Products.js\<close>: the image, the name and \<open>View Details\<close> of each card (lines 196, 212, 229).\<close>

fun products_links :: "products_view \<Rightarrow> link list" where
  "products_links (ProductGrid cards pg) = concat (map (\<lambda>(pid, b). replicate 3 (ToProduct pid)) cards)"
| "products_links v = []"

text \<open>\<open>Wishlist.js\<close>: \<open>Browse Products\<close> when empty (line 34); the image, the name and
  \<open>View\<close> of each card (lines 43, 59, 80).\<close>

fun wishlist_links :: "wishlist_view \<Rightarrow> link list" where
  "wishlist_links WishlistSpinner = []"
| "wishlist_links WishlistEmpty = [Fixed ''/products'']"
| "wishlist_links (WishlistGrid cards) = concat (map (\<lambda>(pid, b). replicate 3 (ToProduct pid)) cards)"

text \<open>\<open>Cart.js\<close>: \<open>Login\<close> (line 19), \<open>Continue Shopping\<close> when empty (line 45), each line's
  product (line 110), \<open>Proceed to Checkout\<close> and \<open>Continue Shopping\<close> (lines 192, 198).\<close>

fun cart_links :: "cart_view \<Rightarrow> link list" where
  "cart_links LoginPrompt = [Fixed ''/login'']"
| "cart_links CartSpinner = []"
| "cart_links EmptyCartView = [Fixed ''/products'']"
| "cart_links (CartListView ls sm) =
     map (ToProduct \<circ> product_id) ls @ [Fixed ''/checkout'', Fixed ''/products'']"

text \<open>\<open>ProductDetail.js\<close>: \<open>Back to Products\<close> (line 41), the breadcrumb (lines 79, 81) and
  \<open>Login to Purchase\<close> (line 173).\<close>

fun detail_links :: "detail_view \<Rightarrow> link list" where
  "detail_links ProductNotFound = [Fixed ''/products'']"
| "detail_links (DetailShown st opts LoginToPurchase) = [Fixed ''/'', Fixed ''/products'', Fixed ''/login'']"
| "detail_links (DetailShown st opts (AddToCartButton b)) = [Fixed ''/'', Fixed ''/products'']"
| "detail_links v = []"

text \<open>The places the code navigates to: \<open>Checkout.js\<close> (lines 51, 61, 66), the guards of
  \<open>App.js\<close> (lines 37, 41, 56) and the 401 handler of \<open>services/api.js\<close> (line 32).\<close>

definition navigation_targets :: "link list" where
  "navigation_targets =
     [Fixed ''/orders'', Fixed ''/login'', Fixed ''/cart'', Fixed ''/login'', Fixed ''/'', Fixed ''/'', Fixed ''/login'']"

definition app_links ::
  "home_products \<Rightarrow> products_view \<Rightarrow> wishlist_view \<Rightarrow> cart_view \<Rightarrow> detail_view \<Rightarrow> link list" where
  "app_links hv pv wv cv dv =
     footer_links @ admin_links @ navigation_targets @ home_links hv @ products_links pv @
     wishlist_links wv @ cart_links cv @ detail_links dv"

text \<open>A link is sound when it reaches a route: a fixed path any page but \<open>NotFound\<close>, a product
  link the product page of that id, provided the id is one path segment.\<close>

fun link_ok :: "link \<Rightarrow> bool" where
  "link_ok (Fixed p) = (snd (resolve_in route_table (path_segments p)) \<noteq> NotFoundPage)"
| "link_ok (ToProduct pid) =
     (path_segment_ok pid \<longrightarrow>
        resolve_in route_table (path_segments (link_path (ToProduct pid))) = (NoGuard, ProductDetailPage pid))"

subsection \<open>Every link reaches a route\<close>

lemma product_link_resolves:
  assumes "path_segment_ok pid"
  shows "resolve_in route_table (path_segments (''/products/'' @ pid)) = (NoGuard, ProductDetailPage pid)"
proof -
  have "js_split (CHR ''/'') pid = [pid]" and "pid \<noteq> []"
    using assms by (simp_all add: path_segment_ok_def js_split_no_sep)
  then show ?thesis by (simp add: path_segments_def route_table_def)
qed

lemma link_ok_ToProduct [simp]: "link_ok (ToProduct pid)"
  unfolding link_ok.simps link_path.simps using product_link_resolves by blast

lemma fixed_links_ok [simp]:
  "link_ok (Fixed ''/'')" "link_ok (Fixed ''/products'')" "link_ok (Fixed ''/cart'')"
  "link_ok (Fixed ''/orders'')" "link_ok (Fixed ''/login'')" "link_ok (Fixed ''/checkout'')"
  by (simp_all add: path_segments_def route_table_def)

lemma home_links_ok: "list_all link_ok (home_links hv)"
  by (cases hv) (simp_all add: list_all_iff del: link_ok.simps)

lemma products_links_ok: "list_all link_ok (products_links pv)"
  by (cases pv) (auto simp: list_all_iff simp del: link_ok.simps)

lemma wishlist_links_ok: "list_all link_ok (wishlist_links wv)"
  by (cases wv) (auto simp: list_all_iff simp del: link_ok.simps)

lemma cart_links_ok: "list_all link_ok (cart_links cv)"
  by (cases cv) (auto simp: list_all_iff simp del: link_ok.simps)

lemma detail_links_ok: "list_all link_ok (detail_links dv)"
  by (cases dv rule: detail_links.cases) (simp_all del: link_ok.simps)

lemmas page_links_ok = home_links_ok products_links_ok wishlist_links_ok cart_links_ok detail_links_ok

text \<open>
  [C15] Link integrity: every link the application renders (footer, home page, admin
  dashboard, product list, wishlist, cart, product page) and every place its code navigates
  to reaches a route of \<open>App.js\<close>, a product link the page of that product whenever the id
  is one path segment; the admin dashboard's links all lead to admin-only routes.
\<close>

theorem app_links_resolve:
  "list_all link_ok (app_links hv pv wv cv dv) \<and>
   list_all (\<lambda>l. fst (resolve_in route_table (path_segments (link_path l))) = AdminOnly) admin_links"
proof -
  have "list_all link_ok (footer_links @ admin_links @ navigation_targets)" and
    "list_all (\<lambda>l. fst (resolve_in route_table (path_segments (link_path l))) = AdminOnly) admin_links"
    by (simp_all add: footer_links_def admin_links_def admin_quick_actions_def navigation_targets_def
                      path_segments_def route_table_def)
  then show ?thesis
    by (simp add: app_links_def page_links_ok del: link_ok.simps)
qed

theorem app_links_resolve_witness:
  "path_segment_ok ''p1'' \<and>
   link_ok (ToProduct ''p1'') \<and>
   resolve_in route_table (path_segments (link_path (ToProduct ''p1''))) = (NoGuard, ProductDetailPage ''p1'')"
proof -
  have "list_all link_ok (app_links (HomeCards [''p1'']) NoProductsFound WishlistEmpty EmptyCartView ProductNotFound)"
    using app_links_resolve by blast
  then have l: "link_ok (ToProduct ''p1'')"
    by (simp add: app_links_def del: link_ok.simps)
  have p: "path_segment_ok ''p1''" by (simp add: path_segment_ok_def)
  show ?thesis using l p by simp
qed

end
