(* ===== verification/Controls.thy ===== *)
theory Controls
  imports Site
begin

text \<open>
  The native controls of the pages that have no React handler:
  \<^item> the \<open><a href="#">\<close> anchors of \<open>components/layout/Footer.js\<close>;
  \<^item> the newsletter forms of \<open>pages/Home.js\<close> and \<open>Footer.js\<close>: a \<open><form>\<close> with neither
    \<open>onSubmit\<close> nor \<open>action\<close>, one \<open><input type="email">\<close> without a \<open>name\<close> and a
    submit button, so the address typed is never handed to any code of the client;
  \<^item> the wishlist and share icon buttons of \<open>pages/ProductDetail.js\<close>, which have no
    \<open>onClick\<close>.
  The footer is listed in render order, with its router links drawn from \<open>Site.footer_links\<close>.
  What the browser does with these controls is not modelled.
\<close>

subsection \<open>Controls\<close>

datatype control =
    RouterLink link string
  | HashAnchor string
  | NewsletterForm
  | InertButton string

text \<open>The footer (lines 4--143) in render order: the social anchors (lines 20--39), the quick
  links (lines 42--68, \<open>Site.footer_links\<close>), the customer service anchors (lines 71--98),
  the newsletter form (lines 100--121) and the legal anchors (lines 124--139).\<close>

definition footer_social :: "control list" where
  "footer_social = [HashAnchor ''Facebook'', HashAnchor ''Instagram'', HashAnchor ''Twitter'']"

definition footer_service :: "control list" where
  "footer_service =
     [HashAnchor ''Contact Us'', HashAnchor ''FAQs'', HashAnchor ''Shipping Info'', HashAnchor ''Returns'']"

definition footer_newsletter :: control where
  "footer_newsletter = NewsletterForm"

definition footer_legal :: "control list" where
  "footer_legal = [HashAnchor ''Privacy Policy'', HashAnchor ''Terms of Service'', HashAnchor ''Cookie Policy'']"

definition footer_controls :: "control list" where
  "footer_controls =
     footer_social @
     map2 RouterLink footer_links [''Home'', ''Products'', ''Cart'', ''Orders''] @
     footer_service @ [footer_newsletter] @ footer_legal"

text \<open>The newsletter section of the home page (lines 154--175).\<close>

definition home_newsletter :: control where
  "home_newsletter = NewsletterForm"

text \<open>The icon buttons beside \<open>Add to Cart\<close> on the product page (lines 180--185).\<close>

definition detail_icon_buttons :: "control list" where
  "detail_icon_buttons = [InertButton ''Wishlist'', InertButton ''Share'']"

subsection \<open>The controls of the footer\<close>

lemma footer_controls_cases:
  "c \<in> set footer_controls \<Longrightarrow>
     (\<exists>l lbl. c = RouterLink l lbl \<and> l \<in> set footer_links) \<or> (\<exists>lbl. c = HashAnchor lbl) \<or> c = NewsletterForm"
  by (auto simp: footer_controls_def footer_social_def footer_service_def footer_legal_def
                 footer_newsletter_def footer_links_def)

end
