(* ===== verification/Network.thy ===== *)
theory Network
  imports Backend
begin

text \<open>
  Overlapping operations of the cart synchronizer (\<open>contexts/CartContext.js\<close>) against the
  cart service of \<open>Backend\<close>: the user may start operations while others are in flight, and
  the network decides in which order the service processes the requests and in which order
  their responses arrive.  The provider has no sequence numbers (spec section 5 asks for
  them), so its correctness depends on the network:
  \<^item> when every response is delivered before the next request is processed (\<open>net_step\<close>),
    overlapping operations converge: whenever nothing is in flight, the display mirrors the
    service, whatever the order of processing;
  \<^item> when responses may overtake each other (\<open>wire_step\<close>), a stale response installed last
    leaves the page showing a cart the service no longer holds, with nothing in flight.
\<close>

subsection \<open>Two networks\<close>

text \<open>
  The atomic network: a user action, or the service processing one request in flight (any of
  them, not necessarily the oldest) with its response delivered at once.
\<close>

datatype net_event = UserAct user_action | Answer nat

fun net_step :: "cart_state \<times> backend \<Rightarrow> net_event \<Rightarrow> cart_state \<times> backend" where
  "net_step (s, b) (UserAct a) = (cart_step s (action_event a), b)"
| "net_step (s, b) (Answer i) =
     (case map_of (pending s) i of
        None \<Rightarrow> (s, b)
      | Some k \<Rightarrow>
          (case map_of (sent s) i of
             None \<Rightarrow> (s, b)
           | Some (t, c) \<Rightarrow> (case backend_handle b t c of (r, b') \<Rightarrow> (cart_step s (Deliver i r), b'))))"

definition net_run :: "cart_state \<times> backend \<Rightarrow> net_event list \<Rightarrow> cart_state \<times> backend" where
  "net_run sb es = foldl net_step sb es"

text \<open>The events of a fixed session: cart operations, refreshes and answers.\<close>

fun net_event_ok :: "net_event \<Rightarrow> bool" where
  "net_event_ok (UserAct (Act op)) = True"
| "net_event_ok (UserAct RefreshAct) = True"
| "net_event_ok (UserAct a) = False"
| "net_event_ok (Answer i) = True"

text \<open>
  The network with processing and delivery apart: the service processes a request in flight
  (its response waits in the outbox \<open>ob\<close>) and a processed response is delivered later, in
  any order.
\<close>

datatype wire_event = WUser user_action | WProcess nat | WDeliver nat

fun wire_step ::
  "cart_state \<times> backend \<times> (nat \<times> api_result) list \<Rightarrow> wire_event \<Rightarrow> cart_state \<times> backend \<times> (nat \<times> api_result) list" where
  "wire_step (s, b, ob) (WUser a) = (cart_step s (action_event a), b, ob)"
| "wire_step (s, b, ob) (WProcess i) =
     (if i \<in> fst ` set (pending s) \<and> i \<notin> fst ` set ob
      then (case map_of (sent s) i of
              None \<Rightarrow> (s, b, ob)
            | Some (t, c) \<Rightarrow> (case backend_handle b t c of (r, b') \<Rightarrow> (s, b', ob @ [(i, r)])))
      else (s, b, ob))"
| "wire_step (s, b, ob) (WDeliver i) =
     (case map_of ob i of
        None \<Rightarrow> (s, b, ob)
      | Some r \<Rightarrow> (cart_step s (Deliver i r), b, filter (\<lambda>p. fst p \<noteq> i) ob))"

definition wire_run ::
  "cart_state \<times> backend \<times> (nat \<times> api_result) list \<Rightarrow> wire_event list \<Rightarrow> cart_state \<times> backend \<times> (nat \<times> api_result) list" where
  "wire_run x es = foldl wire_step x es"

text \<open>
  The invariant of a fixed session \<open>t\<close>: well-formed provider and service, every request in
  flight carries \<open>t\<close>, and the display is the service's snapshot unless a \<open>getCart\<close> is
  still in flight.
\<close>

definition net_inv :: "token \<Rightarrow> backend \<Rightarrow> cart_state \<Rightarrow> bool" where
  "net_inv t b s \<longleftrightarrow>
     cart_wf s \<and> backend_wf b \<and> cs_authenticated s \<and> cs_token s = Some t \<and> t \<noteq> [] \<and>
     carts b t \<noteq> None \<and> count_inv s \<and> list_all (\<lambda>p. task_token (snd p) = Some t) (pending s) \<and>
     (cart s = backend_cart b (the (carts b t)) \<or> (\<exists>i o'. (i, FetchTask (Some t) o') \<in> set (pending s)))"

subsection \<open>Convergence under in-order delivery\<close>

lemma requests_wf_sent:
  assumes "requests_wf s" and "(i, k) \<in> set (pending s)"
  shows "map_of (sent s) i = Some (task_token k, task_call k)"
proof -
  have "distinct (map fst (sent s))" using assms(1) by (simp add: requests_wf_def)
  moreover have "(i, task_token k, task_call k) \<in> set (sent s)"
    using assms unfolding requests_wf_def by blast
  ultimately show ?thesis by (rule map_of_is_SomeI)
qed

lemma net_inv_mirrors: "mirrors b s \<Longrightarrow> backend_wf b \<Longrightarrow> cs_authenticated s \<Longrightarrow> cs_token s = Some t \<Longrightarrow> net_inv t b s"
  by (auto simp: mirrors_def net_inv_def count_inv_def split: option.splits)

lemma net_inv_quiescent:
  assumes "net_inv t b s" and "pending s = []"
  shows "mirrors b s"
  using assms by (auto simp: mirrors_def net_inv_def count_inv_def)

lemma resume_pending:
  "pending (resume k r s) = pending s \<or>
   (\<exists>op. k = MutateTask (task_token k) op \<and>
          pending (resume k r s) = pending s @ [(next_req s, FetchTask (task_token k) (Some op))])"
  by (cases k; cases r) (auto split: option.split)

lemma resume_session [simp]:
  "cs_authenticated (resume k r s) = cs_authenticated s" "cs_token (resume k r s) = cs_token s"
  by (cases k; cases r; simp split: option.split)+

lemma backend_call_items:
  "fst (backend_call b t ls c) = Success d \<Longrightarrow> items d \<noteq> None"
  by (cases c) (auto simp: reject_def accept_def Let_def backend_cart_def split: if_splits option.splits)

lemma net_inv_invoke:
  assumes "net_inv t b s"
  shows "net_inv t b (cart_step s (Invoke op))"
proof -
  have "cart_wf s" "count_inv s" using assms by (simp_all add: net_inv_def)
  then have w: "cart_wf (cart_step s (Invoke op))" and c: "count_inv (cart_step s (Invoke op))"
    using cart_wf_step [of s "Invoke op"] count_inv_step [of s "Invoke op"] by simp_all
  show ?thesis
    using assms w c by (auto simp: net_inv_def cart_mutation_def issue_def)
qed

lemma net_inv_refresh:
  assumes "net_inv t b s"
  shows "net_inv t b (cart_step s Refresh)"
proof -
  have "cart_wf s" "count_inv s" using assms by (simp_all add: net_inv_def)
  then have w: "cart_wf (cart_step s (Refresh))" and c: "count_inv (cart_step s (Refresh))"
    using cart_wf_step [of s "Refresh"] count_inv_step [of s "Refresh"] by simp_all
  show ?thesis
    using assms w c by (auto simp: net_inv_def fetch_cart_def issue_def)
qed

lemma net_inv_answer:
  assumes inv: "net_inv t b s"
  shows "net_inv t (snd (net_step (s, b) (Answer i))) (fst (net_step (s, b) (Answer i)))"
proof (cases "map_of (pending s) i")
  case None
  then show ?thesis using inv by simp
next
  case (Some k)
  have ik: "(i, k) \<in> set (pending s)" using Some by (rule map_of_SomeD)
  have w: "cart_wf s" and bw: "backend_wf b" and c: "count_inv s" and tk: "task_token k = Some t"
    using inv ik by (auto simp: net_inv_def list_all_iff)
  obtain ls where ls: "carts b t = Some ls" using inv by (auto simp: net_inv_def)
  have lw: "lines_wf (catalogue b) ls" using backend_wf_lines [OF bw ls] .
  have dk: "distinct (map fst (pending s))" using w by (simp add: cart_wf_def requests_wf_def)
  have sent_i: "map_of (sent s) i = Some (Some t, task_call k)"
    using requests_wf_sent [of s i k] w ik tk by (simp add: cart_wf_def)
  obtain r b' where h: "backend_call b t ls (task_call k) = (r, b')" by fastforce
  have step: "net_step (s, b) (Answer i) = (cart_step s (Deliver i r), b')"
    using Some sent_i h ls by (simp add: backend_handle_session)
  define s0 where "s0 = s\<lparr>pending := filter (\<lambda>p. fst p \<noteq> i) (pending s)\<rparr>"
  have d: "cart_step s (Deliver i r) = resume k r s0" using Some by (simp add: deliver_def s0_def)
  have w': "cart_wf (resume k r s0)" using cart_wf_step [OF w, of "Deliver i r"] d by simp
  have "\<forall>dd. r = Success dd \<longrightarrow> items dd \<noteq> None"
    using backend_call_items [of b t ls "task_call k"] h by auto
  then have c': "count_inv (resume k r s0)"
    using count_inv_step [OF c, of "Deliver i r"] d by (cases r) auto
  have bw': "backend_wf b' \<and> dom (carts b') = dom (carts b)"
    using backend_handle_inv [OF bw, of "Some t" "task_call k"] h ls by (simp add: backend_handle_session)
  then obtain ls' where ls': "carts b' t = Some ls'" using ls by (metis domD domI)
  have toks: "list_all (\<lambda>p. task_token (snd p) = Some t) (pending (resume k r s0))"
    using resume_pending [of k r s0] inv tk by (auto simp: net_inv_def s0_def list_all_iff)
  have disj: "cart (resume k r s0) = backend_cart b' (the (carts b' t)) \<or>
              (\<exists>j o'. (j, FetchTask (Some t) o') \<in> set (pending (resume k r s0)))"
  proof (cases k)
    case (FetchTask t' o')
    then have "r = Success (backend_cart b ls)" "b' = b" using h by auto
    then show ?thesis using FetchTask ls by (simp add: s0_def split: option.split)
  next
    case (MutateTask t' op)
    have t': "t' = Some t" using tk MutateTask by simp
    from backend_call_outcome [OF ls lw, of "task_call k"] show ?thesis
    proof
      assume "\<exists>e. backend_call b t ls (task_call k) = (Failure e, b)"
      then obtain e where re: "r = Failure e" "b' = b" using h by auto
      have old: "cart s = backend_cart b ls \<or> (\<exists>j o'. (j, FetchTask (Some t) o') \<in> set (pending s))"
        using inv ls by (simp add: net_inv_def)
      have "j \<noteq> i" if "(j, FetchTask (Some t) o') \<in> set (pending s)" for j o'
        using that ik dk MutateTask by (metis eq_key_imp_eq_value task.distinct(1))
      then show ?thesis using old re MutateTask ls by (auto simp: s0_def)
    next
      assume "\<exists>ls''. backend_call b t ls (task_call k) = accept t ls'' b \<and> lines_wf (catalogue b) ls''"
      then obtain d where "r = Success d" using h by (auto simp: accept_def Let_def)
      then show ?thesis using MutateTask t' by (auto simp: fetch_cart_def issue_def)
    qed
  qed
  have "net_inv t b' (resume k r s0)"
    using w' c' bw' ls' toks disj inv by (simp add: net_inv_def s0_def)
  then show ?thesis using step d by simp
qed

lemma net_inv_step:
  assumes "net_inv t b s" and "net_event_ok e"
  shows "net_inv t (snd (net_step (s, b) e)) (fst (net_step (s, b) e))"
proof (cases e)
  case (UserAct a)
  then show ?thesis
    using assms net_inv_invoke [OF assms(1)] net_inv_refresh [OF assms(1)] by (cases a) simp_all
next
  case (Answer i)
  then show ?thesis using net_inv_answer [OF assms(1)] by simp
qed

lemma net_inv_run:
  "net_inv t b s \<Longrightarrow> list_all net_event_ok es \<Longrightarrow>
   net_inv t (snd (net_run (s, b) es)) (fst (net_run (s, b) es))"
proof (induction es arbitrary: s b)
  case Nil
  then show ?case by (simp add: net_run_def)
next
  case (Cons e es)
  obtain s1 b1 where e: "net_step (s, b) e = (s1, b1)" by fastforce
  have "net_inv t b1 s1" using net_inv_step [OF Cons.prems(1), of e] Cons.prems(2) e by simp
  then show ?case using Cons.IH [of b1 s1] Cons.prems(2) e by (simp add: net_run_def)
qed

text \<open>
  [C11] Overlapping operations converge when every response arrives before the next request is
  processed: from a mirrored logged-in state, whatever cart operations and refreshes the
  user starts while others are in flight, and in whatever order the service processes the
  requests, each time nothing is in flight the display is the service's snapshot of the
  session's cart and the badge its count.
\<close>

theorem overlapping_operations_converge:
  assumes "mirrors b s" and "backend_wf b" and "cs_authenticated s"
    and "list_all net_event_ok es" and "pending (fst (net_run (s, b) es)) = []"
  shows "mirrors (snd (net_run (s, b) es)) (fst (net_run (s, b) es))"
proof -
  obtain t ls where "cs_token s = Some t" "t \<noteq> []" "carts b t = Some ls" "cart s = backend_cart b ls"
    using assms(1,3) by (rule mirrors_session)
  then have "net_inv t b s" using assms(1-3) by (intro net_inv_mirrors)
  then show ?thesis using net_inv_run assms(4,5) net_inv_quiescent by blast
qed

theorem overlapping_operations_converge_witness:
  "mirrors sample_backend sample_session \<and> backend_wf sample_backend \<and> cs_authenticated sample_session \<and>
   list_all net_event_ok [UserAct (Act (AddToCart ''p1'' 1)), UserAct (Act (AddToCart ''p1'' 2)),
     Answer 2, Answer 1, Answer 4, Answer 3] \<and>
   pending (fst (net_run (sample_session, sample_backend) [UserAct (Act (AddToCart ''p1'' 1)),
     UserAct (Act (AddToCart ''p1'' 2)), Answer 2, Answer 1, Answer 4, Answer 3])) = [] \<and>
   mirrors (snd (net_run (sample_session, sample_backend) [UserAct (Act (AddToCart ''p1'' 1)),
     UserAct (Act (AddToCart ''p1'' 2)), Answer 2, Answer 1, Answer 4, Answer 3]))
     (fst (net_run (sample_session, sample_backend) [UserAct (Act (AddToCart ''p1'' 1)),
     UserAct (Act (AddToCart ''p1'' 2)), Answer 2, Answer 1, Answer 4, Answer 3])) \<and>
   cartCount (fst (net_run (sample_session, sample_backend) [UserAct (Act (AddToCart ''p1'' 1)),
     UserAct (Act (AddToCart ''p1'' 2)), Answer 2, Answer 1, Answer 4, Answer 3])) = 5"
proof -
  note h = sample_facts
  have l: "list_all net_event_ok [UserAct (Act (AddToCart ''p1'' 1)), UserAct (Act (AddToCart ''p1'' 2)),
     Answer 2, Answer 1, Answer 4, Answer 3]" by simp
  have p: "pending (fst (net_run (sample_session, sample_backend) [UserAct (Act (AddToCart ''p1'' 1)),
     UserAct (Act (AddToCart ''p1'' 2)), Answer 2, Answer 1, Answer 4, Answer 3])) = [] \<and>
     cartCount (fst (net_run (sample_session, sample_backend) [UserAct (Act (AddToCart ''p1'' 1)),
     UserAct (Act (AddToCart ''p1'' 2)), Answer 2, Answer 1, Answer 4, Answer 3])) = 5"
    by (simp add: closed_loop_simps net_run_def)
  show ?thesis using overlapping_operations_converge [OF h(1,2,3) l] p h l by blast
qed

subsection \<open>Divergence when responses overtake each other\<close>

text \<open>An answer of the atomic model is a processing immediately followed by its delivery.\<close>

lemma answer_is_process_deliver:
  "wire_step (wire_step (s, b, []) (WProcess i)) (WDeliver i) =
     (fst (net_step (s, b) (Answer i)), snd (net_step (s, b) (Answer i)), [])"
  by (auto simp: image_iff map_of_eq_None_iff split: option.split prod.split dest!: map_of_SomeD)

lemma sent_fresh_above:
  "requests_wf s \<Longrightarrow> next_req s \<le> k \<Longrightarrow> map_of (sent s) k = None"
proof -
  assume wf: "requests_wf s" and k: "next_req s \<le> k"
  have "fst ` set (sent s) = {0..<next_req s}"
    using wf unfolding requests_wf_def by (metis atLeastLessThan_upt list.set_map)
  then show ?thesis using k by (auto simp: map_of_eq_None_iff)
qed

lemma snapshot_nonempty:
  assumes "lines_wf cat ls" and "ls \<noteq> []"
  shows "snapshot_lines cat ls \<noteq> [] \<and> 0 < cart_count (snapshot_lines cat ls)"
proof -
  have in_cat: "list_all (\<lambda>(p, q). cat p \<noteq> None) ls" and pos: "\<forall>(p, q) \<in> set ls. 1 \<le> q"
    using assms(1) by (auto simp: lines_wf_def list_all_iff split: option.splits)
  have "map quantity (snapshot_lines cat ls) = map snd ls" using in_cat by (rule snapshot_quantities)
  moreover obtain p q ls' where "ls = (p, q) # ls'" using assms(2) by (cases ls) auto
  moreover have "0 \<le> sum_list (map snd ls')"
    using pos calculation(2) by (intro sum_list_map_nonneg) auto
  ultimately show ?thesis using pos by (auto simp: cart_count_eq_sum)
qed

text \<open>
  [C12] Without sequence numbers, a response delivered out of the order in which the service
  processed the requests resurrects a stale cart (the scenario of spec section 5).  From
  every logged-in session that mirrors a non-empty service cart: a refresh is processed,
  then a \<open>clearCart\<close> and its refetch are processed and delivered, and the refresh's response
  arrives last.  Nothing is in flight, the service's cart is empty and \<open>clearCart\<close>
  resolved to true, yet the page shows the cart as it was before the clear, with a positive
  badge.
\<close>

theorem reordered_responses_diverge:
  assumes m: "mirrors b s" and wf: "backend_wf b" and a: "cs_authenticated s"
    and t: "cs_token s = Some t" and ls: "carts b t = Some ls" "ls \<noteq> []"
  shows "case wire_run (s, b, [])
            [WUser RefreshAct, WProcess (next_req s), WUser (Act ClearCart), WProcess (next_req s + 1),
             WDeliver (next_req s + 1), WProcess (next_req s + 2), WDeliver (next_req s + 2),
             WDeliver (next_req s)] of (s', b', ob) \<Rightarrow>
     pending s' = [] \<and> ob = [] \<and> carts b' t = Some [] \<and> results s' = results s @ [(ClearCart, True)] \<and>
     cart s' = cart s \<and> cart s' \<noteq> backend_cart b' [] \<and> 0 < cartCount s'"
proof -
  let ?n = "next_req s"
  have wfs: "requests_wf s" and p: "pending s = []" using m by (simp_all add: mirrors_def cart_wf_def)
  have c: "cart s = backend_cart b ls"
    using mirrors_session [OF m a] t ls by (metis option.inject)
  have f: "map_of (sent s) k = None" if "?n \<le> k" for k using sent_fresh_above [OF wfs that] .
  have sn: "snapshot_lines (catalogue b) ls \<noteq> [] \<and> 0 < cart_count (snapshot_lines (catalogue b) ls)"
    using snapshot_nonempty [OF backend_wf_lines [OF wf ls(1)] ls(2)] .
  have f0: "map_of (sent s) ?n = None" and f1: "map_of (sent s) (Suc ?n) = None"
    and f2: "map_of (sent s) (Suc (Suc ?n)) = None" using f by simp_all
  show ?thesis
    using a t ls(1) p c f0 f1 f2 sn
    by (simp add: wire_run_def fetch_cart_def issue_def cart_mutation_def deliver_def fetch_settled_def
                  backend_handle_def accept_def Let_def map_add_def backend_cart_def cart_items_def)
qed

theorem reordered_responses_diverge_witness:
  "case wire_run (sample_session, sample_backend, [])
          [WUser RefreshAct, WProcess (next_req sample_session), WUser (Act ClearCart),
           WProcess (next_req sample_session + 1), WDeliver (next_req sample_session + 1),
           WProcess (next_req sample_session + 2), WDeliver (next_req sample_session + 2),
           WDeliver (next_req sample_session)] of (s', b', ob) \<Rightarrow>
     pending s' = [] \<and> ob = [] \<and> carts b' ''tok'' = Some [] \<and>
     results s' = results sample_session @ [(ClearCart, True)] \<and>
     cart s' = cart sample_session \<and> cart s' \<noteq> backend_cart b' [] \<and> 0 < cartCount s'"
proof -
  have c: "carts sample_backend ''tok'' = Some [(''p1'', 2)]" "[(''p1'', 2)] \<noteq> []" by simp_all
  show ?thesis by (rule reordered_responses_diverge [OF sample_facts(1-4) c])
qed

end
