(* ===== verification/Spec2Isabelle.thy ===== *)
theory Spec2Isabelle
  imports Prelude Api CartSync CartSpec Backend System Router CartPage Display Catalog ProductPage Site Controls Network
begin

text \<open>
  \<^bold>\<open>TrendNest storefront client: a verification development.\<close>

  The repository (\<open>src/frontend/src\<close>) is the React client of a web shop.  Its only
  stateful logic is the cart synchronizer \<open>contexts/CartContext.js\<close>, which mirrors the
  server's cart, and the HTTP layer \<open>services/api.js\<close>, through which every request goes;
  the session holder \<open>contexts/AuthContext.js\<close> is imported but not in the repository.
  \<open>App.js\<close> routes and guards the pages, which read the synchronizer's state and call its
  operations.

  \<^bold>\<open>Theories.\<close>
  \<^item> \<open>Prelude\<close>: how JavaScript values are read (strings, \<open>rat\<close> for money, \<open>int\<close> for
    quantities, \<open>option\<close> for missing fields), the \<open>||\<close> operator, \<open>String(n)\<close> and the
    value of a digit string, \<open>split\<close> and \<open>join\<close> on one character, and generic lemmas on
    folds, association lists and request queues.
  \<^item> \<open>Api\<close> (\<open>services/api.js\<close>): the endpoint table of every API object as the datatype
    \<open>api_call\<close> with \<open>api_route\<close> and \<open>takes_token\<close>; the request interceptor
    (\<open>request_interceptor\<close>, \<open>api_request\<close>) and the response interceptor
    (\<open>response_interceptor\<close>) over a \<open>browser\<close> record holding \<open>localStorage\<close>'s token and
    \<open>window.location\<close>.
  \<^item> \<open>CartSync\<close> (\<open>contexts/CartContext.js\<close>): the provider's state as the record
    \<open>cart_state\<close>; \<open>fetchCart\<close> and the four mutations split at their \<open>await\<close>s into
    \<open>fetch_cart\<close>/\<open>cart_mutation\<close> (up to the await) and \<open>resume\<close> (after it); the
    \<open>useEffect\<close> on \<open>[isAuthenticated, token]\<close> as \<open>auth_effect\<close>/\<open>auth_change\<close>.
    Requests in flight are an association list from request numbers to the suspended
    continuation; the environment delivers responses in any order (\<open>deliver\<close>), so the
    component is the step function \<open>cart_step\<close> over \<open>cart_event\<close>s, runs are
    \<open>cart_run\<close>, and \<open>cart_reachable\<close> is the set of states reachable from a mount.
    \<open>drain\<close> answers the oldest request in flight for a given number of rounds.
  \<^item> \<open>CartSpec\<close>: the well-formedness of provider states (\<open>cart_wf\<close>: request numbering and
    bookkeeping) and the handlers read as if every \<open>await\<close> returned at once
    (\<open>fetch_atomic\<close>, \<open>mutation_atomic\<close>) over the observable state \<open>cart_obs\<close>, with the
    lemma \<open>seq_step_refines\<close> relating the two readings; it is the proof device through
    which \<open>Backend\<close> runs one user action at a time.
  \<^item> \<open>Backend\<close>: the backend's cart service, which is not in the repository, modelled
    from spec sections 3 and 6 to 8 (\<open>backend\<close>: a catalogue with stock and a cart per
    issued credential; \<open>backend_call\<close>: get, add merged into the line and bounded by stock,
    update, remove, clear; \<open>backend_handle\<close>: 401 without a known credential), and the
    closed loop in which the service answers the requests the provider puts on the wire,
    oldest first (\<open>serve\<close>), each user action running until it settles
    (\<open>closed_step\<close>).
  \<^item> \<open>Network\<close>: overlapping user operations against the service under two networks:
    \<open>net_step\<close>, where the service processes any request in flight and its response is
    delivered at once, and \<open>wire_step\<close>, where processing and delivery are separate
    events and responses may overtake each other.
  \<^item> \<open>System\<close>: the session holder from its contract (spec section 4.1, \<open>session\<close>,
    \<open>set_credential\<close>, \<open>clear_credential\<close>) and the composed application \<open>system\<close>:
    browser, session, provider and the requests on the wire.  \<open>sys_step\<close> runs logins,
    logouts, cart calls and responses; a response passes the response interceptor first,
    and a 401 reloads the application (\<open>page_load\<close>).  Every request the provider sends goes
    through \<open>cartAPI\<close> and the request interceptor (\<open>transmit\<close>).
  \<^item> \<open>Router\<close> (\<open>App.js\<close>): the route table, React Router's matching over path segments,
    \<open>ProtectedRoute\<close> and \<open>PublicRoute\<close> (\<open>app_render\<close>).
  \<^item> \<open>CartPage\<close> (\<open>pages/Cart.js\<close>, \<open>pages/Checkout.js\<close>): render decisions, the order
    summary arithmetic of both pages, the quantity handler, checkout validation
    (\<open>js_trim\<close>), submission and its completion composed with the synchronizer.
  \<^item> \<open>Display\<close> (\<open>pages/Cart.js\<close>, \<open>pages/Checkout.js\<close>): the money the two pages print:
    \<open>Number.prototype.toFixed(2)\<close> (\<open>to_fixed2\<close>, the standard's algorithm on the exact
    amount), the line totals, the summary rows of each page and the free-shipping hint, and a
    reader of printed amounts (\<open>decimal_value\<close>) to state what the shopper sees.
  \<^item> \<open>Catalog\<close> (\<open>pages/Products.js\<close>, \<open>pages/ProductDetail.js\<close>): the filter state and
    its URL synchronisation, sorting, pagination, the products and categories queries, the
    product grid and its \<open>Add to Cart\<close> buttons, the quantity selector and the stars.
  \<^item> \<open>ProductPage\<close> (\<open>pages/ProductDetail.js\<close>, \<open>pages/Wishlist.js\<close>): the product
    page's render decisions, its quantity select, \<open>handleAddToCart\<close> before and after its
    \<open>await\<close>, and react-query's refetches of the product, as a step function over the
    rendered product, the page's quantity and the provider (\<open>detail_step\<close>); its product
    details list, and the wishlist's render decisions and buttons.
  \<^item> \<open>Site\<close> (\<open>pages/Home.js\<close>, \<open>components/layout/Footer.js\<close>,
    \<open>pages/admin/AdminDashboard.js\<close>, \<open>pages/Profile.js\<close>): the home page's query, features
    and featured cards, the footer's quick links, the dashboard's stats and quick actions, the
    profile fields, and the links every page renders (\<open>link\<close>: a fixed path or
    \<open>`/products/${id}`\<close>), the dashboard's stat cards and recent activity, and
    \<open>pages/admin/AdminUsers.js\<close> (a heading and a placeholder).
  \<^item> \<open>Controls\<close>: the controls without a React handler (the footer's \<open>href="#"\<close>
    anchors, the newsletter forms of \<open>Home.js\<close> and \<open>Footer.js\<close>, the product page's
    icon buttons), listed as the pages render them.

  \<^bold>\<open>What is proved.\<close>
  In \<open>CartSync\<close>: the badge invariant (\<open>cartCount\<close> is the sum of the displayed quantities
  under a server that always sends \<open>items\<close>), and, from any state, its failure when a
  payload lacks \<open>items\<close>; the unauthenticated guard (no request, result \<open>false\<close>); the full
  success path of a mutation from any reachable state; the failure path (nothing changes);
  logout clearing the cart; the spinner invariant; liveness: whatever the server answers,
  answering the oldest request \<open>in_flight_weight\<close> times (a mutation weighs 2, as its
  answer may issue one refetch; a fetch weighs 1) settles every request, and the results
  appended are exactly the mutations owed an answer, as a multiset.  Divergences from the
  spec, each proved from an arbitrary state: a \<open>getCart\<close> in flight at logout installs the
  previous user's cart; a mutation reports success although its refresh failed; a payload
  without \<open>items\<close> is installed while the badge keeps the old count.  The last two are in
  the handlers themselves (\<open>fetchCart\<close> swallows its errors; \<open>setCart\<close> runs before the
  \<open>reduce\<close> that throws); the others come from the interleaving of responses.
  In \<open>Api\<close>: the stored token overrides the token passed by the call site (and, lemma
  \<open>cart_request_header_null\<close>, a request without any token carries \<open>Bearer null\<close>).
  Across components (this theory): a 401 on any cart request resets the whole application;
  a logged-out application puts no mutation on the wire; and, from any state, a mutation
  in flight at a logout refetches with the previous user's credential and shows that
  user's cart to the logged-out session.
  In \<open>Router\<close>: a rendered page is one its guard admits, and redirects settle.
  In \<open>CartPage\<close>: both pages compute the same summary, totals are bounded, the quantity
  handler never sends a quantity below 1, checkout requires an address, and a placed order
  clears the cart.
  In \<open>Display\<close>: \<open>toFixed(2)\<close> loses at most half a cent and prints whole cents exactly;
  the checkout page's printed total is the sum of its printed subtotal, shipping and tax
  when the cart's total is in whole cents (lemma \<open>checkout_rows_sub_cent\<close>: not otherwise);
  the lemma \<open>cart_checkout_same_text\<close>: the two pages print the same money.
  In \<open>Catalog\<close>: the page buttons stay in range, page clicks keep the page in range, the
  URL parameters round-trip, and past the last page \<open>Next\<close> stays enabled and moves further
  away; the lemmas \<open>sort_select_roundtrip\<close> and \<open>stars_count\<close> give the sort select's
  round trip and the stars.
  In \<open>Site\<close>: every link the application renders and every navigation target of its code
  reaches a route of \<open>App.js\<close> (a product link the page of that product when the id is one
  path segment), and the dashboard's quick actions lead to admin-only routes.
  In \<open>ProductPage\<close>: whatever the visitor does and however often the product is refetched,
  the product page only asks to add this product in a quantity between 1 and 10 and at
  most the largest stock it has shown; and for every product and session, a quantity
  chosen before a refetch lowered the stock is sent above the new stock (the lemma
  \<open>wishlist_add_request\<close>: a wishlist button sends \<open>addToCart(id, 1)\<close> exactly when the
  product is in stock and the visitor logged in).
  In \<open>Backend\<close>: the service keeps its invariant (distinct products of the catalogue with
  quantities between one and the stock, \<open>backend_wf\<close>); end to end, from a logged-out
  start and through any logins, logouts, operations and refreshes run until they settle,
  the display is the service's snapshot of the session's cart and the badge the sum of its
  quantities (\<open>mirrors\<close>); an accepted \<open>addToCart(p, q)\<close> raises the badge by exactly
  \<open>q\<close>, and it is accepted exactly when \<open>q\<close> is positive, the product exists and the
  merged quantity is within stock.
  In \<open>Network\<close>: the synchronizer's correctness depends on the network.  When each response
  is delivered before the next request is processed, overlapping operations converge: every
  time nothing is in flight the display mirrors the service, whatever the order of
  processing (invariant \<open>net_inv\<close>: the display is the snapshot unless a \<open>getCart\<close> is
  still in flight).  When responses overtake each other, from every session that mirrors a
  non-empty cart, a refresh answered before a \<open>clearCart\<close> but delivered after it puts the
  cleared cart back on the page with nothing in flight, the service's cart empty and
  \<open>clearCart\<close> reported successful.

  \<^bold>\<open>Bounds and fuel.\<close>  \<open>drain\<close> is given \<open>in_flight_weight s\<close> rounds: each answer to a
  request at the head of the queue lowers the weight by at least one (lemma
  \<open>resume_weight\<close>), so that many rounds empty the queue; the lemma \<open>drain_settles\<close> holds
  for any larger number too.  The closed loop of \<open>Backend\<close> gives \<open>serve\<close> the same
  bound after each user action, and every user action of the closed loop settles within it.
  The two networks of \<open>Network\<close> and the product page take one event per step and need no
  fuel.

  \<^bold>\<open>Not modelled.\<close>  Floating-point rounding of money (the model computes exactly in
  \<open>rat\<close>, and \<open>to_fixed2\<close> rounds the exact amount; amounts of \<open>10^21\<close> and more, which
  \<open>toFixed\<close> prints in exponent form, do not occur in a shop); rendering beyond the
  decisions and the money the pages print (images, icons, styling, static headings and
  paragraphs); the caching of react-query (\<open>keepPreviousData\<close>, cache keys), whose queries
  are modelled as the requests they send and, on the product page, as refetches of the
  product; the backend's services other than the cart (products, orders, reviews,
  wishlist, analytics, payment), whose requests the client only sends, and the backend's
  URL routing, which the spec does not give; the session holder's own network calls (login
  and profile), which are not in the repository; what the browser does with the controls
  that have no handler; module imports and exports.  React Router's matching is modelled
  case-sensitively and without percent-decoding, \<open>?\<close> or \<open>#\<close> in path segments.
\<close>

abbreviation home :: browser where
  "home \<equiv> \<lparr>stored_token = None, location = ''/''\<rparr>"

text \<open>
  [C5] Global session invalidation: a 401 answer to any cart request in flight, whichever
  operation sent it, leaves no stored token, the browser on \<open>/login\<close>, the session empty
  and the provider freshly mounted: empty cart, badge 0, nothing in flight.
\<close>

theorem unauthorized_response_resets_session:
  assumes "map_of (pending (sys_cart a)) i = Some k" and "status e = Some 401"
  shows "stored_token (sys_browser (sys_step a (Respond i (Failure e)))) = None \<and>
         location (sys_browser (sys_step a (Respond i (Failure e)))) = ''/login'' \<and>
         \<not> is_authenticated (sys_session (sys_step a (Respond i (Failure e)))) \<and>
         cart (sys_cart (sys_step a (Respond i (Failure e)))) = empty_cart \<and>
         cartCount (sys_cart (sys_step a (Respond i (Failure e)))) = 0 \<and>
         pending (sys_cart (sys_step a (Respond i (Failure e)))) = []"
  using assms by (simp add: response_interceptor_def cart_mount_def auth_effect_def cart_init_def)

theorem unauthorized_response_resets_session_witness:
  "map_of (pending (sys_cart (sys_step (page_load home []) (Login ''alice'')))) 0 =
     Some (FetchTask (Some ''alice'') None) \<and>
   status \<lparr>status = Some 401, detail = None\<rparr> = Some 401 \<and>
   pending (sys_cart (sys_step (sys_step (page_load home []) (Login ''alice''))
                       (Respond 0 (Failure \<lparr>status = Some 401, detail = None\<rparr>)))) = []"
proof -
  have p: "map_of (pending (sys_cart (sys_step (page_load home []) (Login ''alice'')))) 0 =
             Some (FetchTask (Some ''alice'') None)"
    by (simp add: render_provider_def auth_change_def auth_effect_def cart_mount_def cart_init_def)
  show ?thesis
    using unauthorized_response_resets_session [OF p, of "\<lparr>status = Some 401, detail = None\<rparr>"] p
    by simp
qed

text \<open>
  [C6] A logged-out application never sends a cart mutation: from any reachable state
  without a credential, until the next login, every request put on the wire is
  \<open>GET /api/cart\<close> (a refresh, or the refetch of a mutation sent before the logout).
\<close>

theorem logged_out_sends_no_mutation:
  assumes "sys_reachable a" and "\<not> is_authenticated (sys_session a)"
    and "list_all (\<lambda>e. \<forall>t. e \<noteq> Login t) es"
  shows "\<exists>ws. wire (sys_run a es) = wire a @ ws \<and>
              (\<forall>r \<in> set ws. req_method r = GET \<and> req_path r = ''/api/cart'')"
proof -
  have "\<not> cs_authenticated (sys_cart a)"
    using sys_reachable_inv [OF assms(1)] assms(2) by (simp add: sys_inv_def)
  then show ?thesis using logged_out_run assms(2,3) by blast
qed

theorem logged_out_sends_no_mutation_witness:
  "sys_reachable (page_load home []) \<and> \<not> is_authenticated (sys_session (page_load home [])) \<and>
   list_all (\<lambda>e. \<forall>t. e \<noteq> Login t) [Call ClearCart, RefreshCart] \<and>
   wire (sys_run (page_load home []) [Call ClearCart, RefreshCart]) =
     [api_request home None (CartApi GetCart)]"
proof -
  have r: "sys_reachable (page_load home [])" by (rule sys_reachable.boot)
  have "\<exists>ws. wire (sys_run (page_load home []) [Call ClearCart, RefreshCart]) = [] @ ws \<and>
              (\<forall>r \<in> set ws. req_method r = GET \<and> req_path r = ''/api/cart'')"
    using logged_out_sends_no_mutation [OF r, of "[Call ClearCart, RefreshCart]"] by simp
  moreover have "wire (sys_run (page_load home []) [Call ClearCart, RefreshCart]) =
                   [api_request home None (CartApi GetCart)]"
    by (simp add: cart_mutation_def cart_mount_def auth_effect_def cart_init_def transmit_def)
  ultimately show ?thesis using r by simp
qed

text \<open>
  [C14] Whatever the state, a mutation in flight when the user logs out keeps the credential
  it captured: when its call succeeds, its refetch goes out with the previous user's
  \<open>Bearer\<close> token (the interceptor no longer overrides it, the storage being empty), and
  the answer, that user's cart, is displayed to the logged-out session with the mutation
  reported as successful.
\<close>

theorem logout_refetch_uses_old_credential:
  assumes "map_of (pending (sys_cart a)) i = Some (MutateTask (Some t) op)"
    and "next_req (sys_cart a) \<notin> fst ` set (pending (sys_cart a))"
    and "items d' = Some xs"
  shows "let a' = sys_run a [Logout, Respond i (Success d), Respond (next_req (sys_cart a)) (Success d')]
         in \<not> is_authenticated (sys_session a') \<and> stored_token (sys_browser a') = None \<and>
            wire a' = wire a @ [\<lparr>req_method = GET, req_path = ''/api/cart'',
                                 authorization = Some (bearer (Some t))\<rparr>] \<and>
            cart (sys_cart a') = d' \<and> results (sys_cart a') = results (sys_cart a) @ [(op, True)]"
proof -
  have fresh: "map_of (filter (\<lambda>p. fst p \<noteq> i) (pending (sys_cart a))) (next_req (sys_cart a)) = None"
    using assms(2) by (auto simp: map_of_eq_None_iff)
  show ?thesis
    using assms(1,3) fresh
    by (simp add: render_provider_def auth_change_def auth_effect_def deliver_def transmit_def
                  api_request_def request_interceptor_def fetch_cart_def issue_def fetch_settled_def
                  Let_def map_add_def split: option.split)
qed

theorem logout_refetch_uses_old_credential_witness:
  "let a = sys_run (page_load home []) [Login ''alice'', Call (AddToCart ''p1'' 1)];
       a' = sys_run a [Logout, Respond 1 (Success empty_cart), Respond 2 (Success cart_p1)]
   in \<not> is_authenticated (sys_session a') \<and> stored_token (sys_browser a') = None \<and>
      last (wire a') = \<lparr>req_method = GET, req_path = ''/api/cart'', authorization = Some (bearer (Some ''alice''))\<rparr> \<and>
      cart (sys_cart a') = cart_p1 \<and> results (sys_cart a') = [(AddToCart ''p1'' 1, True)]"
proof -
  define A where "A = sys_run (page_load home []) [Login ''alice'', Call (AddToCart ''p1'' 1)]"
  have p: "map_of (pending (sys_cart A)) 1 = Some (MutateTask (Some ''alice'') (AddToCart ''p1'' 1))"
    and n: "next_req (sys_cart A) = 2" and f: "next_req (sys_cart A) \<notin> fst ` set (pending (sys_cart A))"
    and r: "results (sys_cart A) = []"
    by (simp_all add: A_def render_provider_def auth_change_def auth_effect_def cart_mount_def cart_init_def
                      cart_mutation_def fetch_cart_def issue_def)
  have "let a' = sys_run A [Logout, Respond 1 (Success empty_cart), Respond (next_req (sys_cart A)) (Success cart_p1)]
        in \<not> is_authenticated (sys_session a') \<and> stored_token (sys_browser a') = None \<and>
           wire a' = wire A @ [\<lparr>req_method = GET, req_path = ''/api/cart'',
                                authorization = Some (bearer (Some ''alice''))\<rparr>] \<and>
           cart (sys_cart a') = cart_p1 \<and> results (sys_cart a') = results (sys_cart A) @ [(AddToCart ''p1'' 1, True)]"
    by (rule logout_refetch_uses_old_credential [OF p f]) simp
  then show ?thesis unfolding A_def [symmetric] n r by (simp add: Let_def del: sys_run_simps)
qed

end
